theory Spec2Isabelle
  imports Complex_Main
begin

section \<open>Conventions of the embedding\<close>

text \<open>
  The environments of marketsAI are Python classes with a \<^verbatim>\<open>reset\<close> and a
  \<^verbatim>\<open>step\<close> method. Each class becomes a record of its attributes, each method a
  function from that record (and the method's arguments) to a result in
  \<open>py_error + 'a\<close>: \<open>Inl\<close> is the exception the Python raises, \<open>Inr\<close> the
  value it returns together with the updated object.

  \<^item> Python floats and numpy floats are real numbers here. Rounding, underflow,
    \<^verbatim>\<open>inf\<close> and \<^verbatim>\<open>nan\<close> are not represented. Where Python raises
    OverflowError rather than returning \<^verbatim>\<open>inf\<close> (\<^verbatim>\<open>math.e ** x\<close> on a Python
    float), the exception is a branch of the model.
  \<^item> A dictionary keyed by the agent names \<^verbatim>\<open>hh_0, hh_1, ...\<close>
    (\<^verbatim>\<open>firm_i\<close>, \<^verbatim>\<open>agent_i\<close>) that a method builds is an association list
    keyed by the agent's index, in insertion order. A dictionary a method receives is
    a map from the index, or an association list where the code reads its order.
  \<^item> Every call of \<^verbatim>\<open>random\<close> or \<^verbatim>\<open>np.random\<close> takes its outcome from an
    explicit argument of the method (a record of the draws of that call).
\<close>

datatype py_error =
    AttributeError string
  | KeyError
  | IndexError
  | ZeroDivisionError
  | TypeError
  | OverflowError
  | Unmodelled

text \<open>
  \<^verbatim>\<open>x ** a\<close> on floats, where the result is a finite real: a positive base, base
  \<open>0\<close> with a non-negative exponent (\<^verbatim>\<open>0.0 ** 0 == 1.0\<close>), or a negative base with
  an integral exponent. For other arguments Python and numpy give \<^verbatim>\<open>inf\<close>,
  \<^verbatim>\<open>nan\<close>, a complex number or an error; no theorem below depends on the value
  chosen there.
\<close>

definition py_pow :: "real \<Rightarrow> real \<Rightarrow> real" where
  "py_pow x a =
     (if a = 0 then 1
      else if x = 0 then 0
      else if 0 < x then x powr a
      else x powi \<lfloor>a\<rfloor>)"

text \<open>\<^verbatim>\<open>xs[i]\<close> for a non-negative index: IndexError out of range.\<close>

definition py_index :: "'a list \<Rightarrow> nat \<Rightarrow> py_error + 'a" where
  "py_index xs i = (if i < length xs then Inr (xs ! i) else Inl IndexError)"

section \<open>Durable_sgm (markets/durable_sgm.py)\<close>

text \<open>
  The attributes of a \<^verbatim>\<open>Durable_sgm\<close> object. \<open>utility_function\<close> is the
  configured callable (default \<^verbatim>\<open>CRRA(coeff=2)\<close>, defined outside these sources): a
  parameter, which may raise. \<open>observation_space_high\<close> is the upper bound of the
  observation Box; \<open>None\<close> stands for \<^verbatim>\<open>float("inf")\<close>, the only value
  \<^verbatim>\<open>__init__\<close> gives it. \<open>ds_obs\<close> is \<^verbatim>\<open>self.obs_\<close>, unset until \<^verbatim>\<open>reset\<close>.
\<close>

record Durable_sgm =
  ds_depreciation :: real
  ds_alpha :: real
  ds_tfp :: real
  ds_max_saving :: real
  ds_utility_function :: "real \<Rightarrow> py_error + real"
  ds_observation_space_high :: "real option"
  ds_obs :: "real list option"

record Durable_sgm_config =
  dc_depreciation :: real
  dc_alpha :: real
  dc_tfp :: real
  dc_max_saving :: real
  dc_utility_function :: "real \<Rightarrow> py_error + real"

definition Durable_sgm_init :: "Durable_sgm_config \<Rightarrow> Durable_sgm" where
  "Durable_sgm_init cfg =
     \<lparr> ds_depreciation = dc_depreciation cfg,
       ds_alpha = dc_alpha cfg,
       ds_tfp = dc_tfp cfg,
       ds_max_saving = dc_max_saving cfg,
       ds_utility_function = dc_utility_function cfg,
       ds_observation_space_high = None,
       ds_obs = None \<rparr>"

text \<open>The defaults of \<^verbatim>\<open>env_config\<close>, for a given default utility function.\<close>

definition Durable_sgm_default_config :: "(real \<Rightarrow> py_error + real) \<Rightarrow> Durable_sgm_config" where
  "Durable_sgm_default_config crra =
     \<lparr> dc_depreciation = 0.04, dc_alpha = 0.33, dc_tfp = 1, dc_max_saving = 0.2,
       dc_utility_function = crra \<rparr>"

text \<open>
  \<^verbatim>\<open>reset\<close>: \<open>k_choice\<close> is the outcome of
  \<^verbatim>\<open>random.choices([0.01, 5, 7, 9, 11, 15], weights=...)\<close>, a one-element list. The
  method sets no timestep: the class has none.
\<close>

definition Durable_sgm_reset :: "Durable_sgm \<Rightarrow> real \<Rightarrow> Durable_sgm \<times> real list" where
  "Durable_sgm_reset env k_choice =
     (let k_init = [k_choice] in (env\<lparr>ds_obs := Some k_init\<rparr>, k_init))"

record Durable_sgm_info =
  di_savings_rate :: real
  di_rewards :: real
  di_income :: real
  di_capital_old :: real
  di_capital_new :: real

record Durable_sgm_result =
  dr_env :: Durable_sgm
  dr_obs :: "real list"
  dr_rew :: real
  dr_done :: bool
  dr_info :: Durable_sgm_info

text \<open>\<^verbatim>\<open>min(x, np.float(self.observation_space.high))\<close>.\<close>

definition min_high :: "real \<Rightarrow> real option \<Rightarrow> real" where
  "min_high x high = (case high of None \<Rightarrow> x | Some h \<Rightarrow> min x h)"

text \<open>The local variables of \<^verbatim>\<open>step\<close>, in the order the method computes them.\<close>

definition Durable_sgm_s :: "Durable_sgm \<Rightarrow> real \<Rightarrow> real" where
  "Durable_sgm_s env a0 = (a0 + 1) / 2 * ds_max_saving env"

definition Durable_sgm_y :: "Durable_sgm \<Rightarrow> real \<Rightarrow> real" where
  "Durable_sgm_y env k_old = max (ds_tfp env * py_pow k_old (ds_alpha env)) 0.00001"

definition Durable_sgm_k :: "Durable_sgm \<Rightarrow> real \<Rightarrow> real \<Rightarrow> real" where
  "Durable_sgm_k env k_old s =
     min_high (k_old * (1 - ds_depreciation env) + s) (ds_observation_space_high env)"

text \<open>The argument \<^verbatim>\<open>step\<close> passes to the utility function.\<close>

definition Durable_sgm_utility_arg :: "Durable_sgm \<Rightarrow> real \<Rightarrow> real \<Rightarrow> real" where
  "Durable_sgm_utility_arg env k_old a0 =
     max (Durable_sgm_y env k_old * (1 - Durable_sgm_s env a0)) 0.00001"

definition Durable_sgm_step :: "Durable_sgm \<Rightarrow> real list \<Rightarrow> py_error + Durable_sgm_result" where
  "Durable_sgm_step env action =
     (case ds_obs env of
        None \<Rightarrow> Inl (AttributeError ''obs_'')
      | Some obs \<Rightarrow>
     (case py_index obs 0 of
        Inl e \<Rightarrow> Inl e
      | Inr k_old \<Rightarrow>
     (case py_index action 0 of
        Inl e \<Rightarrow> Inl e
      | Inr a0 \<Rightarrow>
        let s = Durable_sgm_s env a0;
            y = Durable_sgm_y env k_old;
            k = Durable_sgm_k env k_old s
        in (case ds_utility_function env (Durable_sgm_utility_arg env k_old a0) of
              Inl e \<Rightarrow> Inl e
            | Inr u \<Rightarrow>
                let rew = max (u + 1) (- 1000) in
                Inr \<lparr> dr_env = env\<lparr>ds_obs := Some [k]\<rparr>,
                      dr_obs = [k],
                      dr_rew = rew,
                      dr_done = False,
                      dr_info = \<lparr> di_savings_rate = s, di_rewards = rew, di_income = y,
                                  di_capital_old = k_old, di_capital_new = k \<rparr> \<rparr>))))"

text \<open>A utility function that is defined on every positive consumption.\<close>

definition defined_on_positive :: "(real \<Rightarrow> py_error + real) \<Rightarrow> bool" where
  "defined_on_positive u = (\<forall>c. 0 < c \<longrightarrow> (\<exists>v. u c = Inr v))"

text \<open>
  \<^verbatim>\<open>CRRA(coeff=2)\<close> as the repository's \<^verbatim>\<open>functions\<close> module is expected to compute it,
  used only as a concrete utility function in examples: \<open>c ** (1 - 2) / (1 - 2)\<close>.
\<close>

definition crra2 :: "real \<Rightarrow> py_error + real" where
  "crra2 c = (if c = 0 then Inl ZeroDivisionError else Inr (- (1 / c)))"

section \<open>Comprehensions and dictionaries\<close>

text \<open>Sequencing of computations that may raise.\<close>

definition bindE :: "'e + 'a \<Rightarrow> ('a \<Rightarrow> 'e + 'b) \<Rightarrow> 'e + 'b" where
  "bindE m f = (case m of Inl e \<Rightarrow> Inl e | Inr v \<Rightarrow> f v)"

text \<open>
  A list of computations that may raise, run from left to right: the first exception
  ends the run. \<open>py_list_comp f n\<close> is \<^verbatim>\<open>[f(i) for i in range(n)]\<close>.
\<close>

primrec sequence_sum :: "('e + 'a) list \<Rightarrow> 'e + 'a list" where
  "sequence_sum [] = Inr []"
| "sequence_sum (x # xs) = bindE x (\<lambda>v. bindE (sequence_sum xs) (\<lambda>vs. Inr (v # vs)))"

definition py_list_comp :: "(nat \<Rightarrow> 'e + 'a) \<Rightarrow> nat \<Rightarrow> 'e + 'a list" where
  "py_list_comp f n = sequence_sum (map f [0..<n])"

text \<open>\<^verbatim>\<open>a / b\<close> on Python numbers.\<close>

definition py_div :: "real \<Rightarrow> real \<Rightarrow> py_error + real" where
  "py_div a b = (if b = 0 then Inl ZeroDivisionError else Inr (a / b))"

text \<open>\<^verbatim>\<open>{f"agent_{i}": f(i) for i in range(n)}\<close>, keyed by the index.\<close>

definition agent_dict :: "nat \<Rightarrow> (nat \<Rightarrow> 'a) \<Rightarrow> (nat \<times> 'a) list" where
  "agent_dict n f = map (\<lambda>i. (i, f i)) [0..<n]"

text \<open>\<^verbatim>\<open>np.uint8(x)\<close> of an integer value: the value modulo 256.\<close>

definition uint8 :: "int \<Rightarrow> nat" where
  "uint8 x = nat (x mod 256)"

section \<open>DiffDemandDiscrete (markets/diff_demand.py)\<close>

text \<open>
  The attributes of a \<^verbatim>\<open>DiffDemandDiscrete\<close> object. \<open>gridpoints\<close> is typed as an
  integer, so the constructor's \<^verbatim>\<open>isinstance(self.gridpoints, int)\<close> check passes.
\<close>

record DiffDemandDiscrete =
  dd_n_agents :: nat
  dd_gridpoints :: int
  dd_finite_periods :: bool
  dd_n_periods :: int
  dd_cost :: "real list"
  dd_values :: "real list"
  dd_ext_demand :: real
  dd_substitution :: real
  dd_lower_price :: "real list"
  dd_higher_price :: "real list"
  dd_num_steps :: int
  dd_obs :: "(nat \<times> nat list) list"

text \<open>
  \<^verbatim>\<open>mkt_config\<close> with the defaults of \<^verbatim>\<open>mkt_config.get\<close> written as options:
  \<open>None\<close> is an absent key. \<open>mc_n_agents\<close> is \<^verbatim>\<open>len(agents_dict)\<close>.
\<close>

record mkt_config =
  mc_n_agents :: nat
  mc_gridpoints :: "int option"
  mc_finite_periods :: "bool option"
  mc_n_periods :: "int option"
  mc_parameters :: "(real list \<times> real list \<times> real \<times> real) option"
  mc_lower_price :: "real list option"
  mc_higher_price :: "real list option"

definition DiffDemandDiscrete_init :: "mkt_config \<Rightarrow> DiffDemandDiscrete" where
  "DiffDemandDiscrete_init cfg =
     (let n_agents = mc_n_agents cfg;
          (cost, values, ext_demand, substitution) =
             (case mc_parameters cfg of
                None \<Rightarrow> (replicate n_agents 1, replicate n_agents 2, 0, 0.25)
              | Some p \<Rightarrow> p)
      in \<lparr> dd_n_agents = n_agents,
           dd_gridpoints = (case mc_gridpoints cfg of None \<Rightarrow> 16 | Some g \<Rightarrow> g),
           dd_finite_periods = (case mc_finite_periods cfg of None \<Rightarrow> False | Some b \<Rightarrow> b),
           dd_n_periods = (case mc_n_periods cfg of None \<Rightarrow> 1000 | Some m \<Rightarrow> m),
           dd_cost = cost,
           dd_values = values,
           dd_ext_demand = ext_demand,
           dd_substitution = substitution,
           dd_lower_price = (case mc_lower_price cfg of None \<Rightarrow> cost | Some l \<Rightarrow> l),
           dd_higher_price = (case mc_higher_price cfg of None \<Rightarrow> values | Some h \<Rightarrow> h),
           dd_num_steps = 0,
           dd_obs = [] \<rparr>)"

text \<open>\<^verbatim>\<open>DiffDemandDiscrete()\<close>: no configuration, the two default agents.\<close>

definition DiffDemandDiscrete_default :: DiffDemandDiscrete where
  "DiffDemandDiscrete_default =
     DiffDemandDiscrete_init
       \<lparr> mc_n_agents = 2, mc_gridpoints = None, mc_finite_periods = None, mc_n_periods = None,
         mc_parameters = None, mc_lower_price = None, mc_higher_price = None \<rparr>"

text \<open>
  \<^verbatim>\<open>reset\<close>: every agent observes \<^verbatim>\<open>np.uint8(np.floor(gridpoints / 2))\<close> once per
  agent.
\<close>

definition DiffDemandDiscrete_reset ::
  "DiffDemandDiscrete \<Rightarrow> DiffDemandDiscrete \<times> (nat \<times> nat list) list" where
  "DiffDemandDiscrete_reset env =
     (let obs = agent_dict (dd_n_agents env)
                  (\<lambda>i. map (\<lambda>i. uint8 (dd_gridpoints env div 2)) [0..<dd_n_agents env])
      in (env\<lparr>dd_num_steps := 0, dd_obs := obs\<rparr>, obs))"

record DiffDemandDiscrete_done =
  dd_done_agents :: "(nat \<times> bool) list"
  dd_done_all :: bool

record DiffDemandDiscrete_result =
  ddr_env :: DiffDemandDiscrete
  ddr_obs :: "(nat \<times> nat list) list"
  ddr_rew :: "(nat \<times> real) list"
  ddr_done :: DiffDemandDiscrete_done
  ddr_info :: "(nat \<times> real) list"

text \<open>
  The largest finite double, \<^verbatim>\<open>(2 - 2**-52) * 2**1023\<close>, and \<^verbatim>\<open>math.e ** x\<close> for a
  Python float \<open>x\<close>: the power of two Python floats raises OverflowError when the
  result is beyond the largest finite double (an exponent above about 709.78); a
  result too small for a double is rounded to \<open>0.0\<close> without an exception.
\<close>

definition float_max :: real where
  "float_max = (2 ^ 53 - 1) * 2 ^ 971"

definition py_e_pow :: "real \<Rightarrow> py_error + real" where
  "py_e_pow x = (if float_max < exp x then Inl OverflowError else Inr (exp x))"

text \<open>
  \<^verbatim>\<open>a / b\<close> on Python integers: ZeroDivisionError for a zero divisor, OverflowError
  when the quotient is beyond the largest finite double.
\<close>

definition py_int_truediv :: "int \<Rightarrow> int \<Rightarrow> py_error + real" where
  "py_int_truediv a b =
     (if b = 0 then Inl ZeroDivisionError
      else if float_max < \<bar>of_int a / of_int b\<bar> then Inl OverflowError
      else Inr (of_int a / of_int b))"

text \<open>
  The lists \<^verbatim>\<open>step\<close> computes from \<^verbatim>\<open>actions = list(action_dict.values())\<close>.
  An index out of range raises IndexError; \<^verbatim>\<open>actions[i] / (gridpoints - 1)\<close> and the
  divisions by \<^verbatim>\<open>substitution\<close> raise ZeroDivisionError on Python numbers; the
  division of the integers and the exponentials raise OverflowError.
\<close>

definition dd_step_obs :: "DiffDemandDiscrete \<Rightarrow> int list \<Rightarrow> py_error + (nat \<times> nat list) list" where
  "dd_step_obs env actions =
     bindE (py_list_comp
              (\<lambda>i. py_list_comp (\<lambda>j. bindE (py_index actions j) (\<lambda>a. Inr (uint8 a)))
                     (dd_n_agents env))
              (dd_n_agents env))
       (\<lambda>rows. Inr (agent_dict (dd_n_agents env) (\<lambda>i. rows ! i)))"

definition dd_prices :: "DiffDemandDiscrete \<Rightarrow> int list \<Rightarrow> py_error + real list" where
  "dd_prices env actions =
     py_list_comp
       (\<lambda>i. bindE (py_index (dd_lower_price env) i) (\<lambda>lo.
             bindE (py_index (dd_higher_price env) i) (\<lambda>hi.
             bindE (py_index (dd_lower_price env) i) (\<lambda>lo'.
             bindE (py_index actions i) (\<lambda>a.
             bindE (py_int_truediv a (dd_gridpoints env - 1)) (\<lambda>q.
             Inr (lo + (hi - lo') * q)))))))
       (dd_n_agents env)"

definition dd_rewards_notnorm :: "DiffDemandDiscrete \<Rightarrow> real list \<Rightarrow> py_error + real list" where
  "dd_rewards_notnorm env prices =
     py_list_comp
       (\<lambda>i. bindE (py_index (dd_values env) i) (\<lambda>v.
             bindE (py_index prices i) (\<lambda>p.
             bindE (py_div (v - p) (dd_substitution env)) (\<lambda>x.
             py_e_pow x))))
       (dd_n_agents env)"

definition dd_rewards_denom :: "DiffDemandDiscrete \<Rightarrow> real list \<Rightarrow> py_error + real" where
  "dd_rewards_denom env rewards_notnorm =
     bindE (py_div (dd_ext_demand env) (dd_substitution env)) (\<lambda>x.
     bindE (py_e_pow x) (\<lambda>e0.
     Inr (e0 + sum_list rewards_notnorm)))"

definition dd_rewards_list ::
  "DiffDemandDiscrete \<Rightarrow> real list \<Rightarrow> real list \<Rightarrow> real \<Rightarrow> py_error + real list" where
  "dd_rewards_list env prices rewards_notnorm rewards_denom =
     py_list_comp
       (\<lambda>i. bindE (py_index prices i) (\<lambda>p.
             bindE (py_index (dd_cost env) i) (\<lambda>c.
             bindE (py_index rewards_notnorm i) (\<lambda>r.
             py_div ((p - c) * r) rewards_denom))))
       (dd_n_agents env)"

definition dd_step_done :: "DiffDemandDiscrete \<Rightarrow> DiffDemandDiscrete_done" where
  "dd_step_done env =
     (if dd_finite_periods env
      then \<lparr> dd_done_agents = agent_dict (dd_n_agents env) (\<lambda>i. dd_num_steps env \<ge> dd_n_periods env),
             dd_done_all = (dd_num_steps env \<ge> dd_n_periods env) \<rparr>
      else \<lparr> dd_done_agents = [], dd_done_all = False \<rparr>)"

definition DiffDemandDiscrete_step ::
  "DiffDemandDiscrete \<Rightarrow> (nat \<times> int) list \<Rightarrow> py_error + DiffDemandDiscrete_result" where
  "DiffDemandDiscrete_step env action_dict =
     (let actions = map snd action_dict in
      bindE (dd_step_obs env actions) (\<lambda>obs.
      bindE (dd_prices env actions) (\<lambda>prices.
      bindE (dd_rewards_notnorm env prices) (\<lambda>rewards_notnorm.
      bindE (dd_rewards_denom env rewards_notnorm) (\<lambda>rewards_denom.
      bindE (dd_rewards_list env prices rewards_notnorm rewards_denom) (\<lambda>rewards_list.
      Inr \<lparr> ddr_env = env\<lparr>dd_obs := obs, dd_num_steps := dd_num_steps env + 1\<rparr>,
            ddr_obs = obs,
            ddr_rew = agent_dict (dd_n_agents env) (\<lambda>i. rewards_list ! i),
            ddr_done = dd_step_done env,
            ddr_info = agent_dict (dd_n_agents env) (\<lambda>i. prices ! i) \<rparr>))))))"

text \<open>
  The demand system as the specification words it: the price on the grid, the logit
  market share with the outside option, and the profit.
\<close>

definition spec_price :: "DiffDemandDiscrete \<Rightarrow> int list \<Rightarrow> nat \<Rightarrow> real" where
  "spec_price env actions i =
     dd_lower_price env ! i
       + (dd_higher_price env ! i - dd_lower_price env ! i) * of_int (actions ! i)
           / of_int (dd_gridpoints env - 1)"

definition spec_market_share :: "DiffDemandDiscrete \<Rightarrow> int list \<Rightarrow> nat \<Rightarrow> real" where
  "spec_market_share env actions i =
     exp ((dd_values env ! i - spec_price env actions i) / dd_substitution env)
       / (exp (dd_ext_demand env / dd_substitution env)
          + (\<Sum>j = 0..<dd_n_agents env.
               exp ((dd_values env ! j - spec_price env actions j) / dd_substitution env)))"

definition spec_reward :: "DiffDemandDiscrete \<Rightarrow> int list \<Rightarrow> nat \<Rightarrow> real" where
  "spec_reward env actions i =
     (spec_price env actions i - dd_cost env ! i) * spec_market_share env actions i"

text \<open>
  The inputs on which \<^verbatim>\<open>step\<close> raises neither IndexError nor ZeroDivisionError:
  every list it indexes has an entry for each agent, and neither divisor is zero.
\<close>

definition dd_wellformed :: "DiffDemandDiscrete \<Rightarrow> int list \<Rightarrow> bool" where
  "dd_wellformed env actions =
     (dd_n_agents env \<le> length actions \<and>
      dd_n_agents env \<le> length (dd_lower_price env) \<and>
      dd_n_agents env \<le> length (dd_higher_price env) \<and>
      dd_n_agents env \<le> length (dd_values env) \<and>
      dd_n_agents env \<le> length (dd_cost env) \<and>
      dd_gridpoints env \<noteq> 1 \<and>
      dd_substitution env \<noteq> 0)"

text \<open>
  The inputs on which \<^verbatim>\<open>step\<close> raises no OverflowError: the quotients
  \<^verbatim>\<open>actions[i] / (gridpoints - 1)\<close> and the exponentials are within the doubles.
\<close>

definition dd_no_overflow :: "DiffDemandDiscrete \<Rightarrow> int list \<Rightarrow> bool" where
  "dd_no_overflow env actions =
     ((\<forall>i<dd_n_agents env.
         \<bar>of_int (actions ! i) / of_int (dd_gridpoints env - 1)\<bar> \<le> float_max) \<and>
      (\<forall>i<dd_n_agents env.
         exp ((dd_values env ! i - spec_price env actions i) / dd_substitution env) \<le> float_max) \<and>
      exp (dd_ext_demand env / dd_substitution env) \<le> float_max)"

section \<open>Agent-centred views\<close>

text \<open>
  \<^verbatim>\<open>[x for z, x in enumerate(xs) if z != i]\<close> and
  \<^verbatim>\<open>[xs[i]] + [x for z, x in enumerate(xs) if z != i]\<close>, the reordering every
  multi-agent environment writes under the comment "put your own state first".
\<close>

definition others :: "'a list \<Rightarrow> nat \<Rightarrow> 'a list" where
  "others xs i = map snd (filter (\<lambda>(z, x). z \<noteq> i) (enumerate 0 xs))"

definition own_first :: "'a list \<Rightarrow> nat \<Rightarrow> py_error + 'a list" where
  "own_first xs i = bindE (py_index xs i) (\<lambda>x. Inr (x # others xs i))"

section \<open>Capital_planner_ma (capital_mkts/capital_planner_ma.py)\<close>

text \<open>
  \<^verbatim>\<open>env_config\<close> with every default of \<^verbatim>\<open>env_config.get\<close> applied; the four
  entries of \<^verbatim>\<open>parameters\<close> are fields of their own.
\<close>

record Capital_planner_ma_config =
  cc_horizon :: nat
  cc_n_hh :: nat
  cc_n_capital :: nat
  cc_eval_mode :: bool
  cc_analysis_mode :: bool
  cc_max_savings :: real
  cc_bgt_penalty :: real
  cc_shock_idtc_values :: "real list"
  cc_shock_idtc_transition :: "real list list"
  cc_shock_agg_values :: "real list"
  cc_shock_agg_transition :: "real list list"
  cc_delta :: real
  cc_alpha :: real
  cc_phi :: real
  cc_beta :: real

definition Capital_planner_ma_default_config :: Capital_planner_ma_config where
  "Capital_planner_ma_default_config =
     \<lparr> cc_horizon = 1000, cc_n_hh = 1, cc_n_capital = 1,
       cc_eval_mode = False, cc_analysis_mode = False,
       cc_max_savings = 0.6, cc_bgt_penalty = 1,
       cc_shock_idtc_values = [0.9, 1.1],
       cc_shock_idtc_transition = [[0.9, 0.1], [0.1, 0.9]],
       cc_shock_agg_values = [0.8, 1.2],
       cc_shock_agg_transition = [[0.95, 0.05], [0.05, 0.95]],
       cc_delta = 0.04, cc_alpha = 0.3, cc_phi = 0.5, cc_beta = 0.98 \<rparr>"

text \<open>
  An observation of one household: its view of the stocks, its view of the
  idiosyncratic shock indices, and the aggregate shock index.
\<close>

type_synonym cp_observation = "real list \<times> nat list \<times> nat"

text \<open>
  The attributes of a \<^verbatim>\<open>Capital_planner_ma\<close> object. The four schedules exist only
  in the mode that builds them (\<open>None\<close>: the attribute is not set); \<open>cp_timestep\<close>
  is \<^verbatim>\<open>None\<close> and \<^verbatim>\<open>self.obs_\<close> is not set until \<^verbatim>\<open>reset\<close>.
\<close>

record Capital_planner_ma =
  cp_horizon :: nat
  cp_n_hh :: nat
  cp_n_capital :: nat
  cp_eval_mode :: bool
  cp_analysis_mode :: bool
  cp_max_savings :: real
  cp_bgt_penalty :: real
  cp_shock_idtc_values :: "real list"
  cp_shock_idtc_transition :: "real list list"
  cp_shock_agg_values :: "real list"
  cp_shock_agg_transition :: "real list list"
  cp_delta :: real
  cp_alpha :: real
  cp_phi :: real
  cp_beta :: real
  cp_k_ss :: real
  cp_max_s_ij :: real
  cp_shocks_eval_agg :: "(nat \<rightharpoonup> nat) option"
  cp_shocks_eval_idtc :: "(nat \<rightharpoonup> nat list) option"
  cp_shocks_analysis_agg :: "(nat \<rightharpoonup> nat) option"
  cp_shocks_analysis_idtc :: "(nat \<rightharpoonup> nat list) option"
  cp_timestep :: "nat option"
  cp_obs :: "(nat \<times> cp_observation) list option"

subsection \<open>The constructor\<close>

text \<open>
  \<^verbatim>\<open>x ** a\<close> on Python floats: \<^verbatim>\<open>0.0\<close> to a negative power raises
  ZeroDivisionError; a negative base to a fractional power is a complex number, which
  this development does not follow further.
\<close>

definition py_float_pow :: "real \<Rightarrow> real \<Rightarrow> py_error + real" where
  "py_float_pow x a =
     (if x = 0 \<and> a < 0 then Inl ZeroDivisionError
      else if x < 0 \<and> a \<noteq> of_int \<lfloor>a\<rfloor> then Inl Unmodelled
      else Inr (py_pow x a))"

definition cp_steady_state :: "Capital_planner_ma_config \<Rightarrow> py_error + real" where
  "cp_steady_state cfg =
     bindE (py_div (1 - cc_beta cfg * (1 - cc_delta cfg)) (cc_alpha cfg * cc_beta cfg)) (\<lambda>q1.
     bindE (py_div (cc_delta cfg * (real (cc_n_capital cfg) - 1)) (real (cc_n_capital cfg))) (\<lambda>q2.
     bindE (py_div 1 (cc_alpha cfg - 2)) (\<lambda>e.
     py_float_pow
       (cc_phi cfg * cc_delta cfg * real (cc_n_hh cfg) * real (cc_n_capital cfg) * (q1 + q2)) e)))"

text \<open>
  \<^verbatim>\<open>(t // (1 / transition[0][1]) + 1) % 2 == 0\<close>, the test that alternates the
  scheduled shocks.
\<close>

definition schedule_flag :: "real list list \<Rightarrow> nat \<Rightarrow> py_error + bool" where
  "schedule_flag transition t =
     bindE (py_index transition 0) (\<lambda>row.
     bindE (py_index row 1) (\<lambda>p.
     bindE (py_div 1 p) (\<lambda>d.
     Inr ((\<lfloor>real t / d\<rfloor> + 1) mod 2 = 0))))"

text \<open>
  \<^verbatim>\<open>d = {0: v0}\<close> followed by
  \<^verbatim>\<open>for t in range(1, horizon + 1): d[t] = f(t)\<close>.
\<close>

definition build_schedule :: "nat \<Rightarrow> 'a \<Rightarrow> (nat \<Rightarrow> py_error + 'a) \<Rightarrow> py_error + (nat \<rightharpoonup> 'a)" where
  "build_schedule horizon v0 f =
     bindE (py_list_comp (\<lambda>k. f (Suc k)) horizon) (\<lambda>vs.
     Inr (map_of ((0, v0) # zip [1..<Suc horizon] vs)))"

definition cp_build_eval_agg :: "Capital_planner_ma_config \<Rightarrow> py_error + (nat \<rightharpoonup> nat)" where
  "cp_build_eval_agg cfg =
     build_schedule (cc_horizon cfg) 0
       (\<lambda>t. bindE (schedule_flag (cc_shock_agg_transition cfg) t) (\<lambda>b. Inr (if b then 1 else 0)))"

definition cp_build_eval_idtc :: "Capital_planner_ma_config \<Rightarrow> py_error + (nat \<rightharpoonup> nat list)" where
  "cp_build_eval_idtc cfg =
     build_schedule (cc_horizon cfg) (map (\<lambda>i. 1 - i mod 2) [0..<cc_n_hh cfg])
       (\<lambda>t. bindE (schedule_flag (cc_shock_idtc_transition cfg) t) (\<lambda>b.
             Inr (if b then map (\<lambda>i. i mod 2) [0..<cc_n_hh cfg]
                  else map (\<lambda>i. 1 - i mod 2) [0..<cc_n_hh cfg])))"

definition cp_build_analysis_agg :: "Capital_planner_ma_config \<Rightarrow> py_error + (nat \<rightharpoonup> nat)" where
  "cp_build_analysis_agg cfg =
     build_schedule (cc_horizon cfg) 0
       (\<lambda>t. bindE (schedule_flag (cc_shock_agg_transition cfg) t) (\<lambda>b. Inr (if b then 1 else 0)))"

definition cp_build_analysis_idtc :: "Capital_planner_ma_config \<Rightarrow> py_error + (nat \<rightharpoonup> nat list)" where
  "cp_build_analysis_idtc cfg =
     build_schedule (cc_horizon cfg) (map (\<lambda>i. 0) [0..<cc_n_hh cfg])
       (\<lambda>t. bindE (schedule_flag (cc_shock_idtc_transition cfg) t) (\<lambda>b.
             Inr (if b then map (\<lambda>i. 0) [0..<cc_n_hh cfg]
                  else map (\<lambda>i. 0) [0..<cc_n_hh cfg])))"

definition Capital_planner_ma_init :: "Capital_planner_ma_config \<Rightarrow> py_error + Capital_planner_ma" where
  "Capital_planner_ma_init cfg =
     bindE (cp_steady_state cfg) (\<lambda>k_ss.
     bindE (py_div (cc_max_savings cfg) (real (cc_n_capital cfg))) (\<lambda>q.
     bindE (if cc_eval_mode cfg
            then bindE (cp_build_eval_agg cfg) (\<lambda>agg.
                 bindE (cp_build_eval_idtc cfg) (\<lambda>idtc. Inr (Some agg, Some idtc)))
            else Inr (None, None)) (\<lambda>(eval_agg, eval_idtc).
     bindE (if cc_analysis_mode cfg
            then bindE (cp_build_analysis_agg cfg) (\<lambda>agg.
                 bindE (cp_build_analysis_idtc cfg) (\<lambda>idtc. Inr (Some agg, Some idtc)))
            else Inr (None, None)) (\<lambda>(analysis_agg, analysis_idtc).
     Inr \<lparr> cp_horizon = cc_horizon cfg,
           cp_n_hh = cc_n_hh cfg,
           cp_n_capital = cc_n_capital cfg,
           cp_eval_mode = cc_eval_mode cfg,
           cp_analysis_mode = cc_analysis_mode cfg,
           cp_max_savings = cc_max_savings cfg,
           cp_bgt_penalty = cc_bgt_penalty cfg,
           cp_shock_idtc_values = cc_shock_idtc_values cfg,
           cp_shock_idtc_transition = cc_shock_idtc_transition cfg,
           cp_shock_agg_values = cc_shock_agg_values cfg,
           cp_shock_agg_transition = cc_shock_agg_transition cfg,
           cp_delta = cc_delta cfg,
           cp_alpha = cc_alpha cfg,
           cp_phi = cc_phi cfg,
           cp_beta = cc_beta cfg,
           cp_k_ss = k_ss,
           cp_max_s_ij = q * 1.5,
           cp_shocks_eval_agg = eval_agg,
           cp_shocks_eval_idtc = eval_idtc,
           cp_shocks_analysis_agg = analysis_agg,
           cp_shocks_analysis_idtc = analysis_idtc,
           cp_timestep = None,
           cp_obs = None \<rparr>))))"

subsection \<open>Reading attributes and dictionaries\<close>

definition py_getattr :: "string \<Rightarrow> 'a option \<Rightarrow> py_error + 'a" where
  "py_getattr name v = (case v of None \<Rightarrow> Inl (AttributeError name) | Some x \<Rightarrow> Inr x)"

definition py_getitem :: "('k \<rightharpoonup> 'v) \<Rightarrow> 'k \<Rightarrow> py_error + 'v" where
  "py_getitem d k = (case d k of None \<Rightarrow> Inl KeyError | Some v \<Rightarrow> Inr v)"

subsection \<open>reset\<close>

text \<open>
  The draws of one \<^verbatim>\<open>reset\<close> in the default (random) mode: \<open>rd_k i\<close> is the
  \<open>i\<close>-th \<^verbatim>\<open>random.uniform(k_ss * 0.5, k_ss * 1.25)\<close>, \<open>rd_shocks_idtc i\<close> the
  \<open>i\<close>-th \<^verbatim>\<open>random.choices(...)[0]\<close>, \<open>rd_shock_agg\<close> the last one.
  \<^verbatim>\<open>random.choices\<close> raises IndexError on an empty population.
\<close>

record cp_reset_draws =
  rd_k :: "nat \<Rightarrow> real"
  rd_shocks_idtc :: "nat \<Rightarrow> nat"
  rd_shock_agg :: nat

definition cp_k_init_fixed :: "Capital_planner_ma \<Rightarrow> real list" where
  "cp_k_init_fixed env =
     map (\<lambda>i. if i mod 2 = 0 then cp_k_ss env * 0.9 else cp_k_ss env * 0.8)
       [0..<cp_n_hh env * cp_n_capital env]"

definition cp_reset_init ::
  "Capital_planner_ma \<Rightarrow> cp_reset_draws \<Rightarrow> py_error + real list \<times> nat list \<times> nat" where
  "cp_reset_init env rnd =
     (if cp_eval_mode env then
        bindE (py_getattr ''shocks_eval_idtc'' (cp_shocks_eval_idtc env)) (\<lambda>idtc.
        bindE (py_getitem idtc 0) (\<lambda>shocks_idtc_init.
        bindE (py_getattr ''shocks_eval_agg'' (cp_shocks_eval_agg env)) (\<lambda>agg.
        bindE (py_getitem agg 0) (\<lambda>shock_agg_init.
        Inr (cp_k_init_fixed env, shocks_idtc_init, shock_agg_init)))))
      else if cp_analysis_mode env then
        bindE (py_getattr ''shocks_analysis_idtc'' (cp_shocks_analysis_idtc env)) (\<lambda>idtc.
        bindE (py_getitem idtc 0) (\<lambda>shocks_idtc_init.
        bindE (py_getattr ''shocks_analysis_agg'' (cp_shocks_analysis_agg env)) (\<lambda>agg.
        bindE (py_getitem agg 0) (\<lambda>shock_agg_init.
        Inr (cp_k_init_fixed env, shocks_idtc_init, shock_agg_init)))))
      else
        bindE (py_list_comp
                 (\<lambda>i. if cp_shock_idtc_values env = [] then Inl IndexError
                       else Inr (rd_shocks_idtc rnd i))
                 (cp_n_hh env)) (\<lambda>shocks_idtc_init.
        bindE (if cp_shock_idtc_values env = [] then Inl IndexError
               else Inr (rd_shock_agg rnd)) (\<lambda>shock_agg_init.
        Inr (map (rd_k rnd) [0..<cp_n_hh env * cp_n_capital env],
             shocks_idtc_init, shock_agg_init))))"

text \<open>
  \<^verbatim>\<open>[list(k[i * n_capital : i * n_capital + n_capital]) for i in range(n_hh)]\<close>:
  a slice never raises.
\<close>

definition cp_k_ij :: "Capital_planner_ma \<Rightarrow> real list \<Rightarrow> real list list" where
  "cp_k_ij env k =
     map (\<lambda>i. take (cp_n_capital env) (drop (i * cp_n_capital env) k)) [0..<cp_n_hh env]"

text \<open>
  The observation dictionary from the stocks per household, the shock indices and the
  aggregate index: each household's own stocks and own shock come first.
\<close>

definition cp_obs_perfirm ::
  "Capital_planner_ma \<Rightarrow> real list list \<Rightarrow> nat list \<Rightarrow> nat \<Rightarrow> py_error + (nat \<times> cp_observation) list" where
  "cp_obs_perfirm env k_ij shocks_idtc shock_agg =
     bindE (py_list_comp
              (\<lambda>i. bindE (own_first k_ij i) (\<lambda>k_ij_perfirm.
                    bindE (own_first shocks_idtc i) (\<lambda>shocks_idtc_perfirm.
                    Inr (concat k_ij_perfirm, shocks_idtc_perfirm, shock_agg))))
              (cp_n_hh env)) (\<lambda>rows.
     Inr (agent_dict (cp_n_hh env) (\<lambda>i. rows ! i)))"

definition Capital_planner_ma_reset ::
  "Capital_planner_ma \<Rightarrow> cp_reset_draws \<Rightarrow>
     py_error + Capital_planner_ma \<times> (nat \<times> cp_observation) list" where
  "Capital_planner_ma_reset env rnd =
     bindE (cp_reset_init env rnd) (\<lambda>(k_init, shocks_idtc_init, shock_agg_init).
     bindE (cp_obs_perfirm env (cp_k_ij env k_init) shocks_idtc_init shock_agg_init) (\<lambda>obs.
     Inr (env\<lparr>cp_timestep := Some 0, cp_obs := Some obs\<rparr>, obs)))"

subsection \<open>step: the local variables\<close>

text \<open>
  \<^verbatim>\<open>s_ij\<close> as first computed, by unsquashing: \<^verbatim>\<open>action_dict[f"hh_{i}"][j]\<close> raises
  KeyError for a missing household and IndexError for a missing component.
\<close>

definition cp_unsquash :: "Capital_planner_ma \<Rightarrow> (nat \<rightharpoonup> real list) \<Rightarrow> py_error + real list list" where
  "cp_unsquash env action_dict =
     py_list_comp
       (\<lambda>i. py_list_comp
               (\<lambda>j. bindE (py_getitem action_dict i) (\<lambda>a.
                     bindE (py_index a j) (\<lambda>x.
                     Inr ((x + 1) / 2 * cp_max_s_ij env))))
               (cp_n_capital env))
       (cp_n_hh env)"

text \<open>
  The loop that corrects a violated budget constraint, one household after the other,
  updating \<^verbatim>\<open>s_ij[i]\<close> and \<^verbatim>\<open>bgt_penalty_ind[i]\<close> in place. \<^verbatim>\<open>np.sum\<close> is
  \<open>sum_list\<close>; the division is numpy's and raises nothing.
\<close>

definition cp_correct_bgt_i ::
  "Capital_planner_ma \<Rightarrow> nat \<Rightarrow> real list list \<times> nat list \<Rightarrow> real list list \<times> nat list" where
  "cp_correct_bgt_i env i sp =
     (case sp of (s_ij, bgt_penalty_ind) \<Rightarrow>
        if sum_list (s_ij ! i) > 1
        then (s_ij[i := map (\<lambda>j. s_ij ! i ! j / sum_list (s_ij ! i)) [0..<cp_n_capital env]],
              bgt_penalty_ind[i := 1])
        else (s_ij, bgt_penalty_ind))"

definition cp_correct_bgt :: "Capital_planner_ma \<Rightarrow> real list list \<Rightarrow> real list list \<times> nat list" where
  "cp_correct_bgt env s_ij =
     fold (cp_correct_bgt_i env) [0..<cp_n_hh env] (s_ij, map (\<lambda>i. 0) [0..<cp_n_hh env])"

text \<open>
  \<^verbatim>\<open>k_bundle_i[i]\<close>: starts at 1 and is multiplied by
  \<^verbatim>\<open>k_ij[i][j] ** (1 / n_capital)\<close> for every capital good.
\<close>

definition cp_k_bundle_i :: "Capital_planner_ma \<Rightarrow> real list list \<Rightarrow> real list" where
  "cp_k_bundle_i env k_ij =
     map (\<lambda>i. fold (\<lambda>j b. b * py_pow (k_ij ! i ! j) (1 / real (cp_n_capital env)))
                 [0..<cp_n_capital env] 1)
       [0..<cp_n_hh env]"

definition cp_y_i :: "Capital_planner_ma \<Rightarrow> real list \<Rightarrow> real \<Rightarrow> real list \<Rightarrow> real list" where
  "cp_y_i env shocks_idtc shock_agg k_bundle_i =
     map (\<lambda>i. shocks_idtc ! i * shock_agg * py_pow (k_bundle_i ! i) (cp_alpha env)) [0..<cp_n_hh env]"

definition cp_c_i :: "Capital_planner_ma \<Rightarrow> real list \<Rightarrow> real list list \<Rightarrow> real list" where
  "cp_c_i env y_i s_ij = map (\<lambda>i. y_i ! i * (1 - sum_list (s_ij ! i))) [0..<cp_n_hh env]"

definition cp_utility_i :: "Capital_planner_ma \<Rightarrow> real list \<Rightarrow> real list" where
  "cp_utility_i env c_i =
     map (\<lambda>i. if c_i ! i > 0 then ln (c_i ! i) else - cp_bgt_penalty env) [0..<cp_n_hh env]"

definition cp_inv_exp_ij :: "Capital_planner_ma \<Rightarrow> real list list \<Rightarrow> real list \<Rightarrow> real list list" where
  "cp_inv_exp_ij env s_ij y_i =
     map (\<lambda>i. map (\<lambda>j. s_ij ! i ! j * y_i ! i) [0..<cp_n_capital env]) [0..<cp_n_hh env]"

definition cp_inv_exp_j :: "Capital_planner_ma \<Rightarrow> real list list \<Rightarrow> real list" where
  "cp_inv_exp_j env inv_exp_ij =
     map (\<lambda>j. sum_list (map (\<lambda>i. inv_exp_ij ! i ! j) [0..<cp_n_hh env])) [0..<cp_n_capital env]"

text \<open>\<^verbatim>\<open>np.sqrt((2 / phi) * inv_exp_j[j])\<close>: \<^verbatim>\<open>2 / phi\<close> divides Python numbers.\<close>

definition cp_inv_j :: "Capital_planner_ma \<Rightarrow> real list \<Rightarrow> py_error + real list" where
  "cp_inv_j env inv_exp_j =
     py_list_comp
       (\<lambda>j. bindE (py_div 2 (cp_phi env)) (\<lambda>q. Inr (sqrt (q * inv_exp_j ! j))))
       (cp_n_capital env)"

definition cp_inv_ij ::
  "Capital_planner_ma \<Rightarrow> real list list \<Rightarrow> real list \<Rightarrow> real list \<Rightarrow> real list list" where
  "cp_inv_ij env inv_exp_ij inv_exp_j inv_j =
     map (\<lambda>i. map (\<lambda>j. (inv_exp_ij ! i ! j / max (inv_exp_j ! j) 0.0001) * inv_j ! j)
                 [0..<cp_n_capital env])
       [0..<cp_n_hh env]"

definition cp_k_ij_new :: "Capital_planner_ma \<Rightarrow> real list list \<Rightarrow> real list list \<Rightarrow> real list list" where
  "cp_k_ij_new env k_ij inv_ij =
     map (\<lambda>i. map (\<lambda>j. k_ij ! i ! j * (1 - cp_delta env) + inv_ij ! i ! j) [0..<cp_n_capital env])
       [0..<cp_n_hh env]"

record cp_step_vars =
  l_k :: "real list"
  l_shocks_idtc_id :: "nat list"
  l_shock_agg_id :: nat
  l_shocks_idtc :: "real list"
  l_shock_agg :: real
  l_s_ij :: "real list list"
  l_bgt_penalty_ind :: "nat list"
  l_k_ij :: "real list list"
  l_y_i :: "real list"
  l_c_i :: "real list"
  l_utility_i :: "real list"
  l_inv_exp_ij :: "real list list"
  l_inv_exp_j :: "real list"
  l_inv_j :: "real list"
  l_inv_ij :: "real list list"
  l_k_ij_new :: "real list list"

text \<open>
  The state read at the start of \<^verbatim>\<open>step\<close> and the quantities computed from it and
  from the actions, in the order of the method. \<^verbatim>\<open>k_ij[i][j]\<close> is out of range for
  some \<open>i, j\<close> exactly when \<^verbatim>\<open>k\<close> has fewer than \<open>n_hh * n_capital\<close> entries.
\<close>

definition Capital_planner_ma_step_vars ::
  "Capital_planner_ma \<Rightarrow> (nat \<rightharpoonup> real list) \<Rightarrow> py_error + cp_step_vars" where
  "Capital_planner_ma_step_vars env action_dict =
     bindE (py_getattr ''obs_'' (cp_obs env)) (\<lambda>obs.
     bindE (py_getitem (map_of obs) 0) (\<lambda>(k, shocks_idtc_id, shock_agg_id).
     bindE (py_list_comp
              (\<lambda>i. bindE (py_index shocks_idtc_id i) (\<lambda>z. py_index (cp_shock_idtc_values env) z))
              (cp_n_hh env)) (\<lambda>shocks_idtc.
     bindE (py_index (cp_shock_agg_values env) shock_agg_id) (\<lambda>shock_agg.
     bindE (cp_unsquash env action_dict) (\<lambda>s_ij0.
     let s_ij = fst (cp_correct_bgt env s_ij0);
         bgt_penalty_ind = snd (cp_correct_bgt env s_ij0);
         k_ij = cp_k_ij env k
     in
     if length k < cp_n_hh env * cp_n_capital env then Inl IndexError
     else
       let k_bundle_i = cp_k_bundle_i env k_ij;
           y_i = cp_y_i env shocks_idtc shock_agg k_bundle_i;
           c_i = cp_c_i env y_i s_ij;
           utility_i = cp_utility_i env c_i;
           inv_exp_ij = cp_inv_exp_ij env s_ij y_i;
           inv_exp_j = cp_inv_exp_j env inv_exp_ij
       in bindE (cp_inv_j env inv_exp_j) (\<lambda>inv_j.
          let inv_ij = cp_inv_ij env inv_exp_ij inv_exp_j inv_j;
              k_ij_new = cp_k_ij_new env k_ij inv_ij
          in Inr \<lparr> l_k = k, l_shocks_idtc_id = shocks_idtc_id, l_shock_agg_id = shock_agg_id,
                   l_shocks_idtc = shocks_idtc, l_shock_agg = shock_agg,
                   l_s_ij = s_ij, l_bgt_penalty_ind = bgt_penalty_ind, l_k_ij = k_ij,
                   l_y_i = y_i, l_c_i = c_i, l_utility_i = utility_i,
                   l_inv_exp_ij = inv_exp_ij, l_inv_exp_j = inv_exp_j, l_inv_j = inv_j,
                   l_inv_ij = inv_ij, l_k_ij_new = k_ij_new \<rparr>))))))"

subsection \<open>step: the next shocks\<close>

text \<open>
  The draws of one \<^verbatim>\<open>step\<close> in the default mode: the outcomes of the
  \<^verbatim>\<open>random.choices\<close> calls, whose weights are the row of the transition matrix at the
  current shock index (IndexError when the matrix has no such row).
\<close>

record cp_step_draws =
  sd_shocks_idtc :: "nat \<Rightarrow> nat"
  sd_shock_agg :: nat

definition cp_update_shock ::
  "Capital_planner_ma \<Rightarrow> nat \<Rightarrow> cp_step_draws \<Rightarrow> nat list \<Rightarrow> nat \<Rightarrow> py_error + nat list \<times> nat" where
  "cp_update_shock env timestep rnd shocks_idtc_id shock_agg_id =
     (if cp_eval_mode env then
        bindE (py_getattr ''shocks_eval_idtc'' (cp_shocks_eval_idtc env)) (\<lambda>idtc.
        bindE (py_getitem idtc timestep) (\<lambda>shocks_idtc_id_new.
        bindE (py_getattr ''shocks_eval_agg'' (cp_shocks_eval_agg env)) (\<lambda>agg.
        bindE (py_getitem agg timestep) (\<lambda>shock_agg_id_new.
        Inr (shocks_idtc_id_new, shock_agg_id_new)))))
      else if cp_analysis_mode env then
        bindE (py_getattr ''shocks_analysis_idtc'' (cp_shocks_analysis_idtc env)) (\<lambda>idtc.
        bindE (py_getitem idtc timestep) (\<lambda>shocks_idtc_id_new.
        bindE (py_getattr ''shocks_analysis_agg'' (cp_shocks_analysis_agg env)) (\<lambda>agg.
        bindE (py_getitem agg timestep) (\<lambda>shock_agg_id_new.
        Inr (shocks_idtc_id_new, shock_agg_id_new)))))
      else
        bindE (py_list_comp
                 (\<lambda>i. bindE (py_index shocks_idtc_id i) (\<lambda>z.
                       bindE (py_index (cp_shock_idtc_transition env) z) (\<lambda>weights.
                       Inr (sd_shocks_idtc rnd i))))
                 (cp_n_hh env)) (\<lambda>shocks_idtc_id_new.
        bindE (py_index (cp_shock_agg_transition env) shock_agg_id) (\<lambda>weights.
        Inr (shocks_idtc_id_new, sd_shock_agg rnd))))"

subsection \<open>step: reward, done flag, info, and the method itself\<close>

text \<open>\<^verbatim>\<open>np.mean\<close> of a list.\<close>

definition np_mean :: "real list \<Rightarrow> real" where
  "np_mean xs = sum_list xs / real (length xs)"

record cp_info_global =
  ig_savings :: "real list list"
  ig_reward :: real
  ig_income :: "real list"
  ig_consumption :: "real list"
  ig_bgt_penalty :: "nat list"
  ig_capital :: "real list list"
  ig_capital_new :: "real list list"

record cp_info_ind =
  ii_savings :: "real list"
  ii_reward :: real
  ii_income :: real
  ii_consumption :: real
  ii_bgt_penalty :: nat
  ii_capital :: "real list"
  ii_capital_new :: "real list"

datatype cp_info = Info_global cp_info_global | Info_ind cp_info_ind

text \<open>
  \<^verbatim>\<open>{**info_global, **info_ind}\<close>: the entry of \<^verbatim>\<open>hh_0\<close> holds the lists over all
  households, the entries of \<^verbatim>\<open>hh_1, ...\<close> the household's own values.
\<close>

definition cp_step_info :: "Capital_planner_ma \<Rightarrow> cp_step_vars \<Rightarrow> (nat \<times> cp_info) list" where
  "cp_step_info env L =
     (if \<not> cp_analysis_mode env then []
      else
        (0, Info_global
              \<lparr> ig_savings = l_s_ij L, ig_reward = np_mean (l_utility_i L),
                ig_income = l_y_i L, ig_consumption = l_c_i L,
                ig_bgt_penalty = l_bgt_penalty_ind L,
                ig_capital = l_k_ij L, ig_capital_new = l_k_ij_new L \<rparr>)
        # map (\<lambda>i. (i, Info_ind
                         \<lparr> ii_savings = l_s_ij L ! i, ii_reward = np_mean (l_utility_i L),
                           ii_income = l_y_i L ! i, ii_consumption = l_c_i L ! i,
                           ii_bgt_penalty = l_bgt_penalty_ind L ! i,
                           ii_capital = l_k_ij L ! i, ii_capital_new = l_k_ij_new L ! i \<rparr>))
            [1..<cp_n_hh env])"

record Capital_planner_ma_result =
  cpr_env :: Capital_planner_ma
  cpr_obs :: "(nat \<times> cp_observation) list"
  cpr_rew :: "(nat \<times> real) list"
  cpr_done :: bool
  cpr_info :: "(nat \<times> cp_info) list"

text \<open>
  \<^verbatim>\<open>step\<close>. \<^verbatim>\<open>self.timestep += 1\<close> raises TypeError while the timestep is
  \<^verbatim>\<open>None\<close>. \<open>cpr_done\<close> is the value under \<^verbatim>\<open>"__all__"\<close>.
\<close>

definition Capital_planner_ma_step ::
  "Capital_planner_ma \<Rightarrow> cp_step_draws \<Rightarrow> (nat \<rightharpoonup> real list) \<Rightarrow>
     py_error + Capital_planner_ma_result" where
  "Capital_planner_ma_step env rnd action_dict =
     (case cp_timestep env of
        None \<Rightarrow> Inl TypeError
      | Some t \<Rightarrow>
        let timestep = t + 1 in
        bindE (Capital_planner_ma_step_vars env action_dict) (\<lambda>L.
        bindE (cp_update_shock env timestep rnd (l_shocks_idtc_id L) (l_shock_agg_id L))
          (\<lambda>(shocks_idtc_id_new, shock_agg_id_new).
        bindE (cp_obs_perfirm env (l_k_ij_new L) shocks_idtc_id_new shock_agg_id_new) (\<lambda>obs.
        Inr \<lparr> cpr_env = env\<lparr>cp_timestep := Some timestep, cp_obs := Some obs\<rparr>,
              cpr_obs = obs,
              cpr_rew = agent_dict (cp_n_hh env) (\<lambda>i. np_mean (l_utility_i L)),
              cpr_done = (\<not> timestep < cp_horizon env),
              cpr_info = cp_step_info env L \<rparr>))))"

section \<open>Townsend (economies/townsend/townsend_nested.py)\<close>

text \<open>
  \<^verbatim>\<open>env_config\<close> with every default applied; the entries of \<^verbatim>\<open>parameters\<close> are
  fields of their own.
\<close>

record Townsend_config =
  tc_horizon :: nat
  tc_n_industries :: nat
  tc_rental_shock :: bool
  tc_eval_mode :: bool
  tc_analysis_mode :: bool
  tc_seed_eval :: nat
  tc_seed_analysis :: nat
  tc_simul_mode :: bool
  tc_max_savings :: real
  tc_k_ss :: real
  tc_max_price :: real
  tc_max_cap :: real
  tc_rew_mean :: real
  tc_rew_std :: real
  tc_normalize :: bool
  tc_delta :: real
  tc_alpha :: real
  tc_beta :: real
  tc_phi :: real
  tc_A :: real
  tc_tfp :: real
  tc_rho :: real
  tc_theta_0 :: real
  tc_var_w :: real
  tc_var_epsilon :: real
  tc_var_theta :: real

definition Townsend_default_config :: Townsend_config where
  "Townsend_default_config =
     \<lparr> tc_horizon = 200, tc_n_industries = 1, tc_rental_shock = False,
       tc_eval_mode = False, tc_analysis_mode = False,
       tc_seed_eval = 10, tc_seed_analysis = 20, tc_simul_mode = False,
       tc_max_savings = 0.6, tc_k_ss = 1, tc_max_price = 60, tc_max_cap = 100,
       tc_rew_mean = 0, tc_rew_std = 1, tc_normalize = False,
       tc_delta = 0, tc_alpha = 1, tc_beta = 0.99, tc_phi = 1, tc_A = 1, tc_tfp = 1,
       tc_rho = 0.8, tc_theta_0 = 0, tc_var_w = 1, tc_var_epsilon = 1, tc_var_theta = 1 \<rparr>"

text \<open>
  \<^verbatim>\<open>self.obs_global\<close>: the stocks, the prices, \<open>theta\<close>, the aggregate shock, the
  idiosyncratic shocks and the rental shocks (\<^verbatim>\<open>reset\<close> stores \<^verbatim>\<open>0\<close> in the last
  place, written \<open>[]\<close> here; nothing reads it).
\<close>

record Townsend_obs_global =
  g_k :: "real list"
  g_prices :: "real list"
  g_theta :: real
  g_shock_agg :: real
  g_shock_idtc :: "real list"
  g_shock_rent :: "real list"

text \<open>
  The attributes of a \<^verbatim>\<open>Townsend\<close> object. \<open>ts_n_firms\<close> is the attribute
  \<^verbatim>\<open>self.n_firms\<close> that \<^verbatim>\<open>reset\<close> reads: no method of the class assigns it, so it
  is set only if a caller assigns it on the object. \<open>ts_max_cap_norm\<close> and
  \<open>ts_max_price_norm\<close> are assigned only by the normalisation in the constructor.
\<close>

record Townsend =
  ts_horizon :: nat
  ts_n_industries :: nat
  ts_rental_shock :: bool
  ts_eval_mode :: bool
  ts_analysis_mode :: bool
  ts_seed_eval :: nat
  ts_seed_analysis :: nat
  ts_simul_mode :: bool
  ts_max_savings :: real
  ts_k_ss :: real
  ts_max_price :: real
  ts_max_cap :: real
  ts_rew_mean :: real
  ts_rew_std :: real
  ts_normalize :: bool
  ts_delta :: real
  ts_alpha :: real
  ts_beta :: real
  ts_phi :: real
  ts_A :: real
  ts_tfp :: real
  ts_rho :: real
  ts_theta_0 :: real
  ts_var_w :: real
  ts_var_epsilon :: real
  ts_var_theta :: real
  ts_shocks_agg_seeded :: "nat \<rightharpoonup> real"
  ts_shocks_idtc_seeded :: "nat \<rightharpoonup> real list"
  ts_timestep :: "nat option"
  ts_norm_ind :: bool
  ts_max_cap_norm :: "real option"
  ts_max_price_norm :: "real option"
  ts_n_firms :: "nat option"
  ts_obs :: "(nat \<times> real list) list option"
  ts_obs_global :: "Townsend_obs_global option"

subsection \<open>reset\<close>

text \<open>
  The draws of one \<^verbatim>\<open>reset\<close> in the default mode: the \<^verbatim>\<open>random.uniform\<close>
  outcomes for the stocks and the \<^verbatim>\<open>np.random.normal\<close> outcomes for the shocks.
\<close>

record ts_reset_draws =
  trd_k :: "nat \<Rightarrow> real"
  trd_shock_idtc :: "nat \<Rightarrow> real"
  trd_shock_agg :: real

definition ts_k_init_fixed :: "Townsend \<Rightarrow> nat \<Rightarrow> real list" where
  "ts_k_init_fixed env n_firms =
     map (\<lambda>i. if i mod 2 = 0 then ts_k_ss env * 0.9 else ts_k_ss env * 0.8)
       [0..<ts_n_industries env * n_firms]"

text \<open>
  The three branches of \<^verbatim>\<open>reset\<close>. Each starts by evaluating
  \<^verbatim>\<open>range(self.n_industries * self.n_firms)\<close>.
\<close>

definition ts_reset_init :: "Townsend \<Rightarrow> ts_reset_draws \<Rightarrow> py_error + real list \<times> real list \<times> real" where
  "ts_reset_init env rnd =
     (if ts_eval_mode env then
        bindE (py_getattr ''n_firms'' (ts_n_firms env)) (\<lambda>n_firms.
        bindE (py_getitem (ts_shocks_idtc_seeded env) 0) (\<lambda>shock_idtc_init.
        bindE (py_getitem (ts_shocks_agg_seeded env) 0) (\<lambda>shock_agg_init.
        Inr (ts_k_init_fixed env n_firms, shock_idtc_init, shock_agg_init))))
      else if ts_analysis_mode env then
        bindE (py_getattr ''n_firms'' (ts_n_firms env)) (\<lambda>n_firms.
        bindE (py_getitem (ts_shocks_idtc_seeded env) 0) (\<lambda>shock_idtc_init.
        bindE (py_getitem (ts_shocks_agg_seeded env) 0) (\<lambda>shock_agg_init.
        Inr (ts_k_init_fixed env n_firms, shock_idtc_init, shock_agg_init))))
      else
        bindE (py_getattr ''n_firms'' (ts_n_firms env)) (\<lambda>n_firms.
        Inr (map (trd_k rnd) [0..<ts_n_industries env * n_firms],
             map (trd_shock_idtc rnd) [0..<ts_n_industries env],
             trd_shock_agg rnd)))"

definition ts_u :: "Townsend \<Rightarrow> real \<Rightarrow> real list \<Rightarrow> py_error + real list" where
  "ts_u env theta shock_idtc =
     py_list_comp (\<lambda>i. bindE (py_index shock_idtc i) (\<lambda>e. Inr (theta + e))) (ts_n_industries env)"

text \<open>\<^verbatim>\<open>[tfp * k[i] ** alpha for i in range(n_industries)]\<close>.\<close>

definition ts_y :: "Townsend \<Rightarrow> real list \<Rightarrow> py_error + real list" where
  "ts_y env k =
     py_list_comp
       (\<lambda>i. bindE (py_index k i) (\<lambda>ki.
             bindE (py_float_pow ki (ts_alpha env)) (\<lambda>p. Inr (ts_tfp env * p))))
       (ts_n_industries env)"

definition ts_p_init :: "Townsend \<Rightarrow> real list \<Rightarrow> real list \<Rightarrow> py_error + real list" where
  "ts_p_init env y_init u_init =
     (if ts_norm_ind env then
        py_list_comp
          (\<lambda>i. bindE (py_getattr ''max_price_norm'' (ts_max_price_norm env)) (\<lambda>mp.
                Inr (max (mp - ts_A env * y_init ! i + u_init ! i) 0)))
          (ts_n_industries env)
      else
        Inr (map (\<lambda>i. ts_max_price env - ts_A env * y_init ! i + u_init ! i)
               [0..<ts_n_industries env]))"

text \<open>
  The observation dictionary: the firm's stock, its own price, the other prices in
  index order.
\<close>

definition ts_obs_perindustry :: "Townsend \<Rightarrow> real list \<Rightarrow> real list \<Rightarrow> py_error + (nat \<times> real list) list" where
  "ts_obs_perindustry env k prices =
     bindE (py_list_comp (\<lambda>i. own_first prices i) (ts_n_industries env)) (\<lambda>price_perindustry.
     bindE (py_list_comp
              (\<lambda>i. bindE (py_index k i) (\<lambda>ki. Inr (ki # price_perindustry ! i)))
              (ts_n_industries env)) (\<lambda>rows.
     Inr (agent_dict (ts_n_industries env) (\<lambda>i. rows ! i))))"

definition Townsend_reset ::
  "Townsend \<Rightarrow> ts_reset_draws \<Rightarrow> py_error + Townsend \<times> (nat \<times> real list) list" where
  "Townsend_reset env rnd =
     bindE (ts_reset_init env rnd) (\<lambda>(k_init, shock_idtc_init, shock_agg_init).
     let theta_init = ts_theta_0 env in
     bindE (ts_u env theta_init shock_idtc_init) (\<lambda>u_init.
     bindE (ts_y env k_init) (\<lambda>y_init.
     bindE (ts_p_init env y_init u_init) (\<lambda>p_init.
     bindE (ts_obs_perindustry env k_init p_init) (\<lambda>obs.
     Inr (env\<lparr> ts_timestep := Some 0,
               ts_obs := Some obs,
               ts_obs_global := Some \<lparr> g_k = k_init, g_prices = p_init, g_theta = theta_init,
                                       g_shock_agg = shock_agg_init,
                                       g_shock_idtc = shock_idtc_init, g_shock_rent = [] \<rparr> \<rparr>,
          obs))))))"

subsection \<open>The constructor\<close>

text \<open>
  \<^verbatim>\<open>np.random.default_rng(seed)\<close> is a parameter: \<open>gen seed n scale\<close> is the
  \<open>n\<close>-th value \<^verbatim>\<open>rng.normal(0, scale)\<close> returns after seeding with \<open>seed\<close>. The
  constructor draws the \<open>horizon + 1\<close> aggregate shocks first, then the
  idiosyncratic ones, timestep by timestep.
\<close>

type_synonym rng_normal = "nat \<Rightarrow> nat \<Rightarrow> real \<Rightarrow> real"

definition ts_seed :: "Townsend_config \<Rightarrow> nat" where
  "ts_seed cfg = (if tc_eval_mode cfg then tc_seed_eval cfg else tc_seed_analysis cfg)"

definition ts_build_agg_seeded :: "rng_normal \<Rightarrow> Townsend_config \<Rightarrow> (nat \<rightharpoonup> real)" where
  "ts_build_agg_seeded gen cfg =
     map_of (map (\<lambda>t. (t, gen (ts_seed cfg) t (tc_var_theta cfg))) [0..<tc_horizon cfg + 1])"

definition ts_build_idtc_seeded :: "rng_normal \<Rightarrow> Townsend_config \<Rightarrow> (nat \<rightharpoonup> real list)" where
  "ts_build_idtc_seeded gen cfg =
     map_of (map (\<lambda>t. (t, map (\<lambda>i. gen (ts_seed cfg)
                                       (tc_horizon cfg + 1 + t * tc_n_industries cfg + i)
                                       (tc_var_epsilon cfg))
                              [0..<tc_n_industries cfg]))
               [0..<tc_horizon cfg + 1])"

definition Townsend_init_attrs :: "rng_normal \<Rightarrow> Townsend_config \<Rightarrow> Townsend" where
  "Townsend_init_attrs gen cfg =
     \<lparr> ts_horizon = tc_horizon cfg,
       ts_n_industries = tc_n_industries cfg,
       ts_rental_shock = tc_rental_shock cfg,
       ts_eval_mode = tc_eval_mode cfg,
       ts_analysis_mode = tc_analysis_mode cfg,
       ts_seed_eval = tc_seed_eval cfg,
       ts_seed_analysis = tc_seed_analysis cfg,
       ts_simul_mode = tc_simul_mode cfg,
       ts_max_savings = tc_max_savings cfg,
       ts_k_ss = tc_k_ss cfg,
       ts_max_price = tc_max_price cfg,
       ts_max_cap = tc_max_cap cfg,
       ts_rew_mean = tc_rew_mean cfg,
       ts_rew_std = tc_rew_std cfg,
       ts_normalize = tc_normalize cfg,
       ts_delta = tc_delta cfg,
       ts_alpha = tc_alpha cfg,
       ts_beta = tc_beta cfg,
       ts_phi = tc_phi cfg,
       ts_A = tc_A cfg,
       ts_tfp = tc_tfp cfg,
       ts_rho = tc_rho cfg,
       ts_theta_0 = tc_theta_0 cfg,
       ts_var_w = tc_var_w cfg,
       ts_var_epsilon = tc_var_epsilon cfg,
       ts_var_theta = tc_var_theta cfg,
       ts_shocks_agg_seeded = ts_build_agg_seeded gen cfg,
       ts_shocks_idtc_seeded = ts_build_idtc_seeded gen cfg,
       ts_timestep = None,
       ts_norm_ind = False,
       ts_max_cap_norm = None,
       ts_max_price_norm = None,
       ts_n_firms = None,
       ts_obs = None,
       ts_obs_global = None \<rparr>"

text \<open>
  With \<^verbatim>\<open>normalize\<close> the constructor calls \<^verbatim>\<open>random_sample(10000)\<close>, which sets
  \<^verbatim>\<open>simul_mode\<close> and, in its first iteration, calls \<^verbatim>\<open>reset\<close>. The rest of
  \<^verbatim>\<open>random_sample\<close> (the sampled steps and their statistics) is not embedded:
  \<open>Unmodelled\<close> stands for it.
\<close>

definition Townsend_random_sample :: "Townsend \<Rightarrow> ts_reset_draws \<Rightarrow> py_error + Townsend" where
  "Townsend_random_sample env rnd =
     bindE (Townsend_reset (env\<lparr>ts_simul_mode := True\<rparr>) rnd) (\<lambda>r. Inl Unmodelled)"

definition Townsend_init :: "rng_normal \<Rightarrow> ts_reset_draws \<Rightarrow> Townsend_config \<Rightarrow> py_error + Townsend" where
  "Townsend_init gen rnd cfg =
     (if tc_normalize cfg then Townsend_random_sample (Townsend_init_attrs gen cfg) rnd
      else Inr (Townsend_init_attrs gen cfg))"

subsection \<open>step\<close>

text \<open>
  The draws of one \<^verbatim>\<open>step\<close>: the \<^verbatim>\<open>np.random.normal\<close> outcomes for the demand
  shocks (default mode) and for the rental shocks (when \<^verbatim>\<open>rental_shock\<close> is set, in
  every mode).
\<close>

record ts_step_draws =
  tsd_shock_idtc :: "nat \<Rightarrow> real"
  tsd_shock_agg :: real
  tsd_shock_rent :: "nat \<Rightarrow> real"

definition ts_step_shocks :: "Townsend \<Rightarrow> nat \<Rightarrow> ts_step_draws \<Rightarrow> py_error + real list \<times> real" where
  "ts_step_shocks env timestep rnd =
     (if ts_eval_mode env \<or> ts_analysis_mode env then
        bindE (py_getitem (ts_shocks_idtc_seeded env) timestep) (\<lambda>shock_idtc.
        bindE (py_getitem (ts_shocks_agg_seeded env) timestep) (\<lambda>shock_agg.
        Inr (shock_idtc, shock_agg)))
      else
        Inr (map (tsd_shock_idtc rnd) [0..<ts_n_industries env], tsd_shock_agg rnd))"

definition ts_shock_rent :: "Townsend \<Rightarrow> ts_step_draws \<Rightarrow> real list" where
  "ts_shock_rent env rnd =
     (if ts_rental_shock env then map (tsd_shock_rent rnd) [0..<ts_n_industries env]
      else map (\<lambda>i. 0) [0..<ts_n_industries env])"

definition ts_s :: "Townsend \<Rightarrow> (nat \<rightharpoonup> real list) \<Rightarrow> py_error + real list" where
  "ts_s env action_dict =
     py_list_comp
       (\<lambda>i. bindE (py_getitem action_dict i) (\<lambda>a.
             bindE (py_index a 0) (\<lambda>x.
             Inr ((x + 1) / 2 * ts_max_savings env))))
       (ts_n_industries env)"

text \<open>
  The prices and the next stocks, in the normalised branch (\<^verbatim>\<open>norm_ind\<close>) and in the
  plain one: the next stock is the depreciated stock plus \<^verbatim>\<open>s[i] * y[i]\<close>, cut at the
  ceiling.
\<close>

definition ts_prices :: "Townsend \<Rightarrow> real list \<Rightarrow> real list \<Rightarrow> py_error + real list" where
  "ts_prices env y u =
     (if ts_norm_ind env then
        py_list_comp
          (\<lambda>i. bindE (py_getattr ''max_price_norm'' (ts_max_price_norm env)) (\<lambda>mp.
                Inr (max (mp - ts_A env * y ! i + u ! i) 0)))
          (ts_n_industries env)
      else
        Inr (map (\<lambda>i. max (ts_max_price env - ts_A env * y ! i + u ! i) 0)
               [0..<ts_n_industries env]))"

definition ts_k_new :: "Townsend \<Rightarrow> real list \<Rightarrow> real list \<Rightarrow> real list \<Rightarrow> py_error + real list" where
  "ts_k_new env k s y =
     (if ts_norm_ind env then
        py_list_comp
          (\<lambda>i. bindE (py_getattr ''max_cap_norm'' (ts_max_cap_norm env)) (\<lambda>mc.
                Inr (min (k ! i * (1 - ts_delta env) + s ! i * y ! i) mc)))
          (ts_n_industries env)
      else
        Inr (map (\<lambda>i. min (k ! i * (1 - ts_delta env) + s ! i * y ! i) (ts_max_cap env))
               [0..<ts_n_industries env]))"

definition ts_utility ::
  "Townsend \<Rightarrow> real list \<Rightarrow> real list \<Rightarrow> real list \<Rightarrow> real list \<Rightarrow> real list \<Rightarrow> real list \<Rightarrow> real list" where
  "ts_utility env prices s y shock_rent k k_new =
     map (\<lambda>i. prices ! i * (1 - s ! i) * y ! i
              - shock_rent ! i * k ! i
              - ts_phi env * (k_new ! i - k ! i) ^ 2)
       [0..<ts_n_industries env]"

record ts_info_global =
  tg_savings :: "real list"
  tg_reward :: "real list"
  tg_income :: "real list"
  tg_capital :: "real list"
  tg_capital_new :: "real list"
  tg_prices :: "real list"

record ts_info_ind =
  ti_savings :: real
  ti_reward :: real
  ti_income :: real
  ti_capital :: real
  ti_capital_new :: real
  ti_prices :: real

datatype ts_info = TInfo_global ts_info_global | TInfo_ind ts_info_ind

definition ts_step_info ::
  "Townsend \<Rightarrow> real list \<Rightarrow> real list \<Rightarrow> real list \<Rightarrow> real list \<Rightarrow> real list \<Rightarrow> real list \<Rightarrow>
     (nat \<times> ts_info) list" where
  "ts_step_info env s utility y k k_new prices =
     (if \<not> ts_analysis_mode env \<and> \<not> ts_simul_mode env then []
      else
        (0, TInfo_global \<lparr> tg_savings = s, tg_reward = utility, tg_income = y, tg_capital = k,
                           tg_capital_new = k_new, tg_prices = prices \<rparr>)
        # map (\<lambda>i. (i, TInfo_ind \<lparr> ti_savings = s ! i, ti_reward = utility ! i,
                                    ti_income = y ! i, ti_capital = k ! i,
                                    ti_capital_new = k_new ! i, ti_prices = prices ! i \<rparr>))
            [1..<ts_n_industries env])"

record Townsend_result =
  tsr_env :: Townsend
  tsr_obs :: "(nat \<times> real list) list"
  tsr_rew :: "(nat \<times> real) list"
  tsr_done :: bool
  tsr_info :: "(nat \<times> ts_info) list"

definition Townsend_step ::
  "Townsend \<Rightarrow> ts_step_draws \<Rightarrow> (nat \<rightharpoonup> real list) \<Rightarrow> py_error + Townsend_result" where
  "Townsend_step env rnd action_dict =
     (case ts_timestep env of
        None \<Rightarrow> Inl TypeError
      | Some t \<Rightarrow>
        let timestep = t + 1 in
        bindE (py_getattr ''obs_global'' (ts_obs_global env)) (\<lambda>obs_global.
        let k = g_k obs_global in
        bindE (ts_step_shocks env timestep rnd) (\<lambda>(shock_idtc, shock_agg).
        let shock_rent = ts_shock_rent env rnd;
            theta_old = g_theta obs_global;
            theta = ts_rho env * theta_old + shock_agg
        in
        bindE (ts_u env theta shock_idtc) (\<lambda>u.
        bindE (ts_s env action_dict) (\<lambda>s.
        bindE (ts_y env k) (\<lambda>y.
        bindE (ts_prices env y u) (\<lambda>prices.
        bindE (ts_k_new env k s y) (\<lambda>k_new.
        bindE (ts_obs_perindustry env k_new prices) (\<lambda>obs.
        let utility = ts_utility env prices s y shock_rent k k_new in
        Inr \<lparr> tsr_env = env\<lparr> ts_timestep := Some timestep,
                             ts_obs := Some obs,
                             ts_obs_global :=
                               Some \<lparr> g_k = k_new, g_prices = prices, g_theta = theta,
                                      g_shock_agg = shock_agg, g_shock_idtc = shock_idtc,
                                      g_shock_rent = shock_rent \<rparr> \<rparr>,
              tsr_obs = obs,
              tsr_rew = agent_dict (ts_n_industries env)
                          (\<lambda>i. (utility ! i - ts_rew_mean env) / ts_rew_std env),
              tsr_done = (\<not> timestep < ts_horizon env),
              tsr_info = ts_step_info env s utility y k k_new prices \<rparr>)))))))))"

section \<open>Basic lemmas\<close>

lemma sequence_sum_map_Inr:
  "(\<And>x. x \<in> set xs \<Longrightarrow> f x = Inr (g x)) \<Longrightarrow> sequence_sum (map f xs) = Inr (map g xs)"
  by (induction xs) (simp_all add: bindE_def)

lemma py_list_comp_Inr:
  "(\<And>i. i < n \<Longrightarrow> f i = Inr (g i)) \<Longrightarrow> py_list_comp f n = Inr (map g [0..<n])"
  unfolding py_list_comp_def by (rule sequence_sum_map_Inr) simp

lemma map_of_agent_dict:
  "map_of (agent_dict n f) i = (if i < n then Some (f i) else None)"
  by (simp add: agent_dict_def map_of_map_restrict restrict_map_def)

lemma bindE_Inr [simp]: "bindE (Inr v) f = f v"
  by (simp add: bindE_def)

lemma bindE_Inl [simp]: "bindE (Inl e) f = Inl e"
  by (simp add: bindE_def)

lemma py_index_Inr: "i < length xs \<Longrightarrow> py_index xs i = Inr (xs ! i)"
  by (simp add: py_index_def)

lemma py_div_Inr: "b \<noteq> 0 \<Longrightarrow> py_div a b = Inr (a / b)"
  by (simp add: py_div_def)

section \<open>Properties of Durable_sgm\<close>

lemma Durable_sgm_y_floor: "0.00001 \<le> Durable_sgm_y env k_old"
  by (simp add: Durable_sgm_y_def)

lemma Durable_sgm_utility_arg_floor: "0.00001 \<le> Durable_sgm_utility_arg env k_old a0"
  by (simp add: Durable_sgm_utility_arg_def)

lemma Durable_sgm_utility_arg_pos: "0 < Durable_sgm_utility_arg env k_old a0"
  by (simp add: Durable_sgm_utility_arg_def less_max_iff_disj)

lemma crra2_defined_on_positive: "defined_on_positive crra2"
  by (simp add: defined_on_positive_def crra2_def)

text \<open>
  C10. After a reset, for every one-component action and every capital observation
  (in particular for action components in \<open>[-1, 1]\<close> and non-negative capital), with a
  utility function that is defined on positive consumption, \<^verbatim>\<open>Durable_sgm.step\<close>
  returns a result: the utility function is called on
  \<open>max (y * (1 - s)) 0.00001\<close>, which is at least \<open>0.00001\<close> and so positive, the
  income \<open>y\<close> is at least \<open>0.00001\<close>, and the reward is at least \<open>-1000\<close>.
\<close>

theorem Durable_sgm_step_total:
  assumes u: "defined_on_positive (ds_utility_function env)"
    and obs: "ds_obs env = Some [k_old]"
    and k: "0 \<le> k_old"
    and a: "- 1 \<le> a0" "a0 \<le> 1"
  shows "\<exists>r v. Durable_sgm_step env [a0] = Inr r
           \<and> 0.00001 \<le> Durable_sgm_utility_arg env k_old a0
           \<and> ds_utility_function env (Durable_sgm_utility_arg env k_old a0) = Inr v
           \<and> dr_rew r = max (v + 1) (- 1000)
           \<and> - 1000 \<le> dr_rew r
           \<and> di_income (dr_info r) = Durable_sgm_y env k_old
           \<and> 0.00001 \<le> di_income (dr_info r)"
proof -
  from u Durable_sgm_utility_arg_pos [of env k_old a0]
  obtain v where v: "ds_utility_function env (Durable_sgm_utility_arg env k_old a0) = Inr v"
    unfolding defined_on_positive_def by blast
  show ?thesis
    using v obs Durable_sgm_y_floor [of env k_old] Durable_sgm_utility_arg_floor [of env k_old a0]
    by (simp add: Durable_sgm_step_def py_index_def Let_def)
qed

theorem Durable_sgm_step_total_witness:
  "\<exists>r v. Durable_sgm_step
            ((Durable_sgm_init (Durable_sgm_default_config crra2))\<lparr>ds_obs := Some [5]\<rparr>) [0] = Inr r
     \<and> ds_utility_function (Durable_sgm_init (Durable_sgm_default_config crra2))
          (Durable_sgm_utility_arg
            ((Durable_sgm_init (Durable_sgm_default_config crra2))\<lparr>ds_obs := Some [5]\<rparr>) 5 0) = Inr v
     \<and> - 1000 \<le> dr_rew r \<and> 0.00001 \<le> di_income (dr_info r)"
  using Durable_sgm_step_total
    [of "(Durable_sgm_init (Durable_sgm_default_config crra2))\<lparr>ds_obs := Some [5]\<rparr>" 5 0]
    crra2_defined_on_positive
  by (simp add: Durable_sgm_init_def Durable_sgm_default_config_def) blast

section \<open>Properties of DiffDemandDiscrete\<close>

lemma dd_step_obs_Inr:
  assumes "dd_n_agents env \<le> length actions"
  shows "dd_step_obs env actions =
           Inr (agent_dict (dd_n_agents env) (\<lambda>i. map (\<lambda>j. uint8 (actions ! j)) [0..<dd_n_agents env]))"
proof -
  have inner: "py_list_comp (\<lambda>j. bindE (py_index actions j) (\<lambda>a. Inr (uint8 a))) (dd_n_agents env)
                 = Inr (map (\<lambda>j. uint8 (actions ! j)) [0..<dd_n_agents env])"
    using assms by (rule_tac py_list_comp_Inr) (simp add: py_index_Inr)
  have outer: "py_list_comp
                 (\<lambda>i. py_list_comp (\<lambda>j. bindE (py_index actions j) (\<lambda>a. Inr (uint8 a))) (dd_n_agents env))
                 (dd_n_agents env)
               = Inr (map (\<lambda>i. map (\<lambda>j. uint8 (actions ! j)) [0..<dd_n_agents env]) [0..<dd_n_agents env])"
    by (rule py_list_comp_Inr) (simp add: inner)
  show ?thesis
    unfolding dd_step_obs_def outer by (simp add: agent_dict_def)
qed

lemma dd_prices_Inr:
  assumes "dd_wellformed env actions"
    and "\<forall>i<dd_n_agents env.
           \<bar>of_int (actions ! i) / of_int (dd_gridpoints env - 1)\<bar> \<le> float_max"
  shows "dd_prices env actions = Inr (map (spec_price env actions) [0..<dd_n_agents env])"
  unfolding dd_prices_def using assms
  by (rule_tac py_list_comp_Inr)
     (auto simp: dd_wellformed_def py_index_Inr py_int_truediv_def spec_price_def not_less)

lemma dd_no_overflowD:
  assumes "dd_no_overflow env actions"
  shows "\<forall>i<dd_n_agents env.
           \<bar>of_int (actions ! i) / of_int (dd_gridpoints env - 1)\<bar> \<le> float_max"
  using assms by (simp add: dd_no_overflow_def)

lemma dd_rewards_notnorm_Inr:
  assumes "dd_wellformed env actions" "dd_no_overflow env actions"
  shows "dd_rewards_notnorm env (map (spec_price env actions) [0..<dd_n_agents env])
           = Inr (map (\<lambda>i. exp ((dd_values env ! i - spec_price env actions i) / dd_substitution env))
                   [0..<dd_n_agents env])"
  unfolding dd_rewards_notnorm_def using assms
  by (rule_tac py_list_comp_Inr)
     (auto simp: dd_wellformed_def dd_no_overflow_def py_index_Inr py_div_Inr py_e_pow_def not_less)

definition dd_denom :: "DiffDemandDiscrete \<Rightarrow> int list \<Rightarrow> real" where
  "dd_denom env actions =
     exp (dd_ext_demand env / dd_substitution env)
       + (\<Sum>j = 0..<dd_n_agents env.
            exp ((dd_values env ! j - spec_price env actions j) / dd_substitution env))"

lemma dd_denom_pos: "0 < dd_denom env actions"
  unfolding dd_denom_def by (intro add_pos_nonneg sum_nonneg) simp_all

lemma dd_rewards_denom_Inr:
  assumes "dd_wellformed env actions" "dd_no_overflow env actions"
  shows "dd_rewards_denom env
           (map (\<lambda>i. exp ((dd_values env ! i - spec_price env actions i) / dd_substitution env))
              [0..<dd_n_agents env])
         = Inr (dd_denom env actions)"
  using assms
  by (simp add: dd_rewards_denom_def dd_wellformed_def dd_no_overflow_def py_div_Inr
      py_e_pow_def dd_denom_def interv_sum_list_conv_sum_set_nat)


lemma dd_rewards_list_Inr:
  assumes "dd_wellformed env actions"
  shows "dd_rewards_list env (map (spec_price env actions) [0..<dd_n_agents env])
           (map (\<lambda>i. exp ((dd_values env ! i - spec_price env actions i) / dd_substitution env))
              [0..<dd_n_agents env])
           (dd_denom env actions)
         = Inr (map (spec_reward env actions) [0..<dd_n_agents env])"
  unfolding dd_rewards_list_def using assms dd_denom_pos [of env actions]
  by (rule_tac py_list_comp_Inr)
     (simp add: dd_wellformed_def py_index_Inr py_div_Inr spec_reward_def spec_market_share_def
        dd_denom_def)

lemma agent_dict_nth_map: "agent_dict n (\<lambda>i. map g [0..<n] ! i) = agent_dict n g"
  by (simp add: agent_dict_def)

lemma DiffDemandDiscrete_step_Inr:
  assumes "dd_wellformed env (map snd action_dict)" "dd_no_overflow env (map snd action_dict)"
  shows "DiffDemandDiscrete_step env action_dict =
           Inr \<lparr> ddr_env = env\<lparr>dd_obs := agent_dict (dd_n_agents env)
                                 (\<lambda>i. map (\<lambda>j. uint8 (map snd action_dict ! j)) [0..<dd_n_agents env]),
                               dd_num_steps := dd_num_steps env + 1\<rparr>,
                 ddr_obs = agent_dict (dd_n_agents env)
                             (\<lambda>i. map (\<lambda>j. uint8 (map snd action_dict ! j)) [0..<dd_n_agents env]),
                 ddr_rew = agent_dict (dd_n_agents env) (spec_reward env (map snd action_dict)),
                 ddr_done = dd_step_done env,
                 ddr_info = agent_dict (dd_n_agents env) (spec_price env (map snd action_dict)) \<rparr>"
proof -
  have n: "dd_n_agents env \<le> length (map snd action_dict)"
    using assms by (simp add: dd_wellformed_def)
  show ?thesis
    unfolding DiffDemandDiscrete_step_def Let_def
    by (simp only: dd_step_obs_Inr [OF n] dd_prices_Inr [OF assms(1) dd_no_overflowD [OF assms(2)]]
          dd_rewards_notnorm_Inr [OF assms] dd_rewards_denom_Inr [OF assms]
          dd_rewards_list_Inr [OF assms(1)] bindE_Inr agent_dict_nth_map)
qed

text \<open>A comprehension whose entries either return or raise \<open>e\<close> raises \<open>e\<close> when one does.\<close>

lemma sequence_sum_Inl:
  assumes "\<And>x. x \<in> set xs \<Longrightarrow> (\<exists>v. f x = Inr v) \<or> f x = Inl e" "\<exists>x\<in>set xs. f x = Inl e"
  shows "sequence_sum (map f xs) = Inl e"
  using assms
proof (induction xs)
  case Nil
  then show ?case by simp
next
  case (Cons x xs)
  show ?case
  proof (cases "f x = Inl e")
    case True
    then show ?thesis by simp
  next
    case False
    with Cons.prems(1) [of x] obtain v where v: "f x = Inr v" by auto
    from False Cons.prems(2) have "\<exists>x\<in>set xs. f x = Inl e" by auto
    with Cons.IH Cons.prems(1) have "sequence_sum (map f xs) = Inl e" by simp
    then show ?thesis by (simp add: v)
  qed
qed

lemma py_list_comp_Inl:
  assumes "\<And>i. i < n \<Longrightarrow> (\<exists>v. f i = Inr v) \<or> f i = Inl e" "\<exists>i<n. f i = Inl e"
  shows "py_list_comp f n = Inl e"
  unfolding py_list_comp_def
  using assms by (intro sequence_sum_Inl) auto

lemma float_max_pos: "0 < float_max"
  by (simp add: float_max_def)

lemma dd_state_irrelevant:
  "spec_reward (env\<lparr>dd_num_steps := m, dd_obs := ob\<rparr>) = spec_reward env"
  "spec_price (env\<lparr>dd_num_steps := m, dd_obs := ob\<rparr>) = spec_price env"
  "dd_wellformed (env\<lparr>dd_num_steps := m, dd_obs := ob\<rparr>) = dd_wellformed env"
  "dd_no_overflow (env\<lparr>dd_num_steps := m, dd_obs := ob\<rparr>) = dd_no_overflow env"
  by (simp_all add: fun_eq_iff spec_reward_def spec_market_share_def spec_price_def
      dd_wellformed_def dd_no_overflow_def)

lemma dd_prices_overflow:
  assumes wf: "dd_wellformed env actions"
    and ov: "\<exists>i<dd_n_agents env.
               float_max < \<bar>of_int (actions ! i) / of_int (dd_gridpoints env - 1)\<bar>"
  shows "dd_prices env actions = Inl OverflowError"
proof -
  let ?f = "\<lambda>i. bindE (py_index (dd_lower_price env) i) (\<lambda>lo.
             bindE (py_index (dd_higher_price env) i) (\<lambda>hi.
             bindE (py_index (dd_lower_price env) i) (\<lambda>lo'.
             bindE (py_index actions i) (\<lambda>a.
             bindE (py_int_truediv a (dd_gridpoints env - 1)) (\<lambda>q.
             Inr (lo + (hi - lo') * q))))))"
  have each: "?f i = bindE (py_int_truediv (actions ! i) (dd_gridpoints env - 1))
                       (\<lambda>q. Inr (dd_lower_price env ! i
                                  + (dd_higher_price env ! i - dd_lower_price env ! i) * q))"
    if "i < dd_n_agents env" for i
    using that wf by (simp add: dd_wellformed_def py_index_Inr)
  have "py_list_comp ?f (dd_n_agents env) = Inl OverflowError"
  proof (rule py_list_comp_Inl)
    fix i assume "i < dd_n_agents env"
    then show "(\<exists>v. ?f i = Inr v) \<or> ?f i = Inl OverflowError"
      using wf by (simp only: each) (simp add: py_int_truediv_def dd_wellformed_def)
  next
    from ov obtain i where i: "i < dd_n_agents env"
      "float_max < \<bar>of_int (actions ! i) / of_int (dd_gridpoints env - 1)\<bar>" by blast
    then have "?f i = Inl OverflowError"
      using wf by (simp only: each) (simp add: py_int_truediv_def dd_wellformed_def)
    with i(1) show "\<exists>i<dd_n_agents env. ?f i = Inl OverflowError" by blast
  qed
  then show ?thesis by (simp only: dd_prices_def)
qed

lemma DiffDemandDiscrete_step_overflow:
  assumes wf: "dd_wellformed env (map snd action_dict)"
    and ov: "\<not> dd_no_overflow env (map snd action_dict)"
  shows "DiffDemandDiscrete_step env action_dict = Inl OverflowError"
proof -
  let ?actions = "map snd action_dict"
  let ?x = "\<lambda>i. (dd_values env ! i - spec_price env ?actions i) / dd_substitution env"
  have n: "dd_n_agents env \<le> length ?actions"
    using wf by (simp add: dd_wellformed_def)
  have each: "bindE (py_index (dd_values env) i) (\<lambda>v.
             bindE (py_index (map (spec_price env ?actions) [0..<dd_n_agents env]) i) (\<lambda>p.
             bindE (py_div (v - p) (dd_substitution env)) (\<lambda>x. py_e_pow x))) = py_e_pow (?x i)"
    if "i < dd_n_agents env" for i
    using that wf by (simp add: dd_wellformed_def py_index_Inr py_div_Inr)
  show ?thesis
  proof (cases "\<exists>i<dd_n_agents env.
                  float_max < \<bar>of_int (?actions ! i) / of_int (dd_gridpoints env - 1)\<bar>")
    case True
    show ?thesis
      unfolding DiffDemandDiscrete_step_def Let_def
      by (simp only: dd_step_obs_Inr [OF n] dd_prices_overflow [OF wf True] bindE_Inr bindE_Inl)
  next
    case q: False
    then have qs: "\<forall>i<dd_n_agents env.
           \<bar>of_int (?actions ! i) / of_int (dd_gridpoints env - 1)\<bar> \<le> float_max"
      using not_less by blast
    note prices = dd_prices_Inr [OF wf qs]
    show ?thesis
    proof (cases "\<exists>i<dd_n_agents env. float_max < exp (?x i)")
      case True
      have "dd_rewards_notnorm env (map (spec_price env ?actions) [0..<dd_n_agents env])
              = Inl OverflowError"
        unfolding dd_rewards_notnorm_def
      proof (rule py_list_comp_Inl)
        fix i assume "i < dd_n_agents env"
        then show "(\<exists>v. bindE (py_index (dd_values env) i) (\<lambda>v.
               bindE (py_index (map (spec_price env ?actions) [0..<dd_n_agents env]) i) (\<lambda>p.
               bindE (py_div (v - p) (dd_substitution env)) (\<lambda>x. py_e_pow x))) = Inr v)
            \<or> bindE (py_index (dd_values env) i) (\<lambda>v.
               bindE (py_index (map (spec_price env ?actions) [0..<dd_n_agents env]) i) (\<lambda>p.
               bindE (py_div (v - p) (dd_substitution env)) (\<lambda>x. py_e_pow x))) = Inl OverflowError"
          by (simp only: each) (simp add: py_e_pow_def)
      next
        from True obtain i where i: "i < dd_n_agents env" "float_max < exp (?x i)" by blast
        then have "bindE (py_index (dd_values env) i) (\<lambda>v.
               bindE (py_index (map (spec_price env ?actions) [0..<dd_n_agents env]) i) (\<lambda>p.
               bindE (py_div (v - p) (dd_substitution env)) (\<lambda>x. py_e_pow x))) = Inl OverflowError"
          by (simp only: each) (simp add: py_e_pow_def)
        with i(1) show "\<exists>i<dd_n_agents env. bindE (py_index (dd_values env) i) (\<lambda>v.
               bindE (py_index (map (spec_price env ?actions) [0..<dd_n_agents env]) i) (\<lambda>p.
               bindE (py_div (v - p) (dd_substitution env)) (\<lambda>x. py_e_pow x))) = Inl OverflowError"
          by blast
      qed
      then show ?thesis
        unfolding DiffDemandDiscrete_step_def Let_def
        by (simp only: dd_step_obs_Inr [OF n] prices bindE_Inr bindE_Inl)
    next
      case False
      then have okn: "\<And>i. i < dd_n_agents env \<Longrightarrow> \<not> float_max < exp (?x i)"
        by blast
      then have ok: "\<forall>i<dd_n_agents env. exp (?x i) \<le> float_max"
        using not_less by blast
      with ov qs have "\<not> exp (dd_ext_demand env / dd_substitution env) \<le> float_max"
        unfolding dd_no_overflow_def by blast
      then have e0: "float_max < exp (dd_ext_demand env / dd_substitution env)"
        by (simp add: not_le)
      have nn: "dd_rewards_notnorm env (map (spec_price env ?actions) [0..<dd_n_agents env])
              = Inr (map (\<lambda>i. exp (?x i)) [0..<dd_n_agents env])"
        unfolding dd_rewards_notnorm_def
        by (rule py_list_comp_Inr) (simp only: each, simp add: py_e_pow_def okn)
      have dn: "dd_rewards_denom env (map (\<lambda>i. exp (?x i)) [0..<dd_n_agents env]) = Inl OverflowError"
        using wf e0 by (simp add: dd_rewards_denom_def dd_wellformed_def py_div_Inr py_e_pow_def)
      show ?thesis
        unfolding DiffDemandDiscrete_step_def Let_def
        by (simp only: dd_step_obs_Inr [OF n] prices nn dn bindE_Inr bindE_Inl)
    qed
  qed
qed


text \<open>
  The default market with the highest price for the first agent and the lowest for
  the second: the exponents are \<open>0\<close> and \<open>4\<close>.
\<close>

definition dd_example_actions :: "(nat \<times> int) list" where
  "dd_example_actions = [(0, 15), (1, 0)]"

lemma dd_default_fields:
  "dd_n_agents DiffDemandDiscrete_default = 2"
  "dd_values DiffDemandDiscrete_default = [2, 2]"
  "dd_cost DiffDemandDiscrete_default = [1, 1]"
  "dd_lower_price DiffDemandDiscrete_default = [1, 1]"
  "dd_higher_price DiffDemandDiscrete_default = [2, 2]"
  "dd_substitution DiffDemandDiscrete_default = 1 / 4"
  "dd_ext_demand DiffDemandDiscrete_default = 0"
  "dd_gridpoints DiffDemandDiscrete_default = 16"
  "\<not> dd_finite_periods DiffDemandDiscrete_default"
  by (simp_all add: DiffDemandDiscrete_default_def DiffDemandDiscrete_init_def numeral_2_eq_2)

lemma less_2_nat: "i < (2::nat) \<longleftrightarrow> i = 0 \<or> i = Suc 0"
  by auto

lemma dd_example_wf: "dd_wellformed DiffDemandDiscrete_default (map snd dd_example_actions)"
  by (simp add: dd_wellformed_def dd_default_fields dd_example_actions_def)

lemma dd_example_prices:
  "spec_price DiffDemandDiscrete_default (map snd dd_example_actions) 0 = 2"
  "spec_price DiffDemandDiscrete_default (map snd dd_example_actions) (Suc 0) = 1"
  by (simp_all add: spec_price_def dd_default_fields dd_example_actions_def)

lemma exp_4_le_float_max: "exp (4::real) \<le> float_max"
proof -
  have "exp (4::real) = exp 1 ^ 4"
    using exp_of_nat_mult [of 4 "1::real"] by simp
  also have "\<dots> \<le> 3 ^ 4"
    by (intro power_mono exp_le) simp
  also have "\<dots> \<le> float_max"
    by (simp add: float_max_def)
  finally show ?thesis .
qed

lemma dd_example_no_overflow:
  "dd_no_overflow DiffDemandDiscrete_default (map snd dd_example_actions)"
proof -
  have q: "\<forall>i<dd_n_agents DiffDemandDiscrete_default.
             \<bar>of_int (map snd dd_example_actions ! i)
                / of_int (dd_gridpoints DiffDemandDiscrete_default - 1)\<bar> \<le> float_max"
    by (simp add: dd_default_fields less_2_nat dd_example_actions_def float_max_def)
  have e: "\<forall>i<dd_n_agents DiffDemandDiscrete_default.
             exp ((dd_values DiffDemandDiscrete_default ! i
                     - spec_price DiffDemandDiscrete_default (map snd dd_example_actions) i)
                  / dd_substitution DiffDemandDiscrete_default) \<le> float_max"
    using exp_4_le_float_max
    by (simp add: dd_default_fields less_2_nat dd_example_prices) (simp add: float_max_def)
  have e0: "exp (dd_ext_demand DiffDemandDiscrete_default
                  / dd_substitution DiffDemandDiscrete_default) \<le> float_max"
    by (simp add: dd_default_fields) (simp add: float_max_def)
  from q e e0 show ?thesis
    unfolding dd_no_overflow_def by blast
qed


text \<open>
  Against the claim as worded: with \<^verbatim>\<open>substitution = 0.001\<close> and everything else
  at its default, the first agent at the lowest price has the exponent
  \<open>(2 - 1) / 0.001 = 1000\<close>; \<^verbatim>\<open>math.e ** 1000.0\<close> raises OverflowError, and the step
  returns no reward for this joint action.
\<close>

definition dd_overflow_env :: DiffDemandDiscrete where
  "dd_overflow_env =
     DiffDemandDiscrete_init
       \<lparr> mc_n_agents = 2, mc_gridpoints = None, mc_finite_periods = None, mc_n_periods = None,
         mc_parameters = Some ([1, 1], [2, 2], 0, 1 / 1000),
         mc_lower_price = None, mc_higher_price = None \<rparr>"

lemma dd_overflow_fields:
  "dd_n_agents dd_overflow_env = 2"
  "dd_values dd_overflow_env = [2, 2]"
  "dd_cost dd_overflow_env = [1, 1]"
  "dd_lower_price dd_overflow_env = [1, 1]"
  "dd_higher_price dd_overflow_env = [2, 2]"
  "dd_substitution dd_overflow_env = 1 / 1000"
  "dd_ext_demand dd_overflow_env = 0"
  "dd_gridpoints dd_overflow_env = 16"
  by (simp_all add: dd_overflow_env_def DiffDemandDiscrete_init_def)

lemma float_max_less_exp_1000: "float_max < exp (1000::real)"
proof -
  have "float_max < 2 ^ 1024"
    by (simp add: float_max_def)
  also have "(2::real) ^ 1024 \<le> 2 ^ 1140"
    by (rule power_increasing) simp_all
  also have "(2::real) ^ 1140 = (2 ^ 4) ^ 285"
    by (simp add: power_mult [symmetric])
  also have "\<dots> \<le> ((3 / 2) ^ 7) ^ 285"
    by (rule power_mono) (simp_all add: power_divide)
  also have "\<dots> = (3 / 2 :: real) ^ 1995"
    by (simp add: power_mult [symmetric])
  also have "\<dots> \<le> (3 / 2) ^ 2000"
    by (rule power_increasing) simp_all
  also have "\<dots> \<le> exp (1 / 2 :: real) ^ 2000"
    using exp_ge_add_one_self [of "1 / 2 :: real"] by (intro power_mono) simp_all
  also have "\<dots> = exp (1000::real)"
    using exp_of_nat_mult [of 2000 "1 / 2 :: real"] by simp
  finally show ?thesis .
qed


section \<open>Properties of Capital_planner_ma\<close>

lemma py_getitem_Some: "d k = Some v \<Longrightarrow> py_getitem d k = Inr v"
  by (simp add: py_getitem_def)

lemma cp_unsquash_Inr:
  assumes "\<And>i. i < cp_n_hh env \<Longrightarrow> \<exists>a. action_dict i = Some a \<and> cp_n_capital env \<le> length a"
  shows "cp_unsquash env action_dict =
           Inr (map (\<lambda>i. map (\<lambda>j. (the (action_dict i) ! j + 1) / 2 * cp_max_s_ij env)
                            [0..<cp_n_capital env])
                  [0..<cp_n_hh env])"
  unfolding cp_unsquash_def
proof (rule py_list_comp_Inr)
  fix i assume i: "i < cp_n_hh env"
  from assms [OF i] obtain a where a: "action_dict i = Some a" "cp_n_capital env \<le> length a"
    by blast
  show "py_list_comp
          (\<lambda>j. bindE (py_getitem action_dict i) (\<lambda>a. bindE (py_index a j)
                  (\<lambda>x. Inr ((x + 1) / 2 * cp_max_s_ij env))))
          (cp_n_capital env)
        = Inr (map (\<lambda>j. (the (action_dict i) ! j + 1) / 2 * cp_max_s_ij env) [0..<cp_n_capital env])"
    using a by (rule_tac py_list_comp_Inr) (simp add: py_getitem_Some py_index_Inr)
qed

definition cp_corrected_row :: "Capital_planner_ma \<Rightarrow> real list \<Rightarrow> real list" where
  "cp_corrected_row env row =
     (if sum_list row > 1 then map (\<lambda>j. row ! j / sum_list row) [0..<cp_n_capital env] else row)"

lemma cp_correct_bgt_fold:
  assumes len: "length s0 = n" "length p0 = n"
  shows "m \<le> n \<Longrightarrow>
         fold (cp_correct_bgt_i env) [0..<m] (s0, p0) =
           (map (\<lambda>i. if i < m then cp_corrected_row env (s0 ! i) else s0 ! i) [0..<n],
            map (\<lambda>i. if i < m then (if sum_list (s0 ! i) > 1 then 1 else p0 ! i) else p0 ! i) [0..<n])"
proof (induction m)
  case 0
  show ?case using len by (auto intro!: nth_equalityI)
next
  case (Suc m)
  then have m: "m < n" by simp
  have IH: "fold (cp_correct_bgt_i env) [0..<m] (s0, p0) =
           (map (\<lambda>i. if i < m then cp_corrected_row env (s0 ! i) else s0 ! i) [0..<n],
            map (\<lambda>i. if i < m then (if sum_list (s0 ! i) > 1 then 1 else p0 ! i) else p0 ! i) [0..<n])"
    using Suc by simp
  show ?case
    unfolding upt_Suc_append [OF le0] fold_append comp_def IH
    using m
    by (auto simp: cp_correct_bgt_i_def cp_corrected_row_def intro!: nth_equalityI
          simp: nth_list_update less_Suc_eq)
qed

lemma cp_correct_bgt_eq:
  assumes "length s0 = cp_n_hh env"
  shows "cp_correct_bgt env s0 =
           (map (\<lambda>i. cp_corrected_row env (s0 ! i)) [0..<cp_n_hh env],
            map (\<lambda>i. if sum_list (s0 ! i) > 1 then 1 else 0) [0..<cp_n_hh env])"
  unfolding cp_correct_bgt_def
  using cp_correct_bgt_fold [of s0 "cp_n_hh env" "map (\<lambda>i. 0) [0..<cp_n_hh env]" "cp_n_hh env" env] assms
  by simp

lemma sum_list_divide_const: "sum_list (map (\<lambda>x. x / c) xs) = sum_list xs / (c::real)"
  by (induction xs) (simp_all add: add_divide_distrib)

lemma sum_list_rescaled:
  assumes "length (row :: real list) = n" "sum_list row \<noteq> 0"
  shows "sum_list (map (\<lambda>j. row ! j / sum_list row) [0..<n]) = 1"
proof -
  have "map (\<lambda>j. row ! j / sum_list row) [0..<n] = map (\<lambda>x. x / sum_list row) row"
    using assms(1) by (intro nth_equalityI) simp_all
  then have "sum_list (map (\<lambda>j. row ! j / sum_list row) [0..<n]) = sum_list row / sum_list row"
    by (simp only: sum_list_divide_const)
  then show ?thesis using assms(2) by simp
qed


lemma sequence_sum_InrD:
  "sequence_sum ys = Inr xs \<Longrightarrow> length xs = length ys \<and> (\<forall>i<length ys. ys ! i = Inr (xs ! i))"
proof (induction ys arbitrary: xs)
  case Nil
  then show ?case by simp
next
  case (Cons y ys)
  from Cons.prems obtain v vs where y: "y = Inr v" and vs: "sequence_sum ys = Inr vs"
    and xs: "xs = v # vs"
    by (auto simp: bindE_def split: sum.splits)
  from Cons.IH [OF vs] show ?case
    by (auto simp: y xs nth_Cons split: nat.splits)
qed

lemma py_list_comp_InrD:
  assumes "py_list_comp f n = Inr xs"
  shows "length xs = n" and "\<And>i. i < n \<Longrightarrow> f i = Inr (xs ! i)"
  using sequence_sum_InrD [OF assms [unfolded py_list_comp_def]] by auto

lemma py_list_comp_Inr_iff:
  "py_list_comp f n = Inr xs \<longleftrightarrow> length xs = n \<and> (\<forall>i<n. f i = Inr (xs ! i))"
proof
  assume "py_list_comp f n = Inr xs"
  then show "length xs = n \<and> (\<forall>i<n. f i = Inr (xs ! i))"
    using py_list_comp_InrD [of f n xs] by blast
next
  assume a: "length xs = n \<and> (\<forall>i<n. f i = Inr (xs ! i))"
  then have "py_list_comp f n = Inr (map (\<lambda>i. xs ! i) [0..<n])"
    by (intro py_list_comp_Inr) simp
  also have "map (\<lambda>i. xs ! i) [0..<n] = xs"
    using a by (auto intro: nth_equalityI)
  finally show "py_list_comp f n = Inr xs" .
qed

lemma bindE_eq_Inr: "bindE m f = Inr r \<longleftrightarrow> (\<exists>v. m = Inr v \<and> f v = Inr r)"
  by (cases m) (simp_all add: bindE_def)

definition cp_vars ::
  "Capital_planner_ma \<Rightarrow> real list \<Rightarrow> nat list \<Rightarrow> nat \<Rightarrow> real list list \<Rightarrow> cp_step_vars" where
  "cp_vars env k shocks_idtc_id shock_agg_id s_ij0 =
     (let shocks_idtc = map (\<lambda>i. cp_shock_idtc_values env ! (shocks_idtc_id ! i)) [0..<cp_n_hh env];
          shock_agg = cp_shock_agg_values env ! shock_agg_id;
          s_ij = fst (cp_correct_bgt env s_ij0);
          bgt_penalty_ind = snd (cp_correct_bgt env s_ij0);
          k_ij = cp_k_ij env k;
          k_bundle_i = cp_k_bundle_i env k_ij;
          y_i = cp_y_i env shocks_idtc shock_agg k_bundle_i;
          c_i = cp_c_i env y_i s_ij;
          utility_i = cp_utility_i env c_i;
          inv_exp_ij = cp_inv_exp_ij env s_ij y_i;
          inv_exp_j = cp_inv_exp_j env inv_exp_ij;
          inv_j = map (\<lambda>j. sqrt (2 / cp_phi env * inv_exp_j ! j)) [0..<cp_n_capital env];
          inv_ij = cp_inv_ij env inv_exp_ij inv_exp_j inv_j;
          k_ij_new = cp_k_ij_new env k_ij inv_ij
      in \<lparr> l_k = k, l_shocks_idtc_id = shocks_idtc_id, l_shock_agg_id = shock_agg_id,
           l_shocks_idtc = shocks_idtc, l_shock_agg = shock_agg,
           l_s_ij = s_ij, l_bgt_penalty_ind = bgt_penalty_ind, l_k_ij = k_ij,
           l_y_i = y_i, l_c_i = c_i, l_utility_i = utility_i,
           l_inv_exp_ij = inv_exp_ij, l_inv_exp_j = inv_exp_j, l_inv_j = inv_j,
           l_inv_ij = inv_ij, l_k_ij_new = k_ij_new \<rparr>)"

lemma cp_inv_j_eq:
  "cp_inv_j env e = Inr r \<longleftrightarrow>
     (cp_n_capital env = 0 \<or> cp_phi env \<noteq> 0) \<and>
     r = map (\<lambda>j. sqrt (2 / cp_phi env * e ! j)) [0..<cp_n_capital env]"
proof (cases "cp_phi env = 0")
  case True
  show ?thesis
  proof (cases "cp_n_capital env = 0")
    case z: True
    show ?thesis
      unfolding cp_inv_j_def py_list_comp_Inr_iff by (auto simp: z)
  next
    case nz: False
    show ?thesis
      unfolding cp_inv_j_def py_list_comp_Inr_iff using nz by (auto simp: True py_div_def)
  qed
next
  case False
  have "cp_inv_j env e = Inr (map (\<lambda>j. sqrt (2 / cp_phi env * e ! j)) [0..<cp_n_capital env])"
    unfolding cp_inv_j_def using False
    by (rule_tac py_list_comp_Inr) (simp add: py_div_def)
  then show ?thesis using False by auto
qed

lemma py_index_eq_Inr: "py_index xs i = Inr v \<longleftrightarrow> i < length xs \<and> v = xs ! i"
  by (auto simp: py_index_def)

lemma py_getattr_eq_Inr: "py_getattr name a = Inr v \<longleftrightarrow> a = Some v"
  by (cases a) (simp_all add: py_getattr_def)

lemma py_getitem_eq_Inr: "py_getitem d k = Inr v \<longleftrightarrow> d k = Some v"
  by (cases "d k") (simp_all add: py_getitem_def)

lemma cp_shocks_idtc_eq_Inr:
  "py_list_comp (\<lambda>i. bindE (py_index ids i) (\<lambda>z. py_index values z)) n = Inr sh \<longleftrightarrow>
     n \<le> length ids \<and> (\<forall>i<n. ids ! i < length values) \<and> sh = map (\<lambda>i. values ! (ids ! i)) [0..<n]"
  (is "?lhs \<longleftrightarrow> ?rhs")
proof
  assume ?lhs
  then have len: "length sh = n"
    and each: "\<And>i. i < n \<Longrightarrow> i < length ids \<and> ids ! i < length values \<and> sh ! i = values ! (ids ! i)"
    by (auto simp: py_list_comp_Inr_iff bindE_eq_Inr py_index_eq_Inr)
  have "n \<le> length ids"
  proof (cases n)
    case 0 then show ?thesis by simp
  next
    case (Suc m)
    with each [of m] show ?thesis by simp
  qed
  moreover have "sh = map (\<lambda>i. values ! (ids ! i)) [0..<n]"
    using len each by (intro nth_equalityI) simp_all
  ultimately show ?rhs using each by blast
next
  assume ?rhs
  then show ?lhs
    by (auto simp: py_list_comp_Inr_iff bindE_eq_Inr py_index_eq_Inr)
qed

text \<open>What a successful run of the first part of step has read and computed.\<close>

lemma cp_step_vars_eq_Inr:
  "Capital_planner_ma_step_vars env action_dict = Inr L \<longleftrightarrow>
     (\<exists>obs k ids agg s0.
        cp_obs env = Some obs \<and> map_of obs 0 = Some (k, ids, agg) \<and>
        cp_n_hh env \<le> length ids \<and> (\<forall>i<cp_n_hh env. ids ! i < length (cp_shock_idtc_values env)) \<and>
        agg < length (cp_shock_agg_values env) \<and>
        cp_unsquash env action_dict = Inr s0 \<and>
        cp_n_hh env * cp_n_capital env \<le> length k \<and>
        (cp_n_capital env = 0 \<or> cp_phi env \<noteq> 0) \<and>
        L = cp_vars env k ids agg s0)"
  unfolding Capital_planner_ma_step_vars_def
  by (auto simp: bindE_eq_Inr py_getattr_eq_Inr py_getitem_eq_Inr cp_shocks_idtc_eq_Inr
        py_index_eq_Inr cp_inv_j_eq cp_vars_def Let_def)

definition cp_actions_ok :: "Capital_planner_ma \<Rightarrow> (nat \<rightharpoonup> real list) \<Rightarrow> bool" where
  "cp_actions_ok env action_dict =
     (\<forall>i<cp_n_hh env. \<forall>j<cp_n_capital env. \<exists>a. action_dict i = Some a \<and> j < length a)"

definition cp_unsquashed :: "Capital_planner_ma \<Rightarrow> (nat \<rightharpoonup> real list) \<Rightarrow> real list list" where
  "cp_unsquashed env action_dict =
     map (\<lambda>i. map (\<lambda>j. (the (action_dict i) ! j + 1) / 2 * cp_max_s_ij env) [0..<cp_n_capital env])
       [0..<cp_n_hh env]"

lemma map_upt_eqI: "length xs = n \<Longrightarrow> (\<And>i. i < n \<Longrightarrow> xs ! i = f i) \<Longrightarrow> xs = map f [0..<n]"
  by (intro nth_equalityI) simp_all

lemma cp_unsquash_eq_Inr:
  "cp_unsquash env action_dict = Inr s0 \<longleftrightarrow>
     cp_actions_ok env action_dict \<and> s0 = cp_unsquashed env action_dict"
  (is "?lhs \<longleftrightarrow> ?rhs")
proof
  assume ?rhs
  then have ok: "cp_actions_ok env action_dict" and s0: "s0 = cp_unsquashed env action_dict"
    by simp_all
  have "cp_unsquash env action_dict = Inr (cp_unsquashed env action_dict)"
    unfolding cp_unsquash_def cp_unsquashed_def
  proof (rule py_list_comp_Inr)
    fix i assume i: "i < cp_n_hh env"
    show "py_list_comp
            (\<lambda>j. bindE (py_getitem action_dict i) (\<lambda>a. bindE (py_index a j)
                    (\<lambda>x. Inr ((x + 1) / 2 * cp_max_s_ij env))))
            (cp_n_capital env)
          = Inr (map (\<lambda>j. (the (action_dict i) ! j + 1) / 2 * cp_max_s_ij env) [0..<cp_n_capital env])"
    proof (rule py_list_comp_Inr)
      fix j assume j: "j < cp_n_capital env"
      from ok i j obtain a where "action_dict i = Some a" "j < length a"
        unfolding cp_actions_ok_def by blast
      then show "bindE (py_getitem action_dict i) (\<lambda>a. bindE (py_index a j)
                    (\<lambda>x. Inr ((x + 1) / 2 * cp_max_s_ij env)))
                 = Inr ((the (action_dict i) ! j + 1) / 2 * cp_max_s_ij env)"
        by (simp add: py_getitem_Some py_index_Inr)
    qed
  qed
  then show ?lhs by (simp add: s0)
next
  assume l: ?lhs
  have row: "\<And>i. i < cp_n_hh env \<Longrightarrow>
     py_list_comp
            (\<lambda>j. bindE (py_getitem action_dict i) (\<lambda>a. bindE (py_index a j)
                    (\<lambda>x. Inr ((x + 1) / 2 * cp_max_s_ij env))))
            (cp_n_capital env) = Inr (s0 ! i)"
    and len: "length s0 = cp_n_hh env"
    using l unfolding cp_unsquash_def py_list_comp_Inr_iff by simp_all
  have cell: "\<And>i j. i < cp_n_hh env \<Longrightarrow> j < cp_n_capital env \<Longrightarrow>
      (\<exists>a. action_dict i = Some a \<and> j < length a) \<and>
      s0 ! i ! j = (the (action_dict i) ! j + 1) / 2 * cp_max_s_ij env"
    and rowlen: "\<And>i. i < cp_n_hh env \<Longrightarrow> length (s0 ! i) = cp_n_capital env"
    using row unfolding py_list_comp_Inr_iff bindE_eq_Inr py_getitem_eq_Inr py_index_eq_Inr
    by fastforce+
  have "cp_actions_ok env action_dict"
    unfolding cp_actions_ok_def using cell by blast
  moreover have "s0 = cp_unsquashed env action_dict"
    unfolding cp_unsquashed_def
    by (rule map_upt_eqI [OF len], rule map_upt_eqI [OF rowlen]) (simp_all add: cell)
  ultimately show ?rhs by simp
qed

lemma cp_unsquashed_length [simp]: "length (cp_unsquashed env a) = cp_n_hh env"
  by (simp add: cp_unsquashed_def)

lemma cp_unsquashed_row_length:
  "i < cp_n_hh env \<Longrightarrow> length (cp_unsquashed env a ! i) = cp_n_capital env"
  by (simp add: cp_unsquashed_def)

lemma cp_unsquashed_nth:
  "i < cp_n_hh env \<Longrightarrow> j < cp_n_capital env \<Longrightarrow>
     cp_unsquashed env a ! i ! j = (the (a i) ! j + 1) / 2 * cp_max_s_ij env"
  by (simp add: cp_unsquashed_def)

lemma cp_unsquashed_range:
  assumes "i < cp_n_hh env" "j < cp_n_capital env" "0 \<le> cp_max_s_ij env"
    "- 1 \<le> the (a i) ! j" "the (a i) ! j \<le> 1"
  shows "0 \<le> cp_unsquashed env a ! i ! j" "cp_unsquashed env a ! i ! j \<le> cp_max_s_ij env"
proof -
  let ?x = "(the (a i) ! j + 1) / 2"
  have x: "0 \<le> ?x" "?x \<le> 1" using assms(4,5) by simp_all
  show "0 \<le> cp_unsquashed env a ! i ! j"
    using x assms(3) by (simp add: cp_unsquashed_nth assms(1,2))
  have "?x * cp_max_s_ij env \<le> 1 * cp_max_s_ij env"
    using x(2) assms(3) by (rule mult_right_mono)
  then show "cp_unsquashed env a ! i ! j \<le> cp_max_s_ij env"
    by (simp add: cp_unsquashed_nth assms(1,2))
qed

lemma cp_corrected_row_gt:
  assumes "1 < sum_list row" "length row = cp_n_capital env"
  shows "cp_corrected_row env row = map (\<lambda>x. x / sum_list row) row"
    and "sum_list (cp_corrected_row env row) = 1"
proof -
  have r: "cp_corrected_row env row = map (\<lambda>j. row ! j / sum_list row) [0..<cp_n_capital env]"
    using assms(1) by (simp add: cp_corrected_row_def)
  show "cp_corrected_row env row = map (\<lambda>x. x / sum_list row) row"
    unfolding r using assms(2) by (intro nth_equalityI) simp_all
  show "sum_list (cp_corrected_row env row) = 1"
    unfolding r using assms by (intro sum_list_rescaled) simp_all
qed

lemma cp_corrected_row_le: "sum_list row \<le> 1 \<Longrightarrow> cp_corrected_row env row = row"
  by (simp add: cp_corrected_row_def)

text \<open>
  C1. In \<^verbatim>\<open>Capital_planner_ma.step\<close>, for an action dictionary that holds
  \<open>n_capital\<close> components for every household, unsquashing raises nothing and gives
  \<open>(a + 1) / 2 * max_s_ij\<close> per component, which lies in \<open>[0, max_s_ij]\<close> when the
  component lies in \<open>[-1, 1]\<close> and \<open>max_s_ij\<close> is not negative. For every household
  whose unsquashed vector sums to more than 1, the vector \<^verbatim>\<open>step\<close> goes on with is
  that vector divided by its sum, it sums to 1, and the household's penalty flag is 1;
  for every household whose vector sums to at most 1 the vector is unchanged and the
  flag is 0. The correction itself has no failing branch.
\<close>

theorem Capital_planner_ma_budget_correction:
  assumes ok: "cp_actions_ok env action_dict" and i: "i < cp_n_hh env"
  shows "\<exists>s0 s_ij bgt_penalty_ind.
           cp_unsquash env action_dict = Inr s0
         \<and> cp_correct_bgt env s0 = (s_ij, bgt_penalty_ind)
         \<and> (\<forall>L. Capital_planner_ma_step_vars env action_dict = Inr L
                  \<longrightarrow> l_s_ij L = s_ij \<and> l_bgt_penalty_ind L = bgt_penalty_ind)
         \<and> (\<forall>j<cp_n_capital env.
               s0 ! i ! j = (the (action_dict i) ! j + 1) / 2 * cp_max_s_ij env)
         \<and> (0 \<le> cp_max_s_ij env
              \<and> (\<forall>j<cp_n_capital env. - 1 \<le> the (action_dict i) ! j \<and> the (action_dict i) ! j \<le> 1)
            \<longrightarrow> (\<forall>j<cp_n_capital env. 0 \<le> s0 ! i ! j \<and> s0 ! i ! j \<le> cp_max_s_ij env))
         \<and> (1 < sum_list (s0 ! i)
            \<longrightarrow> s_ij ! i = map (\<lambda>x. x / sum_list (s0 ! i)) (s0 ! i)
                \<and> sum_list (s_ij ! i) = 1 \<and> bgt_penalty_ind ! i = 1)
         \<and> (sum_list (s0 ! i) \<le> 1 \<longrightarrow> s_ij ! i = s0 ! i \<and> bgt_penalty_ind ! i = 0)"
proof -
  let ?u = "cp_unsquashed env action_dict"
  have u: "cp_unsquash env action_dict = Inr ?u"
    using ok by (simp add: cp_unsquash_eq_Inr)
  have c: "cp_correct_bgt env ?u =
           (map (\<lambda>i. cp_corrected_row env (?u ! i)) [0..<cp_n_hh env],
            map (\<lambda>i. if sum_list (?u ! i) > 1 then 1 else 0) [0..<cp_n_hh env])"
    by (rule cp_correct_bgt_eq) simp
  have vars: "\<forall>L. Capital_planner_ma_step_vars env action_dict = Inr L
      \<longrightarrow> l_s_ij L = fst (cp_correct_bgt env ?u) \<and> l_bgt_penalty_ind L = snd (cp_correct_bgt env ?u)"
    by (auto simp: cp_step_vars_eq_Inr cp_unsquash_eq_Inr cp_vars_def Let_def)
  have rl: "length (?u ! i) = cp_n_capital env"
    using i by (rule cp_unsquashed_row_length)
  let ?s = "fst (cp_correct_bgt env ?u)" and ?p = "snd (cp_correct_bgt env ?u)"
  have si: "?s ! i = cp_corrected_row env (?u ! i)"
    and pi: "?p ! i = (if sum_list (?u ! i) > 1 then 1 else 0)"
    using i by (simp_all add: c)
  have a: "cp_correct_bgt env ?u = (?s, ?p)" by simp
  have b: "\<forall>j<cp_n_capital env.
               ?u ! i ! j = (the (action_dict i) ! j + 1) / 2 * cp_max_s_ij env"
    using i by (simp add: cp_unsquashed_nth)
  have d: "0 \<le> cp_max_s_ij env
              \<and> (\<forall>j<cp_n_capital env. - 1 \<le> the (action_dict i) ! j \<and> the (action_dict i) ! j \<le> 1)
            \<longrightarrow> (\<forall>j<cp_n_capital env. 0 \<le> ?u ! i ! j \<and> ?u ! i ! j \<le> cp_max_s_ij env)"
    using i cp_unsquashed_range [of i env _ action_dict] by blast
  have e: "1 < sum_list (?u ! i)
            \<longrightarrow> ?s ! i = map (\<lambda>x. x / sum_list (?u ! i)) (?u ! i)
                \<and> sum_list (?s ! i) = 1 \<and> ?p ! i = 1"
    using cp_corrected_row_gt [OF _ rl] by (simp add: si pi)
  have f: "sum_list (?u ! i) \<le> 1 \<longrightarrow> ?s ! i = ?u ! i \<and> ?p ! i = 0"
    by (simp add: si pi cp_corrected_row_le)
  from u a vars b d e f show ?thesis by blast
qed

text \<open>
  The agent-centred view as the specification words it: the agent's own entry, then
  the entries of the other agents in index order.
\<close>

definition own_view :: "'a list \<Rightarrow> nat \<Rightarrow> 'a list" where
  "own_view xs i = xs ! i # take i xs @ drop (Suc i) xs"

lemma others_enumerate:
  "map snd (filter (\<lambda>(z, x). z \<noteq> i) (enumerate m xs)) =
     (if i < m then xs else take (i - m) xs @ drop (Suc (i - m)) xs)"
proof (induction xs arbitrary: m)
  case Nil
  show ?case by simp
next
  case (Cons x xs)
  show ?case
  proof (cases "i < m")
    case True
    then show ?thesis using Cons [of "Suc m"] by simp
  next
    case False
    show ?thesis
    proof (cases "i = m")
      case True
      then show ?thesis using Cons [of "Suc m"] by simp
    next
      case ne: False
      with False have gt: "m < i" by simp
      then have "i - m = Suc (i - Suc m)" by simp
      then show ?thesis using Cons [of "Suc m"] gt ne by simp
    qed
  qed
qed

lemma others_eq: "others xs i = take i xs @ drop (Suc i) xs"
  using others_enumerate [of i 0 xs] by (simp add: others_def)

lemma own_first_eq_Inr: "own_first xs i = Inr v \<longleftrightarrow> i < length xs \<and> v = own_view xs i"
  by (auto simp: own_first_def bindE_eq_Inr py_index_eq_Inr others_eq own_view_def)

lemma length_cp_k_ij [simp]: "length (cp_k_ij env k) = cp_n_hh env"
  by (simp add: cp_k_ij_def)

lemma cp_obs_perfirm_eq_Inr:
  "cp_obs_perfirm env k_ij ids agg = Inr obs \<longleftrightarrow>
     cp_n_hh env \<le> length k_ij \<and> cp_n_hh env \<le> length ids \<and>
     obs = agent_dict (cp_n_hh env) (\<lambda>i. (concat (own_view k_ij i), own_view ids i, agg))"
  (is "?lhs \<longleftrightarrow> ?rhs")
proof -
  let ?f = "\<lambda>i. bindE (own_first k_ij i) (\<lambda>k_ij_perfirm.
                    bindE (own_first ids i) (\<lambda>shocks_idtc_perfirm.
                    Inr (concat k_ij_perfirm, shocks_idtc_perfirm, agg)))"
  let ?g = "\<lambda>i. (concat (own_view k_ij i), own_view ids i, agg)"
  have each: "?f i = Inr v \<longleftrightarrow> i < length k_ij \<and> i < length ids \<and> v = ?g i" for i v
    by (auto simp: bindE_eq_Inr own_first_eq_Inr)
  have rows: "py_list_comp ?f (cp_n_hh env) = Inr rows \<longleftrightarrow>
        cp_n_hh env \<le> length k_ij \<and> cp_n_hh env \<le> length ids \<and> rows = map ?g [0..<cp_n_hh env]"
    for rows
  proof
    assume a: "py_list_comp ?f (cp_n_hh env) = Inr rows"
    then have len: "length rows = cp_n_hh env"
      and e: "\<And>i. i < cp_n_hh env \<Longrightarrow> i < length k_ij \<and> i < length ids \<and> rows ! i = ?g i"
      unfolding py_list_comp_Inr_iff each by simp_all
    have "cp_n_hh env \<le> length k_ij \<and> cp_n_hh env \<le> length ids"
    proof (cases "cp_n_hh env")
      case 0 then show ?thesis by simp
    next
      case (Suc m)
      with e [of m] show ?thesis by simp
    qed
    moreover have "rows = map ?g [0..<cp_n_hh env]"
      by (rule map_upt_eqI [OF len]) (simp add: e)
    ultimately show "cp_n_hh env \<le> length k_ij \<and> cp_n_hh env \<le> length ids \<and>
        rows = map ?g [0..<cp_n_hh env]" by simp
  next
    assume "cp_n_hh env \<le> length k_ij \<and> cp_n_hh env \<le> length ids \<and>
        rows = map ?g [0..<cp_n_hh env]"
    then show "py_list_comp ?f (cp_n_hh env) = Inr rows"
      unfolding py_list_comp_Inr_iff each by simp
  qed
  show ?thesis
    unfolding cp_obs_perfirm_def bindE_eq_Inr rows
    by (auto simp: agent_dict_def)
qed

lemma cp_step_eq_Inr:
  "Capital_planner_ma_step env rnd action_dict = Inr r \<longleftrightarrow>
     (\<exists>t L ids_new agg_new obs.
        cp_timestep env = Some t \<and>
        Capital_planner_ma_step_vars env action_dict = Inr L \<and>
        cp_update_shock env (t + 1) rnd (l_shocks_idtc_id L) (l_shock_agg_id L) = Inr (ids_new, agg_new) \<and>
        cp_obs_perfirm env (l_k_ij_new L) ids_new agg_new = Inr obs \<and>
        r = \<lparr> cpr_env = env\<lparr>cp_timestep := Some (t + 1), cp_obs := Some obs\<rparr>,
              cpr_obs = obs,
              cpr_rew = agent_dict (cp_n_hh env) (\<lambda>i. np_mean (l_utility_i L)),
              cpr_done = (\<not> t + 1 < cp_horizon env),
              cpr_info = cp_step_info env L \<rparr>)"
  unfolding Capital_planner_ma_step_def
  by (cases "cp_timestep env") (auto simp: bindE_eq_Inr Let_def)

lemma cp_reset_eq_Inr:
  "Capital_planner_ma_reset env rnd = Inr (env', obs) \<longleftrightarrow>
     (\<exists>k_init ids agg.
        cp_reset_init env rnd = Inr (k_init, ids, agg) \<and>
        cp_obs_perfirm env (cp_k_ij env k_init) ids agg = Inr obs \<and>
        env' = env\<lparr>cp_timestep := Some 0, cp_obs := Some obs\<rparr>)"
  unfolding Capital_planner_ma_reset_def
  by (auto simp: bindE_eq_Inr)

section \<open>Properties of Townsend\<close>

lemma ts_reset_init_unset:
  "ts_n_firms env = None \<Longrightarrow> ts_reset_init env rnd = Inl (AttributeError ''n_firms'')"
  by (simp add: ts_reset_init_def py_getattr_def)

lemma Townsend_reset_unset:
  "ts_n_firms env = None \<Longrightarrow> Townsend_reset env rnd = Inl (AttributeError ''n_firms'')"
  by (simp add: Townsend_reset_def ts_reset_init_unset)

lemma ts_n_firms_init_attrs: "ts_n_firms (Townsend_init_attrs gen cfg) = None"
  by (simp add: Townsend_init_attrs_def)

text \<open>
  C5 (the code against the claim). \<^verbatim>\<open>Townsend.reset\<close> on a freshly constructed
  object raises AttributeError in every mode and for every configuration: each of
  its three branches reads \<^verbatim>\<open>self.n_firms\<close>, which the constructor never assigns. A
  configuration with \<^verbatim>\<open>normalize\<close> does not even construct, since the constructor
  then calls \<^verbatim>\<open>reset\<close> through \<^verbatim>\<open>random_sample\<close>.
\<close>

theorem Townsend_reset_raises:
  "Townsend_reset (Townsend_init_attrs gen cfg) rnd = Inl (AttributeError ''n_firms'')
   \<and> Townsend_init gen rnd cfg =
       (if tc_normalize cfg then Inl (AttributeError ''n_firms'')
        else Inr (Townsend_init_attrs gen cfg))"
  by (simp add: Townsend_init_def Townsend_random_sample_def Townsend_reset_unset
      ts_n_firms_init_attrs)

lemma ts_obs_perindustry_eq_Inr:
  "ts_obs_perindustry env k prices = Inr obs \<longleftrightarrow>
     ts_n_industries env \<le> length prices \<and> ts_n_industries env \<le> length k \<and>
     obs = agent_dict (ts_n_industries env) (\<lambda>i. k ! i # own_view prices i)"
  (is "?lhs \<longleftrightarrow> ?rhs")
proof -
  let ?n = "ts_n_industries env"
  have pp: "py_list_comp (\<lambda>i. own_first prices i) ?n = Inr pp \<longleftrightarrow>
              ?n \<le> length prices \<and> pp = map (own_view prices) [0..<?n]" for pp
  proof
    assume a: "py_list_comp (\<lambda>i. own_first prices i) ?n = Inr pp"
    then have len: "length pp = ?n"
      and e: "\<And>i. i < ?n \<Longrightarrow> i < length prices \<and> pp ! i = own_view prices i"
      unfolding py_list_comp_Inr_iff own_first_eq_Inr by simp_all
    have "?n \<le> length prices"
    proof (cases ?n)
      case 0 then show ?thesis by simp
    next
      case (Suc m) with e [of m] show ?thesis by simp
    qed
    moreover have "pp = map (own_view prices) [0..<?n]"
      by (rule map_upt_eqI [OF len]) (simp add: e)
    ultimately show "?n \<le> length prices \<and> pp = map (own_view prices) [0..<?n]" by simp
  next
    assume "?n \<le> length prices \<and> pp = map (own_view prices) [0..<?n]"
    then show "py_list_comp (\<lambda>i. own_first prices i) ?n = Inr pp"
      unfolding py_list_comp_Inr_iff own_first_eq_Inr by simp
  qed
  have rows: "py_list_comp (\<lambda>i. bindE (py_index k i) (\<lambda>ki. Inr (ki # pp ! i))) ?n = Inr rows \<longleftrightarrow>
              ?n \<le> length k \<and> rows = map (\<lambda>i. k ! i # pp ! i) [0..<?n]" for rows pp
  proof
    assume a: "py_list_comp (\<lambda>i. bindE (py_index k i) (\<lambda>ki. Inr (ki # pp ! i))) ?n = Inr rows"
    then have len: "length rows = ?n"
      and e: "\<And>i. i < ?n \<Longrightarrow> i < length k \<and> rows ! i = k ! i # pp ! i"
      unfolding py_list_comp_Inr_iff bindE_eq_Inr py_index_eq_Inr by auto
    have "?n \<le> length k"
    proof (cases ?n)
      case 0 then show ?thesis by simp
    next
      case (Suc m) with e [of m] show ?thesis by simp
    qed
    moreover have "rows = map (\<lambda>i. k ! i # pp ! i) [0..<?n]"
      by (rule map_upt_eqI [OF len]) (simp add: e)
    ultimately show "?n \<le> length k \<and> rows = map (\<lambda>i. k ! i # pp ! i) [0..<?n]" by simp
  next
    assume "?n \<le> length k \<and> rows = map (\<lambda>i. k ! i # pp ! i) [0..<?n]"
    then show "py_list_comp (\<lambda>i. bindE (py_index k i) (\<lambda>ki. Inr (ki # pp ! i))) ?n = Inr rows"
      unfolding py_list_comp_Inr_iff bindE_eq_Inr py_index_eq_Inr by simp
  qed
  show ?thesis
    unfolding ts_obs_perindustry_def bindE_eq_Inr pp rows
    by (auto simp: agent_dict_def)
qed

lemma Townsend_step_eq_Inr:
  "Townsend_step env rnd action_dict = Inr r \<longleftrightarrow>
     (\<exists>t g shock_idtc shock_agg u s y prices k_new obs.
        ts_timestep env = Some t \<and> ts_obs_global env = Some g \<and>
        ts_step_shocks env (t + 1) rnd = Inr (shock_idtc, shock_agg) \<and>
        ts_u env (ts_rho env * g_theta g + shock_agg) shock_idtc = Inr u \<and>
        ts_s env action_dict = Inr s \<and>
        ts_y env (g_k g) = Inr y \<and>
        ts_prices env y u = Inr prices \<and>
        ts_k_new env (g_k g) s y = Inr k_new \<and>
        ts_obs_perindustry env k_new prices = Inr obs \<and>
        r = \<lparr> tsr_env = env\<lparr> ts_timestep := Some (t + 1),
                             ts_obs := Some obs,
                             ts_obs_global :=
                               Some \<lparr> g_k = k_new, g_prices = prices,
                                      g_theta = ts_rho env * g_theta g + shock_agg,
                                      g_shock_agg = shock_agg, g_shock_idtc = shock_idtc,
                                      g_shock_rent = ts_shock_rent env rnd \<rparr> \<rparr>,
              tsr_obs = obs,
              tsr_rew = agent_dict (ts_n_industries env)
                          (\<lambda>i. (ts_utility env prices s y (ts_shock_rent env rnd) (g_k g) k_new ! i
                                  - ts_rew_mean env) / ts_rew_std env),
              tsr_done = (\<not> t + 1 < ts_horizon env),
              tsr_info = ts_step_info env s
                           (ts_utility env prices s y (ts_shock_rent env rnd) (g_k g) k_new)
                           y (g_k g) k_new prices \<rparr>)"
  unfolding Townsend_step_def
  by (cases "ts_timestep env")
     (auto simp: bindE_eq_Inr py_getattr_eq_Inr Let_def)

section \<open>A capital-planner episode used as example\<close>

lemma upt_2: "[0..<2] = [0, 1]" by (simp add: upt_rec numeral_2_eq_2)
lemma upt_3: "[0..<3] = [0, 1, 2]" by (simp add: upt_rec numeral_3_eq_3)
lemma upt_6: "[0..<6] = [0, 1, 2, 3, 4, 5]" by (simp add: upt_rec eval_nat_numeral)
lemma upt_1_3: "[Suc 0..<3] = [1, 2]" by (simp add: upt_rec numeral_3_eq_3)

text \<open>
  Three households, two capital goods, a horizon of two periods, evaluation and
  analysis mode both on, and \<^verbatim>\<open>max_savings = 1\<close> so that a budget can be exceeded;
  everything else at its default.
\<close>

definition cp_example_config :: Capital_planner_ma_config where
  "cp_example_config =
     Capital_planner_ma_default_config
       \<lparr> cc_horizon := 2, cc_n_hh := 3, cc_n_capital := 2,
         cc_eval_mode := True, cc_analysis_mode := True, cc_max_savings := 1 \<rparr>"

definition cp_example_k_ss :: real where
  "cp_example_k_ss = py_pow (1627 / 61250) (- (10 / 17))"

definition cp_example_env :: Capital_planner_ma where
  "cp_example_env =
     \<lparr> cp_horizon = 2, cp_n_hh = 3, cp_n_capital = 2, cp_eval_mode = True,
       cp_analysis_mode = True, cp_max_savings = 1, cp_bgt_penalty = 1,
       cp_shock_idtc_values = [0.9, 1.1],
       cp_shock_idtc_transition = [[0.9, 0.1], [0.1, 0.9]],
       cp_shock_agg_values = [0.8, 1.2],
       cp_shock_agg_transition = [[0.95, 0.05], [0.05, 0.95]],
       cp_delta = 0.04, cp_alpha = 0.3, cp_phi = 0.5, cp_beta = 0.98,
       cp_k_ss = cp_example_k_ss,
       cp_max_s_ij = 0.75,
       cp_shocks_eval_agg = Some [0 \<mapsto> 0, 1 \<mapsto> 0, 2 \<mapsto> 0],
       cp_shocks_eval_idtc = Some [0 \<mapsto> [1, 0, 1], 1 \<mapsto> [1, 0, 1], 2 \<mapsto> [1, 0, 1]],
       cp_shocks_analysis_agg = Some [0 \<mapsto> 0, 1 \<mapsto> 0, 2 \<mapsto> 0],
       cp_shocks_analysis_idtc = Some [0 \<mapsto> [0, 0, 0], 1 \<mapsto> [0, 0, 0], 2 \<mapsto> [0, 0, 0]],
       cp_timestep = None, cp_obs = None \<rparr>"

lemma cp_example_init: "Capital_planner_ma_init cp_example_config = Inr cp_example_env"
  by (simp add: Capital_planner_ma_init_def cp_steady_state_def cp_example_config_def
      Capital_planner_ma_default_config_def
      py_div_def py_float_pow_def cp_build_eval_agg_def cp_build_eval_idtc_def
      cp_build_analysis_agg_def cp_build_analysis_idtc_def
      build_schedule_def py_list_comp_def upt_3 upt_2 upt_1_3 schedule_flag_def py_index_def
      cp_example_env_def cp_example_k_ss_def fun_upd_twist)

definition cp_example_k0 :: "real list" where
  "cp_example_k0 =
     [cp_example_k_ss * 0.9, cp_example_k_ss * 0.8, cp_example_k_ss * 0.9,
      cp_example_k_ss * 0.8, cp_example_k_ss * 0.9, cp_example_k_ss * 0.8]"

definition cp_example_obs0 :: "(nat \<times> cp_observation) list" where
  "cp_example_obs0 =
     [(0, (cp_example_k0, [1, 0, 1], 0)),
      (1, (cp_example_k0, [0, 1, 1], 0)),
      (2, (cp_example_k0, [1, 1, 0], 0))]"

definition cp_example_state0 :: Capital_planner_ma where
  "cp_example_state0 = cp_example_env\<lparr>cp_timestep := Some 0, cp_obs := Some cp_example_obs0\<rparr>"

lemma cp_example_reset:
  "Capital_planner_ma_reset cp_example_env rnd = Inr (cp_example_state0, cp_example_obs0)"
  by (simp add: Capital_planner_ma_reset_def cp_reset_init_def cp_example_env_def
      py_getattr_def py_getitem_def cp_k_init_fixed_def cp_k_ij_def cp_obs_perfirm_def
      own_first_def others_def py_index_def py_list_comp_def upt_3 upt_6 agent_dict_def
      cp_example_state0_def cp_example_obs0_def cp_example_k0_def)

text \<open>
  The first household asks for the most of both goods, the second for half of the
  first good only, the third for nothing.
\<close>

definition cp_example_actions :: "nat \<rightharpoonup> real list" where
  "cp_example_actions = [0 \<mapsto> [1, 1], 1 \<mapsto> [0, - 1], 2 \<mapsto> [- 1, - 1]]"

lemma cp_example_state0_fields:
  "cp_n_hh cp_example_state0 = 3" "cp_n_capital cp_example_state0 = 2"
  "cp_max_s_ij cp_example_state0 = 3 / 4" "cp_bgt_penalty cp_example_state0 = 1"
  "cp_horizon cp_example_state0 = 2" "cp_timestep cp_example_state0 = Some 0"
  "cp_obs cp_example_state0 = Some cp_example_obs0"
  "cp_eval_mode cp_example_state0" "cp_analysis_mode cp_example_state0"
  "cp_phi cp_example_state0 = 1 / 2"
  "cp_shock_idtc_values cp_example_state0 = [0.9, 1.1]"
  "cp_shock_agg_values cp_example_state0 = [0.8, 1.2]"
  by (simp_all add: cp_example_state0_def cp_example_env_def)

lemma less_3_cases: "i < (3::nat) \<longleftrightarrow> i = 0 \<or> i = 1 \<or> i = 2"
  by auto

lemma less_2_cases: "j < (2::nat) \<longleftrightarrow> j = 0 \<or> j = 1"
  by auto

lemma cp_example_actions_ok: "cp_actions_ok cp_example_state0 cp_example_actions"
  by (auto simp: cp_actions_ok_def cp_example_state0_fields cp_example_actions_def
      less_3_cases less_2_cases)

lemma cp_example_unsquashed:
  "cp_unsquashed cp_example_state0 cp_example_actions = [[3 / 4, 3 / 4], [3 / 8, 0], [0, 0]]"
  by (simp add: cp_unsquashed_def cp_example_state0_fields cp_example_actions_def upt_3 upt_2)

lemma cp_example_unsquash:
  "cp_unsquash cp_example_state0 cp_example_actions = Inr [[3 / 4, 3 / 4], [3 / 8, 0], [0, 0]]"
  by (simp add: cp_unsquash_eq_Inr cp_example_actions_ok cp_example_unsquashed)

lemma cp_example_correct_bgt:
  "cp_correct_bgt cp_example_state0 [[3 / 4, 3 / 4], [3 / 8, 0], [0, 0]] =
     ([[1 / 2, 1 / 2], [3 / 8, 0], [0, 0]], [1, 0, 0])"
  by (simp add: cp_correct_bgt_def cp_correct_bgt_i_def cp_example_state0_fields upt_3 upt_2)

lemma cp_example_step_vars:
  "Capital_planner_ma_step_vars cp_example_state0 cp_example_actions =
     Inr (cp_vars cp_example_state0 cp_example_k0 [1, 0, 1] 0 [[3 / 4, 3 / 4], [3 / 8, 0], [0, 0]])"
  unfolding cp_step_vars_eq_Inr
  by (simp add: cp_example_state0_fields cp_example_obs0_def cp_example_unsquash
      cp_example_k0_def less_3_cases)

theorem Capital_planner_ma_budget_correction_witness:
  "cp_actions_ok cp_example_state0 cp_example_actions
   \<and> cp_unsquash cp_example_state0 cp_example_actions = Inr [[3 / 4, 3 / 4], [3 / 8, 0], [0, 0]]
   \<and> 1 < sum_list ([[3 / 4, 3 / 4], [3 / 8, 0], [0, 0 :: real]] ! 0)
   \<and> sum_list (fst (cp_correct_bgt cp_example_state0 [[3 / 4, 3 / 4], [3 / 8, 0], [0, 0]]) ! 0) = 1
   \<and> snd (cp_correct_bgt cp_example_state0 [[3 / 4, 3 / 4], [3 / 8, 0], [0, 0]]) ! 0 = 1
   \<and> sum_list ([[3 / 4, 3 / 4], [3 / 8, 0], [0, 0 :: real]] ! 1) \<le> 1
   \<and> fst (cp_correct_bgt cp_example_state0 [[3 / 4, 3 / 4], [3 / 8, 0], [0, 0]]) ! 1 = [3 / 8, 0]
   \<and> snd (cp_correct_bgt cp_example_state0 [[3 / 4, 3 / 4], [3 / 8, 0], [0, 0]]) ! 1 = 0"
proof -
  have i0: "0 < cp_n_hh cp_example_state0" and i1: "1 < cp_n_hh cp_example_state0"
    by (simp_all add: cp_example_state0_fields)
  from Capital_planner_ma_budget_correction [OF cp_example_actions_ok i0]
       Capital_planner_ma_budget_correction [OF cp_example_actions_ok i1]
  show ?thesis
    using cp_example_actions_ok by (auto simp: cp_example_unsquash)
qed

section \<open>Utility and reward of the capital planner\<close>

lemma cp_vars_utility_nth:
  "i < cp_n_hh env \<Longrightarrow>
     l_utility_i (cp_vars env k ids agg s0) ! i =
       (if 0 < l_c_i (cp_vars env k ids agg s0) ! i
        then ln (l_c_i (cp_vars env k ids agg s0) ! i)
        else - cp_bgt_penalty env)"
  by (simp add: cp_vars_def Let_def cp_utility_i_def)

lemma cp_vars_c_nth:
  "i < cp_n_hh env \<Longrightarrow>
     l_c_i (cp_vars env k ids agg s0) ! i =
       l_y_i (cp_vars env k ids agg s0) ! i * (1 - sum_list (l_s_ij (cp_vars env k ids agg s0) ! i))"
  by (simp add: cp_vars_def Let_def cp_c_i_def)

lemma cp_step_vars_cp_vars:
  "Capital_planner_ma_step_vars env action_dict = Inr L \<Longrightarrow> \<exists>k ids agg s0. L = cp_vars env k ids agg s0"
  unfolding cp_step_vars_eq_Inr by blast

text \<open>
  C3, as the code has it. For every household, the utility that enters the reward is
  \<open>ln c\<close> when its consumption \<open>c = y * (1 - sum of its savings rates)\<close> is
  positive, and otherwise the negation of the configured \<^verbatim>\<open>bgt_penalty\<close>; the reward
  of every household is the mean of these utilities.
\<close>

theorem Capital_planner_ma_utility:
  assumes "Capital_planner_ma_step_vars env action_dict = Inr L" and "i < cp_n_hh env"
  shows "l_c_i L ! i = l_y_i L ! i * (1 - sum_list (l_s_ij L ! i))
       \<and> (0 < l_c_i L ! i \<longrightarrow> l_utility_i L ! i = ln (l_c_i L ! i))
       \<and> (l_c_i L ! i \<le> 0 \<longrightarrow> l_utility_i L ! i = - cp_bgt_penalty env)
       \<and> (\<forall>rnd r. Capital_planner_ma_step env rnd action_dict = Inr r
             \<longrightarrow> map_of (cpr_rew r) i = Some (np_mean (l_utility_i L)))"
proof -
  from assms(1) obtain k ids agg s0 where L: "L = cp_vars env k ids agg s0"
    using cp_step_vars_cp_vars by blast
  have "\<forall>rnd r. Capital_planner_ma_step env rnd action_dict = Inr r
             \<longrightarrow> map_of (cpr_rew r) i = Some (np_mean (l_utility_i L))"
    using assms by (auto simp: cp_step_eq_Inr map_of_agent_dict)
  then show ?thesis
    using assms(2) by (simp add: L cp_vars_utility_nth cp_vars_c_nth)
qed

definition cp_example_vars :: cp_step_vars where
  "cp_example_vars =
     cp_vars cp_example_state0 cp_example_k0 [1, 0, 1] 0 [[3 / 4, 3 / 4], [3 / 8, 0], [0, 0]]"

lemma cp_example_step_vars':
  "Capital_planner_ma_step_vars cp_example_state0 cp_example_actions = Inr cp_example_vars"
  by (simp only: cp_example_step_vars cp_example_vars_def)

lemma cp_example_c0:
  "l_c_i cp_example_vars ! 0 = 0"
proof -
  have "l_s_ij cp_example_vars = [[1 / 2, 1 / 2], [3 / 8, 0], [0, 0]]"
    by (simp add: cp_example_vars_def cp_vars_def Let_def cp_example_correct_bgt)
  then show ?thesis
    unfolding cp_example_vars_def
    by (simp add: cp_vars_c_nth cp_example_state0_fields)
qed

lemma cp_example_utility0: "l_utility_i cp_example_vars ! 0 = - 1"
proof -
  have "l_utility_i cp_example_vars ! 0 =
          (if 0 < l_c_i cp_example_vars ! 0 then ln (l_c_i cp_example_vars ! 0)
           else - cp_bgt_penalty cp_example_state0)"
    unfolding cp_example_vars_def
    by (rule cp_vars_utility_nth) (simp add: cp_example_state0_fields)
  then show ?thesis
    by (simp add: cp_example_c0 cp_example_state0_fields)
qed

theorem Capital_planner_ma_utility_witness:
  "Capital_planner_ma_step_vars cp_example_state0 cp_example_actions =
     Inr cp_example_vars
   \<and> 0 < cp_n_hh cp_example_state0
   \<and> l_c_i cp_example_vars ! 0 \<le> 0
   \<and> l_utility_i cp_example_vars ! 0 = - 1"
  using Capital_planner_ma_utility [OF cp_example_step_vars', of 0]
  by (simp add: cp_example_step_vars' cp_example_state0_fields cp_example_c0)

text \<open>
  The same step against the claim as worded: household 0 has consumption 0, the
  configured \<^verbatim>\<open>bgt_penalty\<close> is 1, and its utility is \<open>-1\<close>, not the constant.
\<close>

theorem Capital_planner_ma_utility_counterexample:
  "map_sum id (\<lambda>L. (l_c_i L ! 0, l_utility_i L ! 0))
     (Capital_planner_ma_step_vars cp_example_state0 cp_example_actions) = Inr (0, - 1)
   \<and> cp_bgt_penalty cp_example_state0 = 1
   \<and> map_sum id (\<lambda>L. l_utility_i L ! 0 = cp_bgt_penalty cp_example_state0)
        (Capital_planner_ma_step_vars cp_example_state0 cp_example_actions) = Inr False"
  by (simp add: cp_example_step_vars' cp_example_c0 cp_example_utility0 cp_example_state0_fields)

lemma py_list_comp_eq_Inr_map:
  assumes each: "\<And>i v. i < n \<Longrightarrow> (f i = Inr v \<longleftrightarrow> P i \<and> v = g i)"
  shows "py_list_comp f n = Inr xs \<longleftrightarrow> (\<forall>i<n. P i) \<and> xs = map g [0..<n]"
proof
  assume "py_list_comp f n = Inr xs"
  then have len: "length xs = n" and e: "\<And>i. i < n \<Longrightarrow> P i \<and> xs ! i = g i"
    unfolding py_list_comp_Inr_iff using each by auto
  have "xs = map g [0..<n]"
    by (rule map_upt_eqI [OF len]) (simp add: e)
  with e show "(\<forall>i<n. P i) \<and> xs = map g [0..<n]" by blast
next
  assume "(\<forall>i<n. P i) \<and> xs = map g [0..<n]"
  then show "py_list_comp f n = Inr xs"
    unfolding py_list_comp_Inr_iff using each by simp
qed

lemma py_float_pow_eq_Inr:
  "py_float_pow x a = Inr p \<longleftrightarrow>
     \<not> (x = 0 \<and> a < 0) \<and> \<not> (x < 0 \<and> a \<noteq> of_int \<lfloor>a\<rfloor>) \<and> p = py_pow x a"
  by (auto simp: py_float_pow_def)

definition ts_actions_ok :: "Townsend \<Rightarrow> (nat \<rightharpoonup> real list) \<Rightarrow> bool" where
  "ts_actions_ok env action_dict = (\<forall>i<ts_n_industries env. \<exists>a. action_dict i = Some a \<and> a \<noteq> [])"

lemma ts_s_eq_Inr:
  "ts_s env action_dict = Inr s \<longleftrightarrow>
     ts_actions_ok env action_dict \<and>
     s = map (\<lambda>i. (the (action_dict i) ! 0 + 1) / 2 * ts_max_savings env) [0..<ts_n_industries env]"
  unfolding ts_s_def ts_actions_ok_def
  by (rule py_list_comp_eq_Inr_map)
     (auto simp: bindE_eq_Inr py_getitem_eq_Inr py_index_eq_Inr)

lemma ts_y_eq_Inr:
  "ts_y env k = Inr y \<longleftrightarrow>
     (\<forall>i<ts_n_industries env. i < length k \<and> (\<exists>p. py_float_pow (k ! i) (ts_alpha env) = Inr p)) \<and>
     y = map (\<lambda>i. ts_tfp env * py_pow (k ! i) (ts_alpha env)) [0..<ts_n_industries env]"
  unfolding ts_y_def
  by (rule py_list_comp_eq_Inr_map)
     (auto simp: bindE_eq_Inr py_index_eq_Inr py_float_pow_eq_Inr)

lemma ts_u_eq_Inr:
  "ts_u env theta shock_idtc = Inr u \<longleftrightarrow>
     (\<forall>i<ts_n_industries env. i < length shock_idtc) \<and>
     u = map (\<lambda>i. theta + shock_idtc ! i) [0..<ts_n_industries env]"
  unfolding ts_u_def
  by (rule py_list_comp_eq_Inr_map) (auto simp: bindE_eq_Inr py_index_eq_Inr)

text \<open>The ceiling \<^verbatim>\<open>step\<close> cuts the next stock at.\<close>

definition ts_ceiling :: "Townsend \<Rightarrow> real" where
  "ts_ceiling env = (if ts_norm_ind env then the (ts_max_cap_norm env) else ts_max_cap env)"

lemma ts_k_new_eq_Inr:
  "ts_k_new env k s y = Inr k_new \<longleftrightarrow>
     (ts_norm_ind env \<longrightarrow> (\<forall>i<ts_n_industries env. ts_max_cap_norm env \<noteq> None)) \<and>
     k_new = map (\<lambda>i. min (k ! i * (1 - ts_delta env) + s ! i * y ! i) (ts_ceiling env))
               [0..<ts_n_industries env]"
proof (cases "ts_norm_ind env")
  case True
  have "py_list_comp
          (\<lambda>i. bindE (py_getattr ''max_cap_norm'' (ts_max_cap_norm env)) (\<lambda>mc.
                Inr (min (k ! i * (1 - ts_delta env) + s ! i * y ! i) mc)))
          (ts_n_industries env) = Inr k_new \<longleftrightarrow>
        (\<forall>i<ts_n_industries env. ts_max_cap_norm env \<noteq> None) \<and>
        k_new = map (\<lambda>i. min (k ! i * (1 - ts_delta env) + s ! i * y ! i) (the (ts_max_cap_norm env)))
                  [0..<ts_n_industries env]"
    by (rule py_list_comp_eq_Inr_map) (auto simp: bindE_eq_Inr py_getattr_eq_Inr)
  then show ?thesis
    by (simp add: ts_k_new_def ts_ceiling_def True)
next
  case False
  then show ?thesis
    by (auto simp: ts_k_new_def ts_ceiling_def)
qed

lemma ts_prices_plain:
  "\<not> ts_norm_ind env \<Longrightarrow>
     ts_prices env y u =
       Inr (map (\<lambda>i. max (ts_max_price env - ts_A env * y ! i + u ! i) 0) [0..<ts_n_industries env])"
  by (simp add: ts_prices_def)

lemma ts_prices_length: "ts_prices env y u = Inr prices \<Longrightarrow> length prices = ts_n_industries env"
  by (auto simp: ts_prices_def py_list_comp_Inr_iff split: if_splits)

lemma ts_utility_nth:
  "i < ts_n_industries env \<Longrightarrow>
     ts_utility env prices s y shock_rent k k_new ! i =
       prices ! i * (1 - s ! i) * y ! i - shock_rent ! i * k ! i - ts_phi env * (k_new ! i - k ! i) ^ 2"
  by (simp add: ts_utility_def)

section \<open>A Townsend episode used as example\<close>

text \<open>
  A generator whose draws alternate between half the scale and minus half the scale;
  two industries, a horizon of two periods, evaluation and analysis mode on. The
  object is the constructed one after a caller has assigned \<^verbatim>\<open>n_firms = 1\<close>, without
  which \<^verbatim>\<open>reset\<close> raises.
\<close>

definition ts_example_gen :: rng_normal where
  "ts_example_gen seed n scale = (if even n then scale / 2 else - (scale / 2))"

definition ts_example_config :: Townsend_config where
  "ts_example_config =
     Townsend_default_config
       \<lparr> tc_horizon := 2, tc_n_industries := 2, tc_eval_mode := True, tc_analysis_mode := True \<rparr>"

definition ts_example_env :: Townsend where
  "ts_example_env = (Townsend_init_attrs ts_example_gen ts_example_config)\<lparr>ts_n_firms := Some 1\<rparr>"

lemma ts_example_init:
  "Townsend_init ts_example_gen rnd ts_example_config
     = Inr (Townsend_init_attrs ts_example_gen ts_example_config)"
  by (simp add: Townsend_init_def ts_example_config_def Townsend_default_config_def)

lemma ts_example_seeded:
  "ts_shocks_agg_seeded ts_example_env = [0 \<mapsto> 1 / 2, 1 \<mapsto> - (1 / 2), 2 \<mapsto> 1 / 2]"
  "ts_shocks_idtc_seeded ts_example_env =
     [0 \<mapsto> [- (1 / 2), 1 / 2], 1 \<mapsto> [- (1 / 2), 1 / 2], 2 \<mapsto> [- (1 / 2), 1 / 2]]"
  by (simp_all add: ts_example_env_def Townsend_init_attrs_def ts_build_agg_seeded_def
      ts_build_idtc_seeded_def ts_example_config_def Townsend_default_config_def
      ts_example_gen_def ts_seed_def upt_3 upt_2 fun_upd_twist)

lemma ts_example_env_fields:
  "ts_n_industries ts_example_env = 2" "ts_horizon ts_example_env = 2"
  "ts_eval_mode ts_example_env" "ts_analysis_mode ts_example_env"
  "\<not> ts_rental_shock ts_example_env" "\<not> ts_simul_mode ts_example_env"
  "\<not> ts_norm_ind ts_example_env"
  "ts_max_savings ts_example_env = 3 / 5" "ts_k_ss ts_example_env = 1"
  "ts_max_price ts_example_env = 60" "ts_max_cap ts_example_env = 100"
  "ts_rew_mean ts_example_env = 0" "ts_rew_std ts_example_env = 1"
  "ts_delta ts_example_env = 0" "ts_alpha ts_example_env = 1" "ts_phi ts_example_env = 1"
  "ts_A ts_example_env = 1" "ts_tfp ts_example_env = 1" "ts_rho ts_example_env = 4 / 5"
  "ts_theta_0 ts_example_env = 0" "ts_n_firms ts_example_env = Some 1"
  by (simp_all add: ts_example_env_def Townsend_init_attrs_def ts_example_config_def
      Townsend_default_config_def)

definition ts_example_global0 :: Townsend_obs_global where
  "ts_example_global0 =
     \<lparr> g_k = [9 / 10, 4 / 5], g_prices = [293 / 5, 597 / 10], g_theta = 0,
       g_shock_agg = 1 / 2, g_shock_idtc = [- (1 / 2), 1 / 2], g_shock_rent = [] \<rparr>"

definition ts_example_obs0 :: "(nat \<times> real list) list" where
  "ts_example_obs0 = [(0, [9 / 10, 293 / 5, 597 / 10]), (1, [4 / 5, 597 / 10, 293 / 5])]"

definition ts_example_state0 :: Townsend where
  "ts_example_state0 =
     ts_example_env\<lparr> ts_timestep := Some 0, ts_obs := Some ts_example_obs0,
                     ts_obs_global := Some ts_example_global0 \<rparr>"

lemma py_pow_one: "0 < x \<Longrightarrow> py_pow x 1 = x"
  by (simp add: py_pow_def)

lemma ts_example_reset:
  "Townsend_reset ts_example_env rnd = Inr (ts_example_state0, ts_example_obs0)"
  by (simp add: Townsend_reset_def ts_reset_init_def ts_example_env_fields ts_example_seeded
      py_getattr_def py_getitem_def ts_k_init_fixed_def ts_u_def ts_y_def ts_p_init_def
      ts_obs_perindustry_def own_first_def others_def py_index_def py_list_comp_def
      py_float_pow_def py_pow_one upt_2 agent_dict_def
      ts_example_state0_def ts_example_obs0_def ts_example_global0_def)

lemma ts_example_state0_fields:
  "ts_n_industries ts_example_state0 = 2" "ts_horizon ts_example_state0 = 2"
  "ts_eval_mode ts_example_state0" "ts_analysis_mode ts_example_state0"
  "\<not> ts_rental_shock ts_example_state0" "\<not> ts_simul_mode ts_example_state0"
  "\<not> ts_norm_ind ts_example_state0"
  "ts_max_savings ts_example_state0 = 3 / 5"
  "ts_max_price ts_example_state0 = 60" "ts_max_cap ts_example_state0 = 100"
  "ts_rew_mean ts_example_state0 = 0" "ts_rew_std ts_example_state0 = 1"
  "ts_delta ts_example_state0 = 0" "ts_alpha ts_example_state0 = 1" "ts_phi ts_example_state0 = 1"
  "ts_A ts_example_state0 = 1" "ts_tfp ts_example_state0 = 1" "ts_rho ts_example_state0 = 4 / 5"
  "ts_timestep ts_example_state0 = Some 0"
  "ts_obs_global ts_example_state0 = Some ts_example_global0"
  "ts_shocks_agg_seeded ts_example_state0 = [0 \<mapsto> 1 / 2, 1 \<mapsto> - (1 / 2), 2 \<mapsto> 1 / 2]"
  "ts_shocks_idtc_seeded ts_example_state0 =
     [0 \<mapsto> [- (1 / 2), 1 / 2], 1 \<mapsto> [- (1 / 2), 1 / 2], 2 \<mapsto> [- (1 / 2), 1 / 2]]"
  by (simp_all add: ts_example_state0_def ts_example_env_fields ts_example_seeded)

text \<open>Firm 1 saves the most; firm 0 plays \<open>a\<close>.\<close>

definition ts_example_actions :: "real \<Rightarrow> (nat \<rightharpoonup> real list)" where
  "ts_example_actions a = [0 \<mapsto> [a], 1 \<mapsto> [1]]"

lemma ts_example_step_obs:
  assumes "- 1 \<le> a" "a \<le> 1"
  shows "map_sum id tsr_obs (Townsend_step ts_example_state0 rnd (ts_example_actions a)) =
       Inr [(0, [9 / 10 + (a + 1) / 2 * (3 / 5) * (9 / 10), 581 / 10, 296 / 5]),
            (1, [4 / 5 + 3 / 5 * (4 / 5), 296 / 5, 581 / 10])]"
proof -
  have m: "min (9 / 10 + (27 * a + 27) / 100) 100 = 9 / 10 + (27 * a + 27) / 100"
    using assms by (intro min_absorb1) (simp add: field_simps)
  show ?thesis
  by (simp add: Townsend_step_def Let_def ts_example_state0_fields ts_example_global0_def
      py_getattr_def py_getitem_def ts_step_shocks_def ts_shock_rent_def ts_u_def ts_s_def
      ts_y_def ts_prices_def ts_k_new_def
      ts_obs_perindustry_def own_first_def others_def py_index_def py_list_comp_def
      py_float_pow_def py_pow_one upt_2 agent_dict_def ts_example_actions_def m)
qed

section \<open>The next capital stock\<close>

lemma cp_k_ij_nth:
  assumes "i < cp_n_hh env" "j < cp_n_capital env" "cp_n_hh env * cp_n_capital env \<le> length k"
  shows "cp_k_ij env k ! i ! j = k ! (i * cp_n_capital env + j)"
proof -
  have "Suc i * cp_n_capital env \<le> cp_n_hh env * cp_n_capital env"
    using assms(1) by (intro mult_le_mono1) simp
  then have "i * cp_n_capital env + j < length k"
    using assms(2,3) by simp
  then show ?thesis
    using assms(1,2) by (simp add: cp_k_ij_def)
qed

lemma cp_vars_capital:
  assumes "i < cp_n_hh env" "j < cp_n_capital env"
  shows "l_k_ij_new (cp_vars env k ids agg s0) ! i ! j =
           l_k_ij (cp_vars env k ids agg s0) ! i ! j * (1 - cp_delta env)
             + l_inv_ij (cp_vars env k ids agg s0) ! i ! j"
    and "l_inv_ij (cp_vars env k ids agg s0) ! i ! j =
           l_inv_exp_ij (cp_vars env k ids agg s0) ! i ! j
             / max (l_inv_exp_j (cp_vars env k ids agg s0) ! j) 0.0001
             * sqrt (2 / cp_phi env * l_inv_exp_j (cp_vars env k ids agg s0) ! j)"
    and "l_inv_exp_ij (cp_vars env k ids agg s0) ! i ! j =
           l_s_ij (cp_vars env k ids agg s0) ! i ! j * l_y_i (cp_vars env k ids agg s0) ! i"
    and "l_inv_exp_j (cp_vars env k ids agg s0) ! j =
           (\<Sum>h = 0..<cp_n_hh env.
              l_s_ij (cp_vars env k ids agg s0) ! h ! j * l_y_i (cp_vars env k ids agg s0) ! h)"
    and "l_k_ij (cp_vars env k ids agg s0) = cp_k_ij env k"
    and "l_k (cp_vars env k ids agg s0) = k"
  using assms
  by (simp_all add: cp_vars_def Let_def cp_k_ij_new_def cp_inv_ij_def cp_inv_exp_ij_def
      cp_inv_exp_j_def interv_sum_list_conv_sum_set_nat)

text \<open>
  C2, as the code has it. In the capital planner, for every household \<open>i\<close> and
  capital good \<open>j\<close>, the next stock is the old stock times \<open>1 - delta\<close> plus the
  investment, and the investment is the household's share
  \<open>inv_exp i j / max (inv_exp j) 0.0001\<close> of the square-root transformation
  \<open>sqrt (2 / phi * inv_exp j)\<close> of the total expenditure on good \<open>j\<close>; the
  expenditure is \<open>s i j * y i\<close>. In Townsend, the next stock of industry \<open>i\<close> is
  the old stock times \<open>1 - delta\<close> plus \<open>s i * y i\<close> itself, cut at the ceiling by a
  minimum; the quadratic adjustment cost \<open>phi * (k_new i - k i)\<^sup>2\<close> is subtracted from
  the reward and does not transform the investment. In Durable_sgm the next stock is
  the old stock times \<open>1 - depreciation\<close> plus \<open>s\<close>, cut at the upper bound of the
  observation space.
\<close>

theorem next_capital_stock:
  "(\<forall>L i j. Capital_planner_ma_step_vars env action_dict = Inr L
             \<and> i < cp_n_hh env \<and> j < cp_n_capital env \<longrightarrow>
        l_k_ij L ! i ! j = l_k L ! (i * cp_n_capital env + j)
      \<and> l_k_ij_new L ! i ! j = l_k_ij L ! i ! j * (1 - cp_delta env) + l_inv_ij L ! i ! j
      \<and> l_inv_ij L ! i ! j =
          l_inv_exp_ij L ! i ! j / max (l_inv_exp_j L ! j) 0.0001
            * sqrt (2 / cp_phi env * l_inv_exp_j L ! j)
      \<and> l_inv_exp_ij L ! i ! j = l_s_ij L ! i ! j * l_y_i L ! i
      \<and> l_inv_exp_j L ! j = (\<Sum>h = 0..<cp_n_hh env. l_s_ij L ! h ! j * l_y_i L ! h))
   \<and> (\<forall>r g i. Townsend_step tenv trnd taction = Inr r \<and> ts_obs_global tenv = Some g
             \<and> i < ts_n_industries tenv \<longrightarrow>
        (\<exists>g' s y. ts_obs_global (tsr_env r) = Some g'
           \<and> ts_s tenv taction = Inr s \<and> ts_y tenv (g_k g) = Inr y
           \<and> s ! i = (the (taction i) ! 0 + 1) / 2 * ts_max_savings tenv
           \<and> y ! i = ts_tfp tenv * py_pow (g_k g ! i) (ts_alpha tenv)
           \<and> g_k g' ! i = min (g_k g ! i * (1 - ts_delta tenv) + s ! i * y ! i) (ts_ceiling tenv)
           \<and> map_of (tsr_rew r) i =
               Some ((g_prices g' ! i * (1 - s ! i) * y ! i
                      - ts_shock_rent tenv trnd ! i * g_k g ! i
                      - ts_phi tenv * (g_k g' ! i - g_k g ! i) ^ 2
                      - ts_rew_mean tenv) / ts_rew_std tenv)))
   \<and> (\<forall>r k_old a0. Durable_sgm_step denv [a0] = Inr r \<and> ds_obs denv = Some [k_old] \<longrightarrow>
        dr_obs r = [min_high (k_old * (1 - ds_depreciation denv) + (a0 + 1) / 2 * ds_max_saving denv)
                      (ds_observation_space_high denv)])"
proof (intro conjI allI impI)
  fix L i j
  assume a: "Capital_planner_ma_step_vars env action_dict = Inr L
             \<and> i < cp_n_hh env \<and> j < cp_n_capital env"
  then obtain k ids agg s0 where L: "L = cp_vars env k ids agg s0"
    and len: "cp_n_hh env * cp_n_capital env \<le> length k"
    unfolding cp_step_vars_eq_Inr by blast
  from a have ij: "i < cp_n_hh env" "j < cp_n_capital env" by simp_all
  show "l_k_ij L ! i ! j = l_k L ! (i * cp_n_capital env + j)"
    unfolding L cp_vars_capital(5,6) [OF ij] by (rule cp_k_ij_nth [OF ij len])
  show "l_k_ij_new L ! i ! j = l_k_ij L ! i ! j * (1 - cp_delta env) + l_inv_ij L ! i ! j"
    unfolding L by (rule cp_vars_capital(1) [OF ij])
  show "l_inv_ij L ! i ! j =
          l_inv_exp_ij L ! i ! j / max (l_inv_exp_j L ! j) 0.0001
            * sqrt (2 / cp_phi env * l_inv_exp_j L ! j)"
    unfolding L by (rule cp_vars_capital(2) [OF ij])
  show "l_inv_exp_ij L ! i ! j = l_s_ij L ! i ! j * l_y_i L ! i"
    unfolding L by (rule cp_vars_capital(3) [OF ij])
  show "l_inv_exp_j L ! j = (\<Sum>h = 0..<cp_n_hh env. l_s_ij L ! h ! j * l_y_i L ! h)"
    unfolding L by (rule cp_vars_capital(4) [OF ij])
next
  fix r g i
  assume a: "Townsend_step tenv trnd taction = Inr r \<and> ts_obs_global tenv = Some g
             \<and> i < ts_n_industries tenv"
  then have i: "i < ts_n_industries tenv" and g: "ts_obs_global tenv = Some g" by simp_all
  from a obtain t shock_idtc shock_agg u s y prices k_new obs where
    s: "ts_s tenv taction = Inr s" and y: "ts_y tenv (g_k g) = Inr y"
    and k_new: "ts_k_new tenv (g_k g) s y = Inr k_new"
    and r: "r = \<lparr> tsr_env = tenv\<lparr> ts_timestep := Some (t + 1),
                             ts_obs := Some obs,
                             ts_obs_global :=
                               Some \<lparr> g_k = k_new, g_prices = prices,
                                      g_theta = ts_rho tenv * g_theta g + shock_agg,
                                      g_shock_agg = shock_agg, g_shock_idtc = shock_idtc,
                                      g_shock_rent = ts_shock_rent tenv trnd \<rparr> \<rparr>,
              tsr_obs = obs,
              tsr_rew = agent_dict (ts_n_industries tenv)
                          (\<lambda>i. (ts_utility tenv prices s y (ts_shock_rent tenv trnd) (g_k g) k_new ! i
                                  - ts_rew_mean tenv) / ts_rew_std tenv),
              tsr_done = (\<not> t + 1 < ts_horizon tenv),
              tsr_info = ts_step_info tenv s
                           (ts_utility tenv prices s y (ts_shock_rent tenv trnd) (g_k g) k_new)
                           y (g_k g) k_new prices \<rparr>"
    unfolding Townsend_step_eq_Inr by auto
  have si: "s ! i = (the (taction i) ! 0 + 1) / 2 * ts_max_savings tenv"
    using s i unfolding ts_s_eq_Inr by simp
  have yi: "y ! i = ts_tfp tenv * py_pow (g_k g ! i) (ts_alpha tenv)"
    using y i unfolding ts_y_eq_Inr by simp
  have ki: "k_new ! i = min (g_k g ! i * (1 - ts_delta tenv) + s ! i * y ! i) (ts_ceiling tenv)"
    using k_new i unfolding ts_k_new_eq_Inr by simp
  have rew: "map_of (tsr_rew r) i =
               Some ((prices ! i * (1 - s ! i) * y ! i
                      - ts_shock_rent tenv trnd ! i * g_k g ! i
                      - ts_phi tenv * (k_new ! i - g_k g ! i) ^ 2
                      - ts_rew_mean tenv) / ts_rew_std tenv)"
    using i by (simp add: r map_of_agent_dict ts_utility_nth)
  show "\<exists>g' s y. ts_obs_global (tsr_env r) = Some g'
           \<and> ts_s tenv taction = Inr s \<and> ts_y tenv (g_k g) = Inr y
           \<and> s ! i = (the (taction i) ! 0 + 1) / 2 * ts_max_savings tenv
           \<and> y ! i = ts_tfp tenv * py_pow (g_k g ! i) (ts_alpha tenv)
           \<and> g_k g' ! i = min (g_k g ! i * (1 - ts_delta tenv) + s ! i * y ! i) (ts_ceiling tenv)
           \<and> map_of (tsr_rew r) i =
               Some ((g_prices g' ! i * (1 - s ! i) * y ! i
                      - ts_shock_rent tenv trnd ! i * g_k g ! i
                      - ts_phi tenv * (g_k g' ! i - g_k g ! i) ^ 2
                      - ts_rew_mean tenv) / ts_rew_std tenv)"
    apply (rule exI [of _ "\<lparr> g_k = k_new, g_prices = prices,
                                      g_theta = ts_rho tenv * g_theta g + shock_agg,
                                      g_shock_agg = shock_agg, g_shock_idtc = shock_idtc,
                                      g_shock_rent = ts_shock_rent tenv trnd \<rparr>"])
    apply (rule exI [of _ s], rule exI [of _ y])
    using s y si yi ki rew by (simp add: r)
next
  fix r k_old a0
  assume "Durable_sgm_step denv [a0] = Inr r \<and> ds_obs denv = Some [k_old]"
  then show "dr_obs r = [min_high (k_old * (1 - ds_depreciation denv) + (a0 + 1) / 2 * ds_max_saving denv)
                      (ds_observation_space_high denv)]"
    by (auto simp: Durable_sgm_step_def py_index_def Let_def Durable_sgm_k_def Durable_sgm_s_def
          split: sum.splits)
qed

definition ts_example_draws :: ts_step_draws where
  "ts_example_draws = \<lparr> tsd_shock_idtc = (\<lambda>i. 0), tsd_shock_agg = 0, tsd_shock_rent = (\<lambda>i. 0) \<rparr>"

definition ds_example_state :: Durable_sgm where
  "ds_example_state = fst (Durable_sgm_reset (Durable_sgm_init (Durable_sgm_default_config crra2)) 5)"

lemma ds_example_state_fields:
  "ds_obs ds_example_state = Some [5]" "ds_depreciation ds_example_state = 1 / 25"
  "ds_alpha ds_example_state = 33 / 100" "ds_tfp ds_example_state = 1"
  "ds_max_saving ds_example_state = 1 / 5" "ds_utility_function ds_example_state = crra2"
  "ds_observation_space_high ds_example_state = None"
  by (simp_all add: ds_example_state_def Durable_sgm_reset_def Durable_sgm_init_def
      Durable_sgm_default_config_def Let_def)

lemma ds_example_step: "\<exists>r. Durable_sgm_step ds_example_state [0] = Inr r"
  by (simp add: Durable_sgm_step_def ds_example_state_fields py_index_def Let_def crra2_def
      Durable_sgm_utility_arg_def split: sum.splits)

lemma map_sum_id_Inr: "map_sum id f x = Inr y \<Longrightarrow> \<exists>r. x = Inr r \<and> f r = y"
  by (cases x) simp_all

theorem next_capital_stock_witness:
  "Capital_planner_ma_step_vars cp_example_state0 cp_example_actions = Inr cp_example_vars
   \<and> l_k_ij_new cp_example_vars ! 0 ! 0 =
       l_k cp_example_vars ! 0 * (1 - 1 / 25) + l_inv_ij cp_example_vars ! 0 ! 0
   \<and> (\<exists>r g'. Townsend_step ts_example_state0 ts_example_draws (ts_example_actions 0) = Inr r
          \<and> ts_obs_global ts_example_state0 = Some ts_example_global0
          \<and> ts_obs_global (tsr_env r) = Some g' \<and> g_k g' ! 0 = 117 / 100)
   \<and> (\<exists>r. Durable_sgm_step ds_example_state [0] = Inr r
          \<and> ds_obs ds_example_state = Some [5] \<and> dr_obs r = [49 / 10])"
proof -
  note inst = next_capital_stock [of cp_example_state0 cp_example_actions
      ts_example_state0 ts_example_draws "ts_example_actions 0" ds_example_state]
  have cpre: "Capital_planner_ma_step_vars cp_example_state0 cp_example_actions = Inr cp_example_vars
               \<and> 0 < cp_n_hh cp_example_state0 \<and> 0 < cp_n_capital cp_example_state0"
    by (simp add: cp_example_step_vars' cp_example_state0_fields)
  have cp: "l_k_ij_new cp_example_vars ! 0 ! 0 =
       l_k cp_example_vars ! 0 * (1 - 1 / 25) + l_inv_ij cp_example_vars ! 0 ! 0"
    using inst [THEN conjunct1, rule_format, OF cpre]
    by (simp add: cp_example_state0_def cp_example_env_def)
  from ts_example_step_obs [of 0 ts_example_draws]
  obtain r where r: "Townsend_step ts_example_state0 ts_example_draws (ts_example_actions 0) = Inr r"
    using map_sum_id_Inr by fastforce
  have pre: "Townsend_step ts_example_state0 ts_example_draws (ts_example_actions 0) = Inr r
               \<and> ts_obs_global ts_example_state0 = Some ts_example_global0
               \<and> 0 < ts_n_industries ts_example_state0"
    using r by (simp add: ts_example_state0_fields)
  from inst [THEN conjunct2, THEN conjunct1, rule_format, OF pre]
  obtain g' s y where
    g': "ts_obs_global (tsr_env r) = Some g'"
    and s: "s ! 0 = (the (ts_example_actions 0 0) ! 0 + 1) / 2 * ts_max_savings ts_example_state0"
    and y: "y ! 0 = ts_tfp ts_example_state0 * py_pow (g_k ts_example_global0 ! 0) (ts_alpha ts_example_state0)"
    and k: "g_k g' ! 0 = min (g_k ts_example_global0 ! 0 * (1 - ts_delta ts_example_state0) + s ! 0 * y ! 0)
                           (ts_ceiling ts_example_state0)"
    by blast
  have "g_k g' ! 0 = 117 / 100"
    unfolding k s y
    by (simp add: ts_example_state0_fields ts_example_global0_def ts_example_actions_def
        ts_ceiling_def py_pow_one)
  with r g' have ts: "\<exists>r g'. Townsend_step ts_example_state0 ts_example_draws (ts_example_actions 0) = Inr r
          \<and> ts_obs_global ts_example_state0 = Some ts_example_global0
          \<and> ts_obs_global (tsr_env r) = Some g' \<and> g_k g' ! 0 = 117 / 100"
    by (auto simp: ts_example_state0_fields)
  from ds_example_step obtain d where d: "Durable_sgm_step ds_example_state [0] = Inr d" by blast
  have dpre: "Durable_sgm_step ds_example_state [0] = Inr d \<and> ds_obs ds_example_state = Some [5]"
    using d by (simp add: ds_example_state_fields)
  have "dr_obs d = [49 / 10]"
    using inst [THEN conjunct2, THEN conjunct2, rule_format, OF dpre]
    by (simp add: ds_example_state_fields min_high_def)
  with d have ds: "\<exists>r. Durable_sgm_step ds_example_state [0] = Inr r
          \<and> ds_obs ds_example_state = Some [5] \<and> dr_obs r = [49 / 10]"
    by (auto simp: ds_example_state_fields)
  from cp ts ds cp_example_step_vars' show ?thesis by blast
qed

text \<open>
  Against the claim as worded: in the Townsend example the stock of firm 0 is
  \<open>0.9\<close>, \<open>delta = 0\<close> and \<open>y = 0.9\<close>. For the actions \<open>-1\<close>, \<open>0\<close> and
  \<open>1\<close> the savings rates are \<open>0\<close>, \<open>0.3\<close> and \<open>0.6\<close>, and the next stock (the
  first entry of the firm's observation) is \<open>0.9\<close>, \<open>1.17\<close> and \<open>1.44\<close>: the
  stock grows by \<open>s * y\<close> itself, not by a quadratic function of it.
\<close>

theorem next_capital_stock_counterexample:
  "map_sum id (\<lambda>r. map_of (tsr_obs r) 0)
     (Townsend_step ts_example_state0 ts_example_draws (ts_example_actions (- 1)))
     = Inr (Some [9 / 10, 581 / 10, 296 / 5])
   \<and> map_sum id (\<lambda>r. map_of (tsr_obs r) 0)
     (Townsend_step ts_example_state0 ts_example_draws (ts_example_actions 0))
     = Inr (Some [117 / 100, 581 / 10, 296 / 5])
   \<and> map_sum id (\<lambda>r. map_of (tsr_obs r) 0)
     (Townsend_step ts_example_state0 ts_example_draws (ts_example_actions 1))
     = Inr (Some [36 / 25, 581 / 10, 296 / 5])"
proof -
  have "map_sum id (\<lambda>r. map_of (tsr_obs r) 0) x = Inr (map_of obs 0)"
    if "map_sum id tsr_obs x = Inr obs" for x obs
    using that by (cases x) simp_all
  from this [OF ts_example_step_obs [of "- 1" ts_example_draws]]
       this [OF ts_example_step_obs [of 0 ts_example_draws]]
       this [OF ts_example_step_obs [of 1 ts_example_draws]]
  show ?thesis by simp
qed

section \<open>The info dictionary\<close>

lemma map_of_info_tail:
  "Suc 0 \<le> i \<Longrightarrow> i < n \<Longrightarrow> map_of (map (\<lambda>i. (i, f i)) [Suc 0..<n]) i = Some (f i)"
  by (simp add: map_of_map_restrict restrict_map_def)

lemma cp_step_info_analysis:
  assumes "cp_analysis_mode env"
  shows "map_of (cp_step_info env L) 0 =
           Some (Info_global
                  \<lparr> ig_savings = l_s_ij L, ig_reward = np_mean (l_utility_i L),
                    ig_income = l_y_i L, ig_consumption = l_c_i L,
                    ig_bgt_penalty = l_bgt_penalty_ind L,
                    ig_capital = l_k_ij L, ig_capital_new = l_k_ij_new L \<rparr>)"
    and "1 \<le> i \<Longrightarrow> i < cp_n_hh env \<Longrightarrow>
         map_of (cp_step_info env L) i =
           Some (Info_ind
                  \<lparr> ii_savings = l_s_ij L ! i, ii_reward = np_mean (l_utility_i L),
                    ii_income = l_y_i L ! i, ii_consumption = l_c_i L ! i,
                    ii_bgt_penalty = l_bgt_penalty_ind L ! i,
                    ii_capital = l_k_ij L ! i, ii_capital_new = l_k_ij_new L ! i \<rparr>)"
  using assms by (simp_all add: cp_step_info_def map_of_info_tail)

lemma ts_step_info_analysis:
  assumes "ts_analysis_mode env \<or> ts_simul_mode env"
  shows "map_of (ts_step_info env s utility y k k_new prices) 0 =
           Some (TInfo_global \<lparr> tg_savings = s, tg_reward = utility, tg_income = y, tg_capital = k,
                               tg_capital_new = k_new, tg_prices = prices \<rparr>)"
    and "1 \<le> i \<Longrightarrow> i < ts_n_industries env \<Longrightarrow>
         map_of (ts_step_info env s utility y k k_new prices) i =
           Some (TInfo_ind \<lparr> ti_savings = s ! i, ti_reward = utility ! i,
                             ti_income = y ! i, ti_capital = k ! i,
                             ti_capital_new = k_new ! i, ti_prices = prices ! i \<rparr>)"
  using assms by (auto simp: ts_step_info_def map_of_info_tail)

lemma py_div_eq_Inr: "py_div a b = Inr q \<longleftrightarrow> b \<noteq> 0 \<and> q = a / b"
  by (auto simp: py_div_def)

lemma py_int_truediv_eq_Inr:
  "py_int_truediv a b = Inr q \<longleftrightarrow>
     b \<noteq> 0 \<and> \<not> float_max < \<bar>of_int a / of_int b\<bar> \<and> q = of_int a / of_int b"
  by (auto simp: py_int_truediv_def)

lemma dd_prices_eq_Inr:
  assumes "dd_prices env actions = Inr prices"
  shows "prices = map (spec_price env actions) [0..<dd_n_agents env]"
proof (rule map_upt_eqI)
  from assms show "length prices = dd_n_agents env"
    by (simp add: dd_prices_def py_list_comp_Inr_iff)
  fix i assume "i < dd_n_agents env"
  with assms show "prices ! i = spec_price env actions i"
    unfolding dd_prices_def py_list_comp_Inr_iff
    by (auto simp: bindE_eq_Inr py_index_eq_Inr py_int_truediv_eq_Inr spec_price_def)
qed

lemma DiffDemandDiscrete_step_info:
  assumes "DiffDemandDiscrete_step env action_dict = Inr r"
  shows "ddr_info r = agent_dict (dd_n_agents env) (spec_price env (map snd action_dict))"
proof -
  from assms obtain prices where p: "dd_prices env (map snd action_dict) = Inr prices"
    and i: "ddr_info r = agent_dict (dd_n_agents env) (\<lambda>i. prices ! i)"
    by (auto simp: DiffDemandDiscrete_step_def Let_def bindE_eq_Inr)
  show ?thesis
    unfolding i dd_prices_eq_Inr [OF p] by (rule agent_dict_nth_map)
qed

lemma Townsend_step_info:
  assumes "Townsend_step env rnd a = Inr r"
  shows "\<exists>g g' s y.
           ts_obs_global env = Some g \<and> ts_obs_global (tsr_env r) = Some g'
         \<and> ts_s env a = Inr s \<and> ts_y env (g_k g) = Inr y
         \<and> tsr_rew r = agent_dict (ts_n_industries env)
              (\<lambda>i. (ts_utility env (g_prices g') s y (ts_shock_rent env rnd) (g_k g) (g_k g') ! i
                      - ts_rew_mean env) / ts_rew_std env)
         \<and> tsr_info r = ts_step_info env s
              (ts_utility env (g_prices g') s y (ts_shock_rent env rnd) (g_k g) (g_k g'))
              y (g_k g) (g_k g') (g_prices g')"
  using assms unfolding Townsend_step_eq_Inr by fastforce


text \<open>
  C9, as the code has it. The capital planner returns an empty info dictionary
  exactly when \<^verbatim>\<open>analysis_mode\<close> is off, and Townsend exactly when both
  \<^verbatim>\<open>analysis_mode\<close> and \<^verbatim>\<open>simul_mode\<close> are off. When it is not empty, the entry of
  agent 0 (\<^verbatim>\<open>hh_0\<close>, \<^verbatim>\<open>firm_0\<close>) holds the lists over all agents and the entry of
  every other agent its own values: for the capital planner the local variables of
  \<^verbatim>\<open>step\<close>; for Townsend the savings \<^verbatim>\<open>s\<close> and the income \<^verbatim>\<open>y\<close> that \<^verbatim>\<open>step\<close>
  computes from the actions and from the stored stocks, the utility from which the
  returned rewards are derived, the stocks before and after, and the new prices.
  DiffDemandDiscrete has no such mode: its info always maps every agent to its price.
  Durable_sgm has none either: its info always holds the savings rate, the reward,
  the income and the old and new capital.
\<close>

theorem step_info:
  "(\<forall>r L. Capital_planner_ma_step env rnd action_dict = Inr r
           \<and> Capital_planner_ma_step_vars env action_dict = Inr L \<longrightarrow>
        (cpr_info r = [] \<longleftrightarrow> \<not> cp_analysis_mode env)
      \<and> (cp_analysis_mode env \<longrightarrow>
           map_of (cpr_info r) 0 =
             Some (Info_global
                    \<lparr> ig_savings = l_s_ij L, ig_reward = np_mean (l_utility_i L),
                      ig_income = l_y_i L, ig_consumption = l_c_i L,
                      ig_bgt_penalty = l_bgt_penalty_ind L,
                      ig_capital = l_k_ij L, ig_capital_new = l_k_ij_new L \<rparr>)
         \<and> (\<forall>i. 1 \<le> i \<and> i < cp_n_hh env \<longrightarrow>
               map_of (cpr_info r) i =
                 Some (Info_ind
                        \<lparr> ii_savings = l_s_ij L ! i, ii_reward = np_mean (l_utility_i L),
                          ii_income = l_y_i L ! i, ii_consumption = l_c_i L ! i,
                          ii_bgt_penalty = l_bgt_penalty_ind L ! i,
                          ii_capital = l_k_ij L ! i, ii_capital_new = l_k_ij_new L ! i \<rparr>))))
   \<and> (\<forall>r. Townsend_step tenv trnd taction = Inr r \<longrightarrow>
        (tsr_info r = [] \<longleftrightarrow> \<not> ts_analysis_mode tenv \<and> \<not> ts_simul_mode tenv)
      \<and> (ts_analysis_mode tenv \<or> ts_simul_mode tenv \<longrightarrow>
           (\<exists>g g' s y utility.
              ts_obs_global tenv = Some g \<and> ts_obs_global (tsr_env r) = Some g'
            \<and> ts_s tenv taction = Inr s \<and> ts_y tenv (g_k g) = Inr y
            \<and> utility = ts_utility tenv (g_prices g') s y (ts_shock_rent tenv trnd) (g_k g) (g_k g')
            \<and> tsr_rew r = agent_dict (ts_n_industries tenv)
                              (\<lambda>i. (utility ! i - ts_rew_mean tenv) / ts_rew_std tenv)
            \<and> map_of (tsr_info r) 0 =
                 Some (TInfo_global \<lparr> tg_savings = s, tg_reward = utility, tg_income = y,
                                     tg_capital = g_k g, tg_capital_new = g_k g',
                                     tg_prices = g_prices g' \<rparr>)
            \<and> (\<forall>i. 1 \<le> i \<and> i < ts_n_industries tenv \<longrightarrow>
                  map_of (tsr_info r) i =
                    Some (TInfo_ind \<lparr> ti_savings = s ! i, ti_reward = utility ! i,
                                      ti_income = y ! i, ti_capital = g_k g ! i,
                                      ti_capital_new = g_k g' ! i,
                                      ti_prices = g_prices g' ! i \<rparr>)))))
   \<and> (\<forall>r. DiffDemandDiscrete_step denv daction = Inr r \<longrightarrow>
        length (ddr_info r) = dd_n_agents denv
      \<and> (\<forall>i<dd_n_agents denv.
           map_of (ddr_info r) i = Some (spec_price denv (map snd daction) i)))
   \<and> (\<forall>r. Durable_sgm_step senv saction = Inr r \<longrightarrow>
        (\<exists>k_old a0. ds_obs senv = Some (k_old # tl (the (ds_obs senv))) \<and> saction = a0 # tl saction
          \<and> dr_info r = \<lparr> di_savings_rate = Durable_sgm_s senv a0, di_rewards = dr_rew r,
                          di_income = Durable_sgm_y senv k_old, di_capital_old = k_old,
                          di_capital_new = Durable_sgm_k senv k_old (Durable_sgm_s senv a0) \<rparr>))"
proof (intro conjI allI impI)
  fix r L
  assume a: "Capital_planner_ma_step env rnd action_dict = Inr r
           \<and> Capital_planner_ma_step_vars env action_dict = Inr L"
  then have info: "cpr_info r = cp_step_info env L"
    by (auto simp: cp_step_eq_Inr)
  show "cpr_info r = [] \<longleftrightarrow> \<not> cp_analysis_mode env"
    by (simp add: info cp_step_info_def)
  {
    assume m: "cp_analysis_mode env"
    show "map_of (cpr_info r) 0 =
             Some (Info_global
                    \<lparr> ig_savings = l_s_ij L, ig_reward = np_mean (l_utility_i L),
                      ig_income = l_y_i L, ig_consumption = l_c_i L,
                      ig_bgt_penalty = l_bgt_penalty_ind L,
                      ig_capital = l_k_ij L, ig_capital_new = l_k_ij_new L \<rparr>)"
      unfolding info by (rule cp_step_info_analysis(1) [OF m])
    fix i assume "1 \<le> i \<and> i < cp_n_hh env"
    then show "map_of (cpr_info r) i =
                 Some (Info_ind
                        \<lparr> ii_savings = l_s_ij L ! i, ii_reward = np_mean (l_utility_i L),
                          ii_income = l_y_i L ! i, ii_consumption = l_c_i L ! i,
                          ii_bgt_penalty = l_bgt_penalty_ind L ! i,
                          ii_capital = l_k_ij L ! i, ii_capital_new = l_k_ij_new L ! i \<rparr>)"
      unfolding info using cp_step_info_analysis(2) [OF m] by blast
  }
next
  fix r
  assume a: "Townsend_step tenv trnd taction = Inr r"
  from Townsend_step_info [OF a] obtain g g' s y where
    g: "ts_obs_global tenv = Some g" "ts_obs_global (tsr_env r) = Some g'"
    and sy: "ts_s tenv taction = Inr s" "ts_y tenv (g_k g) = Inr y"
    and rew: "tsr_rew r = agent_dict (ts_n_industries tenv)
              (\<lambda>i. (ts_utility tenv (g_prices g') s y (ts_shock_rent tenv trnd) (g_k g) (g_k g') ! i
                      - ts_rew_mean tenv) / ts_rew_std tenv)"
    and info: "tsr_info r = ts_step_info tenv s
              (ts_utility tenv (g_prices g') s y (ts_shock_rent tenv trnd) (g_k g) (g_k g'))
              y (g_k g) (g_k g') (g_prices g')"
    by blast
  show "tsr_info r = [] \<longleftrightarrow> \<not> ts_analysis_mode tenv \<and> \<not> ts_simul_mode tenv"
    by (simp add: info ts_step_info_def)
  {
    assume m: "ts_analysis_mode tenv \<or> ts_simul_mode tenv"
    let ?u = "ts_utility tenv (g_prices g') s y (ts_shock_rent tenv trnd) (g_k g) (g_k g')"
    show "\<exists>g g' s y utility.
              ts_obs_global tenv = Some g \<and> ts_obs_global (tsr_env r) = Some g'
            \<and> ts_s tenv taction = Inr s \<and> ts_y tenv (g_k g) = Inr y
            \<and> utility = ts_utility tenv (g_prices g') s y (ts_shock_rent tenv trnd) (g_k g) (g_k g')
            \<and> tsr_rew r = agent_dict (ts_n_industries tenv)
                              (\<lambda>i. (utility ! i - ts_rew_mean tenv) / ts_rew_std tenv)
            \<and> map_of (tsr_info r) 0 =
                 Some (TInfo_global \<lparr> tg_savings = s, tg_reward = utility, tg_income = y,
                                     tg_capital = g_k g, tg_capital_new = g_k g',
                                     tg_prices = g_prices g' \<rparr>)
            \<and> (\<forall>i. 1 \<le> i \<and> i < ts_n_industries tenv \<longrightarrow>
                  map_of (tsr_info r) i =
                    Some (TInfo_ind \<lparr> ti_savings = s ! i, ti_reward = utility ! i,
                                      ti_income = y ! i, ti_capital = g_k g ! i,
                                      ti_capital_new = g_k g' ! i,
                                      ti_prices = g_prices g' ! i \<rparr>))"
      apply (rule exI [of _ g], rule exI [of _ g'], rule exI [of _ s], rule exI [of _ y],
             rule exI [of _ ?u])
      using g sy rew ts_step_info_analysis [OF m, where s = s and utility = ?u and y = y
          and k = "g_k g" and k_new = "g_k g'" and prices = "g_prices g'"]
      by (simp add: info)
  }
next
  fix r
  assume a: "DiffDemandDiscrete_step denv daction = Inr r"
  note p = DiffDemandDiscrete_step_info [OF a]
  show "length (ddr_info r) = dd_n_agents denv"
    by (simp add: p agent_dict_def)
  fix i assume "i < dd_n_agents denv"
  then show "map_of (ddr_info r) i = Some (spec_price denv (map snd daction) i)"
    by (simp add: p map_of_agent_dict)
next
  fix r
  assume a: "Durable_sgm_step senv saction = Inr r"
  then show "\<exists>k_old a0. ds_obs senv = Some (k_old # tl (the (ds_obs senv))) \<and> saction = a0 # tl saction
          \<and> dr_info r = \<lparr> di_savings_rate = Durable_sgm_s senv a0, di_rewards = dr_rew r,
                          di_income = Durable_sgm_y senv k_old, di_capital_old = k_old,
                          di_capital_new = Durable_sgm_k senv k_old (Durable_sgm_s senv a0) \<rparr>"
    by (cases "ds_obs senv"; cases saction; cases "the (ds_obs senv)")
       (auto simp: Durable_sgm_step_def py_index_def Let_def split: sum.splits if_splits)
qed

section \<open>The example episodes, one step on\<close>

definition cp_example_draws :: cp_step_draws where
  "cp_example_draws = \<lparr> sd_shocks_idtc = (\<lambda>i. 0), sd_shock_agg = 0 \<rparr>"

definition cp_example_obs1 :: "(nat \<times> cp_observation) list" where
  "cp_example_obs1 =
     agent_dict 3 (\<lambda>i. (concat (own_view (l_k_ij_new cp_example_vars) i), own_view [1, 0, 1] i, 0))"

definition cp_example_result1 :: Capital_planner_ma_result where
  "cp_example_result1 =
     \<lparr> cpr_env = cp_example_state0\<lparr>cp_timestep := Some 1, cp_obs := Some cp_example_obs1\<rparr>,
       cpr_obs = cp_example_obs1,
       cpr_rew = agent_dict 3 (\<lambda>i. np_mean (l_utility_i cp_example_vars)),
       cpr_done = False,
       cpr_info = cp_step_info cp_example_state0 cp_example_vars \<rparr>"

lemma cp_example_vars_fields:
  "l_shocks_idtc_id cp_example_vars = [1, 0, 1]" "l_shock_agg_id cp_example_vars = 0"
  "length (l_k_ij_new cp_example_vars) = 3"
  "l_s_ij cp_example_vars = [[1 / 2, 1 / 2], [3 / 8, 0], [0, 0]]"
  "l_bgt_penalty_ind cp_example_vars = [1, 0, 0]"
  by (simp_all add: cp_example_vars_def cp_vars_def Let_def cp_k_ij_new_def
      cp_example_state0_fields cp_example_correct_bgt)

lemma cp_example_update_shock:
  "cp_update_shock cp_example_state0 (Suc 0) rnd ids agg = Inr ([1, 0, 1], 0)"
  by (simp add: cp_update_shock_def cp_example_state0_def cp_example_env_def
      py_getattr_def py_getitem_def)

lemma cp_example_step:
  "Capital_planner_ma_step cp_example_state0 rnd cp_example_actions = Inr cp_example_result1"
  unfolding cp_step_eq_Inr
  apply (rule exI [of _ 0], rule exI [of _ cp_example_vars])
  apply (rule exI [of _ "[1, 0, 1]"], rule exI [of _ 0], rule exI [of _ cp_example_obs1])
  apply (simp add: cp_example_step_vars' cp_example_update_shock cp_obs_perfirm_eq_Inr
      cp_example_vars_fields cp_example_state0_fields cp_example_result1_def cp_example_obs1_def)
  done

lemma ts_example_step: "\<exists>r. Townsend_step ts_example_state0 rnd (ts_example_actions 0) = Inr r"
  using ts_example_step_obs [of 0 rnd] map_sum_id_Inr by fastforce

lemma dd_example_step:
  "\<exists>r. DiffDemandDiscrete_step DiffDemandDiscrete_default dd_example_actions = Inr r"
  by (simp add: DiffDemandDiscrete_step_Inr [OF dd_example_wf dd_example_no_overflow])

lemma ts_example_savings_income:
  "ts_s ts_example_state0 (ts_example_actions 0) = Inr [3 / 10, 3 / 5]"
  "ts_y ts_example_state0 (g_k ts_example_global0) = Inr [9 / 10, 4 / 5]"
  by (simp_all add: ts_s_def ts_y_def py_list_comp_def upt_2 ts_example_state0_fields
      ts_example_actions_def ts_example_global0_def py_getitem_def py_index_def
      py_float_pow_def py_pow_one)

theorem step_info_witness:
  "(\<exists>r x0 x1. Capital_planner_ma_step cp_example_state0 cp_example_draws cp_example_actions = Inr r
       \<and> Capital_planner_ma_step_vars cp_example_state0 cp_example_actions = Inr cp_example_vars
       \<and> cp_analysis_mode cp_example_state0 \<and> cpr_info r \<noteq> []
       \<and> map_of (cpr_info r) 0 = Some (Info_global x0) \<and> ig_bgt_penalty x0 = [1, 0, 0]
       \<and> map_of (cpr_info r) 1 = Some (Info_ind x1) \<and> ii_savings x1 = [3 / 8, 0])
   \<and> (\<exists>r x. Townsend_step ts_example_state0 ts_example_draws (ts_example_actions 0) = Inr r
       \<and> ts_analysis_mode ts_example_state0 \<and> tsr_info r \<noteq> []
       \<and> map_of (tsr_info r) 1 = Some (TInfo_ind x)
       \<and> ti_savings x = 3 / 5 \<and> ti_income x = 4 / 5 \<and> ti_capital x = 4 / 5)
   \<and> (\<exists>r. DiffDemandDiscrete_step DiffDemandDiscrete_default dd_example_actions = Inr r
       \<and> length (ddr_info r) = 2
       \<and> map_of (ddr_info r) 0 = Some 2 \<and> map_of (ddr_info r) 1 = Some 1)
   \<and> (\<exists>r. Durable_sgm_step ds_example_state [0] = Inr r \<and> di_capital_old (dr_info r) = 5)"
proof -
  note inst = step_info [of cp_example_state0 cp_example_draws cp_example_actions
      ts_example_state0 ts_example_draws "ts_example_actions 0"
      DiffDemandDiscrete_default dd_example_actions ds_example_state "[0]"]
  have cpre: "Capital_planner_ma_step cp_example_state0 cp_example_draws cp_example_actions
                = Inr cp_example_result1
              \<and> Capital_planner_ma_step_vars cp_example_state0 cp_example_actions = Inr cp_example_vars"
    by (simp add: cp_example_step cp_example_step_vars')
  have cp: "\<exists>r x0 x1. Capital_planner_ma_step cp_example_state0 cp_example_draws cp_example_actions = Inr r
       \<and> Capital_planner_ma_step_vars cp_example_state0 cp_example_actions = Inr cp_example_vars
       \<and> cp_analysis_mode cp_example_state0 \<and> cpr_info r \<noteq> []
       \<and> map_of (cpr_info r) 0 = Some (Info_global x0) \<and> ig_bgt_penalty x0 = [1, 0, 0]
       \<and> map_of (cpr_info r) 1 = Some (Info_ind x1) \<and> ii_savings x1 = [3 / 8, 0]"
    using inst [THEN conjunct1, rule_format, OF cpre] cpre
    by (simp add: cp_example_state0_fields cp_example_vars_fields)
  from ts_example_step obtain tr where
    tr: "Townsend_step ts_example_state0 ts_example_draws (ts_example_actions 0) = Inr tr" by blast
  have ts: "\<exists>r x. Townsend_step ts_example_state0 ts_example_draws (ts_example_actions 0) = Inr r
       \<and> ts_analysis_mode ts_example_state0 \<and> tsr_info r \<noteq> []
       \<and> map_of (tsr_info r) 1 = Some (TInfo_ind x)
       \<and> ti_savings x = 3 / 5 \<and> ti_income x = 4 / 5 \<and> ti_capital x = 4 / 5"
    using inst [THEN conjunct2, THEN conjunct1, rule_format, OF tr] tr
    by (auto simp: ts_example_state0_fields ts_example_global0_def ts_example_savings_income
        [unfolded ts_example_global0_def, simplified])
  from dd_example_step obtain dr where
    dr: "DiffDemandDiscrete_step DiffDemandDiscrete_default dd_example_actions = Inr dr" by blast
  have dd: "\<exists>r. DiffDemandDiscrete_step DiffDemandDiscrete_default dd_example_actions = Inr r
       \<and> length (ddr_info r) = 2
       \<and> map_of (ddr_info r) 0 = Some 2 \<and> map_of (ddr_info r) 1 = Some 1"
    using inst [THEN conjunct2, THEN conjunct2, THEN conjunct1, rule_format, OF dr] dr
    by (simp add: dd_default_fields dd_example_prices less_2_nat)
  from ds_example_step obtain sr where sr: "Durable_sgm_step ds_example_state [0] = Inr sr" by blast
  have ds: "\<exists>r. Durable_sgm_step ds_example_state [0] = Inr r \<and> di_capital_old (dr_info r) = 5"
    using inst [THEN conjunct2, THEN conjunct2, THEN conjunct2, rule_format, OF sr] sr
    by (auto simp: ds_example_state_fields)
  from cp ts dd ds show ?thesis by blast
qed

text \<open>
  Against the claim as worded: a default DiffDemandDiscrete, which has no analysis or
  diagnostic mode, returns a non-empty info dictionary, the price of each agent.
\<close>

theorem step_info_counterexample:
  "map_sum id ddr_info (DiffDemandDiscrete_step DiffDemandDiscrete_default dd_example_actions)
     = Inr [(0, 2), (1, 1)]"
proof -
  have p: "spec_price DiffDemandDiscrete_default (map snd dd_example_actions) 0 = 2"
    "spec_price DiffDemandDiscrete_default (map snd dd_example_actions) (Suc 0) = 1"
    by (simp_all add: spec_price_def DiffDemandDiscrete_default_def DiffDemandDiscrete_init_def
        dd_example_actions_def)
  have n: "dd_n_agents DiffDemandDiscrete_default = 2"
    by (simp add: DiffDemandDiscrete_default_def DiffDemandDiscrete_init_def)
  show ?thesis
    by (simp add: DiffDemandDiscrete_step_Inr [OF dd_example_wf dd_example_no_overflow]
        agent_dict_def n upt_2 p)
qed

section \<open>Agent-centred observations\<close>

lemma Townsend_reset_eq_Inr:
  "Townsend_reset env rnd = Inr (env', obs) \<longleftrightarrow>
     (\<exists>k_init shock_idtc_init shock_agg_init u_init y_init p_init.
        ts_reset_init env rnd = Inr (k_init, shock_idtc_init, shock_agg_init) \<and>
        ts_u env (ts_theta_0 env) shock_idtc_init = Inr u_init \<and>
        ts_y env k_init = Inr y_init \<and>
        ts_p_init env y_init u_init = Inr p_init \<and>
        ts_obs_perindustry env k_init p_init = Inr obs \<and>
        env' = env\<lparr> ts_timestep := Some 0,
                     ts_obs := Some obs,
                     ts_obs_global := Some \<lparr> g_k = k_init, g_prices = p_init,
                                             g_theta = ts_theta_0 env,
                                             g_shock_agg = shock_agg_init,
                                             g_shock_idtc = shock_idtc_init, g_shock_rent = [] \<rparr> \<rparr>)"
  unfolding Townsend_reset_def
  by (auto simp: bindE_eq_Inr Let_def)

lemma dd_step_obs_eq_Inr:
  "dd_step_obs env actions = Inr obs \<longleftrightarrow>
     (dd_n_agents env = 0 \<or> dd_n_agents env \<le> length actions) \<and>
     obs = agent_dict (dd_n_agents env) (\<lambda>i. map (\<lambda>j. uint8 (actions ! j)) [0..<dd_n_agents env])"
proof -
  let ?n = "dd_n_agents env"
  have inner: "py_list_comp (\<lambda>j. bindE (py_index actions j) (\<lambda>a. Inr (uint8 a))) ?n = Inr row \<longleftrightarrow>
                 (\<forall>j<?n. j < length actions) \<and> row = map (\<lambda>j. uint8 (actions ! j)) [0..<?n]" for row
    by (rule py_list_comp_eq_Inr_map) (auto simp: bindE_eq_Inr py_index_eq_Inr)
  have le: "(\<forall>j<?n. j < length actions) \<longleftrightarrow> ?n \<le> length actions"
    by (metis less_le_trans not_less order_refl)
  have outer: "py_list_comp
                 (\<lambda>i. py_list_comp (\<lambda>j. bindE (py_index actions j) (\<lambda>a. Inr (uint8 a))) ?n) ?n
               = Inr rows \<longleftrightarrow>
               (\<forall>i<?n. ?n \<le> length actions) \<and>
               rows = map (\<lambda>i. map (\<lambda>j. uint8 (actions ! j)) [0..<?n]) [0..<?n]" for rows
    by (rule py_list_comp_eq_Inr_map) (simp add: inner le)
  have triv: "(\<forall>i<?n. ?n \<le> length actions) \<longleftrightarrow> (?n = 0 \<or> ?n \<le> length actions)"
    by auto
  show ?thesis
    unfolding dd_step_obs_def bindE_eq_Inr outer triv
    by (auto simp: agent_dict_def)
qed

text \<open>
  C4, as the code has it. In the capital planner (\<^verbatim>\<open>reset\<close> and \<^verbatim>\<open>step\<close>) the
  observation of household \<open>i\<close> is its own stocks, then the stocks of the other
  households in index order, then its own shock index followed by the others in index
  order, then the aggregate shock. In Townsend (\<^verbatim>\<open>step\<close>, and \<^verbatim>\<open>reset\<close> where it
  returns) the observation of industry \<open>i\<close> is its own stock, its own price, then
  the other prices in index order. In DiffDemandDiscrete every agent receives the same
  vector: after \<^verbatim>\<open>step\<close> the joint action vector in the order of the action
  dictionary, after \<^verbatim>\<open>reset\<close> the middle of the grid once per agent; nothing is
  reordered.
\<close>

theorem own_state_first:
  "(\<forall>env' obs i. Capital_planner_ma_reset env rrnd = Inr (env', obs) \<and> i < cp_n_hh env \<longrightarrow>
      (\<exists>k_init ids agg.
         cp_reset_init env rrnd = Inr (k_init, ids, agg)
       \<and> map_of obs i = Some (concat (own_view (cp_k_ij env k_init) i), own_view ids i, agg)))
   \<and> (\<forall>r i. Capital_planner_ma_step env srnd action_dict = Inr r \<and> i < cp_n_hh env \<longrightarrow>
      (\<exists>L t ids agg.
         Capital_planner_ma_step_vars env action_dict = Inr L \<and> cp_timestep env = Some t
       \<and> cp_update_shock env (t + 1) srnd (l_shocks_idtc_id L) (l_shock_agg_id L) = Inr (ids, agg)
       \<and> map_of (cpr_obs r) i = Some (concat (own_view (l_k_ij_new L) i), own_view ids i, agg)))
   \<and> (\<forall>env' obs i. Townsend_reset tenv trrnd = Inr (env', obs) \<and> i < ts_n_industries tenv \<longrightarrow>
      (\<exists>g. ts_obs_global env' = Some g
       \<and> map_of obs i = Some (g_k g ! i # own_view (g_prices g) i)))
   \<and> (\<forall>r i. Townsend_step tenv tsrnd taction = Inr r \<and> i < ts_n_industries tenv \<longrightarrow>
      (\<exists>g. ts_obs_global (tsr_env r) = Some g
       \<and> map_of (tsr_obs r) i = Some (g_k g ! i # own_view (g_prices g) i)))
   \<and> (\<forall>r i. DiffDemandDiscrete_step denv daction = Inr r \<and> i < dd_n_agents denv \<longrightarrow>
        map_of (ddr_obs r) i
          = Some (map (\<lambda>j. uint8 (map snd daction ! j)) [0..<dd_n_agents denv]))
   \<and> (\<forall>i<dd_n_agents denv.
        map_of (snd (DiffDemandDiscrete_reset denv)) i
          = Some (map (\<lambda>j. uint8 (dd_gridpoints denv div 2)) [0..<dd_n_agents denv]))"
proof (intro conjI allI impI)
  fix env' obs i
  assume a: "Capital_planner_ma_reset env rrnd = Inr (env', obs) \<and> i < cp_n_hh env"
  then obtain k_init ids agg where
    init: "cp_reset_init env rrnd = Inr (k_init, ids, agg)"
    and obs: "cp_obs_perfirm env (cp_k_ij env k_init) ids agg = Inr obs"
    unfolding cp_reset_eq_Inr by blast
  from obs a have "map_of obs i = Some (concat (own_view (cp_k_ij env k_init) i), own_view ids i, agg)"
    unfolding cp_obs_perfirm_eq_Inr by (simp add: map_of_agent_dict)
  with init show "\<exists>k_init ids agg.
         cp_reset_init env rrnd = Inr (k_init, ids, agg)
       \<and> map_of obs i = Some (concat (own_view (cp_k_ij env k_init) i), own_view ids i, agg)"
    by blast
next
  fix r i
  assume a: "Capital_planner_ma_step env srnd action_dict = Inr r \<and> i < cp_n_hh env"
  then obtain t L ids agg obs where
    t: "cp_timestep env = Some t" and L: "Capital_planner_ma_step_vars env action_dict = Inr L"
    and sh: "cp_update_shock env (t + 1) srnd (l_shocks_idtc_id L) (l_shock_agg_id L) = Inr (ids, agg)"
    and obs: "cp_obs_perfirm env (l_k_ij_new L) ids agg = Inr obs"
    and r: "cpr_obs r = obs"
    unfolding cp_step_eq_Inr by auto
  from obs a have "map_of (cpr_obs r) i = Some (concat (own_view (l_k_ij_new L) i), own_view ids i, agg)"
    unfolding cp_obs_perfirm_eq_Inr r by (simp add: map_of_agent_dict)
  with t L sh show "\<exists>L t ids agg.
         Capital_planner_ma_step_vars env action_dict = Inr L \<and> cp_timestep env = Some t
       \<and> cp_update_shock env (t + 1) srnd (l_shocks_idtc_id L) (l_shock_agg_id L) = Inr (ids, agg)
       \<and> map_of (cpr_obs r) i = Some (concat (own_view (l_k_ij_new L) i), own_view ids i, agg)"
    by blast
next
  fix env' obs i
  assume a: "Townsend_reset tenv trrnd = Inr (env', obs) \<and> i < ts_n_industries tenv"
  then obtain k_init p_init g where
    obs: "ts_obs_perindustry tenv k_init p_init = Inr obs"
    and g: "ts_obs_global env' = Some g" "g_k g = k_init" "g_prices g = p_init"
    unfolding Townsend_reset_eq_Inr by auto
  from obs a have "map_of obs i = Some (k_init ! i # own_view p_init i)"
    unfolding ts_obs_perindustry_eq_Inr by (simp add: map_of_agent_dict)
  with g show "\<exists>g. ts_obs_global env' = Some g
       \<and> map_of obs i = Some (g_k g ! i # own_view (g_prices g) i)"
    by simp
next
  fix r i
  assume a: "Townsend_step tenv tsrnd taction = Inr r \<and> i < ts_n_industries tenv"
  then obtain k_new prices obs g where
    obs: "ts_obs_perindustry tenv k_new prices = Inr obs" and r: "tsr_obs r = obs"
    and g: "ts_obs_global (tsr_env r) = Some g" "g_k g = k_new" "g_prices g = prices"
    unfolding Townsend_step_eq_Inr by auto
  from obs a have "map_of (tsr_obs r) i = Some (k_new ! i # own_view prices i)"
    unfolding ts_obs_perindustry_eq_Inr r by (simp add: map_of_agent_dict)
  with g show "\<exists>g. ts_obs_global (tsr_env r) = Some g
       \<and> map_of (tsr_obs r) i = Some (g_k g ! i # own_view (g_prices g) i)"
    by simp
next
  fix r i
  assume a: "DiffDemandDiscrete_step denv daction = Inr r \<and> i < dd_n_agents denv"
  then obtain obs where obs: "dd_step_obs denv (map snd daction) = Inr obs" and r: "ddr_obs r = obs"
    unfolding DiffDemandDiscrete_step_def Let_def bindE_eq_Inr by auto
  from obs a show "map_of (ddr_obs r) i
          = Some (map (\<lambda>j. uint8 (map snd daction ! j)) [0..<dd_n_agents denv])"
    unfolding dd_step_obs_eq_Inr r by (simp add: map_of_agent_dict)
next
  fix i assume "i < dd_n_agents denv"
  then show "map_of (snd (DiffDemandDiscrete_reset denv)) i
          = Some (map (\<lambda>j. uint8 (dd_gridpoints denv div 2)) [0..<dd_n_agents denv])"
    by (simp add: DiffDemandDiscrete_reset_def Let_def map_of_agent_dict)
qed

definition cp_example_reset_draws :: cp_reset_draws where
  "cp_example_reset_draws = \<lparr> rd_k = (\<lambda>i. 0), rd_shocks_idtc = (\<lambda>i. 0), rd_shock_agg = 0 \<rparr>"

definition ts_example_reset_draws :: ts_reset_draws where
  "ts_example_reset_draws = \<lparr> trd_k = (\<lambda>i. 0), trd_shock_idtc = (\<lambda>i. 0), trd_shock_agg = 0 \<rparr>"

theorem own_state_first_witness:
  "Capital_planner_ma_reset cp_example_env cp_example_reset_draws
     = Inr (cp_example_state0, cp_example_obs0)
   \<and> (\<exists>ks. map_of cp_example_obs0 1 = Some (ks, [0, 1, 1], 0))
   \<and> (\<exists>r ks. Capital_planner_ma_step cp_example_state0 cp_example_draws cp_example_actions = Inr r
         \<and> map_of (cpr_obs r) 1 = Some (ks, [0, 1, 1], 0))
   \<and> Townsend_reset ts_example_env ts_example_reset_draws = Inr (ts_example_state0, ts_example_obs0)
   \<and> map_of ts_example_obs0 1 = Some [4 / 5, 597 / 10, 293 / 5]
   \<and> (\<exists>r. Townsend_step ts_example_state0 ts_example_draws (ts_example_actions 0) = Inr r
         \<and> map_of (tsr_obs r) 1 = Some [32 / 25, 296 / 5, 581 / 10])
   \<and> (\<exists>r. DiffDemandDiscrete_step DiffDemandDiscrete_default dd_example_actions = Inr r
         \<and> map_of (ddr_obs r) 1 = Some [15, 0])
   \<and> map_of (snd (DiffDemandDiscrete_reset DiffDemandDiscrete_default)) 1 = Some [8, 8]"
proof -
  note inst = own_state_first [of cp_example_env cp_example_reset_draws cp_example_draws
      cp_example_actions ts_example_env ts_example_reset_draws ts_example_draws
      "ts_example_actions 0" DiffDemandDiscrete_default dd_example_actions]
  have nst: "cp_n_hh cp_example_env = 3" "ts_n_industries ts_example_env = 2"
    "dd_n_agents DiffDemandDiscrete_default = 2" "dd_gridpoints DiffDemandDiscrete_default = 16"
    by (simp_all add: cp_example_env_def ts_example_env_fields DiffDemandDiscrete_default_def
        DiffDemandDiscrete_init_def)
  have a: "\<exists>ks. map_of cp_example_obs0 1 = Some (ks, [0, 1, 1], 0)"
    by (simp add: cp_example_obs0_def)
  have "Capital_planner_ma_step cp_example_state0 cp_example_draws cp_example_actions
          = Inr cp_example_result1 \<and> 1 < cp_n_hh cp_example_state0"
    by (simp add: cp_example_step cp_example_state0_fields)
  from own_state_first [of cp_example_state0 cp_example_reset_draws cp_example_draws
      cp_example_actions, THEN conjunct2, THEN conjunct1, rule_format, OF this]
  have b: "\<exists>r ks. Capital_planner_ma_step cp_example_state0 cp_example_draws cp_example_actions = Inr r
         \<and> map_of (cpr_obs r) 1 = Some (ks, [0, 1, 1], 0)"
    by (auto simp: cp_example_step cp_example_step_vars' cp_example_state0_fields
        cp_example_update_shock own_view_def)
  have c: "map_of ts_example_obs0 1 = Some [4 / 5, 597 / 10, 293 / 5]"
    by (simp add: ts_example_obs0_def)
  from ts_example_step_obs [of 0 ts_example_draws]
  have d: "\<exists>r. Townsend_step ts_example_state0 ts_example_draws (ts_example_actions 0) = Inr r
         \<and> map_of (tsr_obs r) 1 = Some [32 / 25, 296 / 5, 581 / 10]"
    by (cases "Townsend_step ts_example_state0 ts_example_draws (ts_example_actions 0)") simp_all
  from dd_example_step obtain dr where
    dr: "DiffDemandDiscrete_step DiffDemandDiscrete_default dd_example_actions = Inr dr" by blast
  then have "DiffDemandDiscrete_step DiffDemandDiscrete_default dd_example_actions = Inr dr
               \<and> 1 < dd_n_agents DiffDemandDiscrete_default"
    by (simp add: nst)
  from inst [THEN conjunct2, THEN conjunct2, THEN conjunct2, THEN conjunct2, THEN conjunct1,
             rule_format, OF this]
  have "map_of (ddr_obs dr) 1 = Some [15, 0]"
    by (simp add: nst upt_2 dd_example_actions_def uint8_def)
  with dr have e: "\<exists>r. DiffDemandDiscrete_step DiffDemandDiscrete_default dd_example_actions = Inr r
         \<and> map_of (ddr_obs r) 1 = Some [15, 0]"
    by blast
  have "1 < dd_n_agents DiffDemandDiscrete_default" by (simp add: nst)
  from inst [THEN conjunct2, THEN conjunct2, THEN conjunct2, THEN conjunct2, THEN conjunct2,
             rule_format, OF this]
  have f: "map_of (snd (DiffDemandDiscrete_reset DiffDemandDiscrete_default)) 1 = Some [8, 8]"
    by (simp add: nst upt_2 uint8_def)
  from a b c d e f cp_example_reset [of cp_example_reset_draws]
    ts_example_reset [of ts_example_reset_draws]
  show ?thesis by blast
qed

text \<open>
  Against the claim as worded: in a default DiffDemandDiscrete with the actions 15
  and 0, the observation of agent 1 is \<open>[15, 0]\<close>; it begins with the action of
  agent 0, where the agent-centred view would be \<open>[0, 15]\<close>.
\<close>

theorem own_state_first_counterexample:
  "map_sum id (\<lambda>r. map_of (ddr_obs r) 1)
     (DiffDemandDiscrete_step DiffDemandDiscrete_default dd_example_actions) = Inr (Some [15, 0])
   \<and> own_view [15, 0 :: nat] 1 = [0, 15]"
proof -
  have n: "dd_n_agents DiffDemandDiscrete_default = 2"
    by (simp add: DiffDemandDiscrete_default_def DiffDemandDiscrete_init_def)
  have "map_sum id (\<lambda>r. map_of (ddr_obs r) 1)
     (DiffDemandDiscrete_step DiffDemandDiscrete_default dd_example_actions) = Inr (Some [15, 0])"
    unfolding DiffDemandDiscrete_step_Inr [OF dd_example_wf dd_example_no_overflow]
    by (simp add: map_of_agent_dict n upt_2 dd_example_actions_def uint8_def)
  then show ?thesis by (simp add: own_view_def)
qed

section \<open>Episodes\<close>

text \<open>
  An episode after \<^verbatim>\<open>reset\<close>: the caller passes one action dictionary per step;
  \<open>rnds n\<close> holds the draws of step \<open>n\<close>. The run stops at the first exception. The
  result lists what the successive calls of \<^verbatim>\<open>step\<close> returned.
\<close>

fun cp_run ::
  "Capital_planner_ma \<Rightarrow> (nat \<Rightarrow> cp_step_draws) \<Rightarrow> (nat \<rightharpoonup> real list) list \<Rightarrow>
     py_error + Capital_planner_ma_result list" where
  "cp_run env rnds [] = Inr []"
| "cp_run env rnds (a # as) =
     bindE (Capital_planner_ma_step env (rnds 0) a) (\<lambda>r.
     bindE (cp_run (cpr_env r) (\<lambda>n. rnds (Suc n)) as) (\<lambda>rs.
     Inr (r # rs)))"

fun ts_run ::
  "Townsend \<Rightarrow> (nat \<Rightarrow> ts_step_draws) \<Rightarrow> (nat \<rightharpoonup> real list) list \<Rightarrow>
     py_error + Townsend_result list" where
  "ts_run env rnds [] = Inr []"
| "ts_run env rnds (a # as) =
     bindE (Townsend_step env (rnds 0) a) (\<lambda>r.
     bindE (ts_run (tsr_env r) (\<lambda>n. rnds (Suc n)) as) (\<lambda>rs.
     Inr (r # rs)))"

fun dd_run ::
  "DiffDemandDiscrete \<Rightarrow> (nat \<times> int) list list \<Rightarrow> py_error + DiffDemandDiscrete_result list" where
  "dd_run env [] = Inr []"
| "dd_run env (a # as) =
     bindE (DiffDemandDiscrete_step env a) (\<lambda>r.
     bindE (dd_run (ddr_env r) as) (\<lambda>rs.
     Inr (r # rs)))"

lemma cp_step_timestep:
  assumes "Capital_planner_ma_step env rnd a = Inr r" "cp_timestep env = Some t"
  shows "cpr_done r = (cp_horizon env \<le> t + 1)" "cp_timestep (cpr_env r) = Some (t + 1)"
    "cp_horizon (cpr_env r) = cp_horizon env"
  using assms by (auto simp: cp_step_eq_Inr)

lemma cp_run_done:
  "cp_run env rnds as = Inr rs \<Longrightarrow> cp_timestep env = Some t \<Longrightarrow> m < length rs \<Longrightarrow>
     cpr_done (rs ! m) = (cp_horizon env \<le> t + m + 1)"
proof (induction as arbitrary: env rnds rs t m)
  case Nil
  then show ?case by simp
next
  case (Cons a as)
  from Cons.prems(1) obtain r rs' where
    r: "Capital_planner_ma_step env (rnds 0) a = Inr r"
    and rs': "cp_run (cpr_env r) (\<lambda>n. rnds (Suc n)) as = Inr rs'"
    and rs: "rs = r # rs'"
    by (auto simp: bindE_eq_Inr)
  note st = cp_step_timestep [OF r Cons.prems(2)]
  show ?case
  proof (cases m)
    case 0
    then show ?thesis by (simp add: rs st)
  next
    case (Suc m')
    with Cons.prems(3) have "m' < length rs'" by (simp add: rs)
    from Cons.IH [OF rs' st(2) this] show ?thesis
      by (simp add: rs Suc st(3))
  qed
qed

lemma ts_step_timestep:
  assumes "Townsend_step env rnd a = Inr r" "ts_timestep env = Some t"
  shows "tsr_done r = (ts_horizon env \<le> t + 1)" "ts_timestep (tsr_env r) = Some (t + 1)"
    "ts_horizon (tsr_env r) = ts_horizon env"
  using assms by (auto simp: Townsend_step_eq_Inr)

lemma ts_run_done:
  "ts_run env rnds as = Inr rs \<Longrightarrow> ts_timestep env = Some t \<Longrightarrow> m < length rs \<Longrightarrow>
     tsr_done (rs ! m) = (ts_horizon env \<le> t + m + 1)"
proof (induction as arbitrary: env rnds rs t m)
  case Nil
  then show ?case by simp
next
  case (Cons a as)
  from Cons.prems(1) obtain r rs' where
    r: "Townsend_step env (rnds 0) a = Inr r"
    and rs': "ts_run (tsr_env r) (\<lambda>n. rnds (Suc n)) as = Inr rs'"
    and rs: "rs = r # rs'"
    by (auto simp: bindE_eq_Inr)
  note st = ts_step_timestep [OF r Cons.prems(2)]
  show ?case
  proof (cases m)
    case 0
    then show ?thesis by (simp add: rs st)
  next
    case (Suc m')
    with Cons.prems(3) have "m' < length rs'" by (simp add: rs)
    from Cons.IH [OF rs' st(2) this] show ?thesis
      by (simp add: rs Suc st(3))
  qed
qed

lemma cp_reset_timestep:
  "Capital_planner_ma_reset env rnd = Inr (env0, obs0) \<Longrightarrow>
     cp_timestep env0 = Some 0 \<and> cp_horizon env0 = cp_horizon env"
  by (auto simp: cp_reset_eq_Inr)

lemma ts_reset_timestep:
  "Townsend_reset env rnd = Inr (env0, obs0) \<Longrightarrow>
     ts_timestep env0 = Some 0 \<and> ts_horizon env0 = ts_horizon env"
  by (auto simp: Townsend_reset_eq_Inr)

lemma dd_step_counter:
  assumes "DiffDemandDiscrete_step env a = Inr r"
  shows "ddr_done r = dd_step_done env"
    and "dd_num_steps (ddr_env r) = dd_num_steps env + 1"
    and "dd_finite_periods (ddr_env r) = dd_finite_periods env"
    and "dd_n_periods (ddr_env r) = dd_n_periods env"
    and "dd_n_agents (ddr_env r) = dd_n_agents env"
  using assms by (auto simp: DiffDemandDiscrete_step_def Let_def bindE_eq_Inr)

lemma dd_step_env:
  assumes "DiffDemandDiscrete_step env a = Inr r"
  shows "\<exists>ob. ddr_env r = env\<lparr>dd_obs := ob, dd_num_steps := dd_num_steps env + 1\<rparr>"
  using assms by (auto simp: DiffDemandDiscrete_step_def Let_def bindE_eq_Inr)

lemma dd_run_done:
  "dd_run env as = Inr rs \<Longrightarrow> m < length rs \<Longrightarrow>
     ddr_done (rs ! m) =
       (if dd_finite_periods env
        then \<lparr> dd_done_agents = agent_dict (dd_n_agents env)
                                   (\<lambda>i. dd_n_periods env \<le> dd_num_steps env + int m),
               dd_done_all = (dd_n_periods env \<le> dd_num_steps env + int m) \<rparr>
        else \<lparr> dd_done_agents = [], dd_done_all = False \<rparr>)"
proof (induction as arbitrary: env rs m)
  case Nil
  then show ?case by simp
next
  case (Cons a as)
  from Cons.prems(1) obtain r rs' where
    r: "DiffDemandDiscrete_step env a = Inr r"
    and rs': "dd_run (ddr_env r) as = Inr rs'"
    and rs: "rs = r # rs'"
    by (auto simp: bindE_eq_Inr)
  note st = dd_step_counter [OF r]
  show ?case
  proof (cases m)
    case 0
    then show ?thesis by (simp add: rs st dd_step_done_def)
  next
    case (Suc m')
    with Cons.prems(2) have "m' < length rs'" by (simp add: rs)
    from Cons.IH [OF rs' this] show ?thesis
      by (simp add: rs Suc st add.assoc)
  qed
qed

lemma dd_reset_counter:
  "dd_num_steps (fst (DiffDemandDiscrete_reset env)) = 0"
  "dd_finite_periods (fst (DiffDemandDiscrete_reset env)) = dd_finite_periods env"
  "dd_n_periods (fst (DiffDemandDiscrete_reset env)) = dd_n_periods env"
  "dd_n_agents (fst (DiffDemandDiscrete_reset env)) = dd_n_agents env"
  by (simp_all add: DiffDemandDiscrete_reset_def Let_def)


lemma dd_run_total:
  assumes "\<forall>a\<in>set as. dd_wellformed env (map snd a) \<and> dd_no_overflow env (map snd a)"
  shows "\<exists>rs. dd_run env as = Inr rs \<and> length rs = length as"
  using assms
proof (induction as arbitrary: env)
  case Nil
  show ?case by simp
next
  case (Cons a as)
  from Cons.prems have a: "dd_wellformed env (map snd a)" "dd_no_overflow env (map snd a)"
    by simp_all
  from DiffDemandDiscrete_step_Inr [OF a] obtain r where
    r: "DiffDemandDiscrete_step env a = Inr r"
    by simp
  from dd_step_env [OF r] obtain ob where
    e: "ddr_env r = env\<lparr>dd_obs := ob, dd_num_steps := dd_num_steps env + 1\<rparr>"
    by blast
  have "\<forall>a\<in>set as. dd_wellformed (ddr_env r) (map snd a) \<and> dd_no_overflow (ddr_env r) (map snd a)"
    using Cons.prems by (simp add: e dd_wellformed_def dd_no_overflow_def spec_price_def)
  from Cons.IH [OF this] obtain rs where "dd_run (ddr_env r) as = Inr rs" "length rs = length as"
    by blast
  with r show ?case by simp
qed

text \<open>
  C6, as the code has it. In an episode of the capital planner or of Townsend, the
  done flag that the \<open>(m + 1)\<close>-th call of \<^verbatim>\<open>step\<close> after \<^verbatim>\<open>reset\<close> returns under
  \<^verbatim>\<open>"__all__"\<close> is true exactly when the horizon is at most \<open>m + 1\<close>: while no more
  steps than the horizon have been completed, it is true exactly when their number
  equals the horizon, and false at every earlier step. DiffDemandDiscrete compares its
  step counter with \<^verbatim>\<open>n_periods\<close> before it increments the counter: with
  \<^verbatim>\<open>finite_periods\<close> the \<open>(m + 1)\<close>-th call returns true, for every agent and under
  \<^verbatim>\<open>"__all__"\<close>, exactly when \<open>n_periods\<close> is at most \<open>m\<close>, that is from the call
  after the one that completes \<open>n_periods\<close> steps; without \<^verbatim>\<open>finite_periods\<close> it
  returns false under \<^verbatim>\<open>"__all__"\<close> and no flag per agent.
  \<^verbatim>\<open>Durable_sgm.step\<close> returns \<^verbatim>\<open>done = False\<close> whenever it returns.
\<close>

theorem done_flag:
  "(\<forall>env0 obs0 rs m. Capital_planner_ma_reset env rrnd = Inr (env0, obs0)
        \<and> cp_run env0 rnds actions = Inr rs \<and> m < length rs \<longrightarrow>
        cpr_done (rs ! m) = (cp_horizon env \<le> m + 1)
      \<and> (m + 1 \<le> cp_horizon env \<longrightarrow> cpr_done (rs ! m) = (m + 1 = cp_horizon env)))
   \<and> (\<forall>env0 obs0 rs m. Townsend_reset tenv trrnd = Inr (env0, obs0)
        \<and> ts_run env0 trnds tactions = Inr rs \<and> m < length rs \<longrightarrow>
        tsr_done (rs ! m) = (ts_horizon tenv \<le> m + 1)
      \<and> (m + 1 \<le> ts_horizon tenv \<longrightarrow> tsr_done (rs ! m) = (m + 1 = ts_horizon tenv)))
   \<and> (\<forall>rs m. dd_run (fst (DiffDemandDiscrete_reset mkt)) mkt_actions = Inr rs \<and> m < length rs \<longrightarrow>
        dd_done_all (ddr_done (rs ! m)) = (dd_finite_periods mkt \<and> dd_n_periods mkt \<le> int m)
      \<and> dd_done_agents (ddr_done (rs ! m)) =
          (if dd_finite_periods mkt
           then agent_dict (dd_n_agents mkt) (\<lambda>i. dd_n_periods mkt \<le> int m) else []))
   \<and> (\<forall>r. Durable_sgm_step denv daction = Inr r \<longrightarrow> \<not> dr_done r)"
proof (intro conjI allI impI)
  fix env0 obs0 rs m
  assume a: "Capital_planner_ma_reset env rrnd = Inr (env0, obs0)
        \<and> cp_run env0 rnds actions = Inr rs \<and> m < length rs"
  then have t: "cp_timestep env0 = Some 0" and h: "cp_horizon env0 = cp_horizon env"
    using cp_reset_timestep by blast+
  from a cp_run_done [OF _ t, of rnds actions rs m]
  show d: "cpr_done (rs ! m) = (cp_horizon env \<le> m + 1)"
    by (simp add: h)
  assume "m + 1 \<le> cp_horizon env"
  then show "cpr_done (rs ! m) = (m + 1 = cp_horizon env)"
    unfolding d by auto
next
  fix env0 obs0 rs m
  assume a: "Townsend_reset tenv trrnd = Inr (env0, obs0)
        \<and> ts_run env0 trnds tactions = Inr rs \<and> m < length rs"
  then have t: "ts_timestep env0 = Some 0" and h: "ts_horizon env0 = ts_horizon tenv"
    using ts_reset_timestep by blast+
  from a ts_run_done [OF _ t, of trnds tactions rs m]
  show d: "tsr_done (rs ! m) = (ts_horizon tenv \<le> m + 1)"
    by (simp add: h)
  assume "m + 1 \<le> ts_horizon tenv"
  then show "tsr_done (rs ! m) = (m + 1 = ts_horizon tenv)"
    unfolding d by auto
next
  fix rs m
  assume a: "dd_run (fst (DiffDemandDiscrete_reset mkt)) mkt_actions = Inr rs \<and> m < length rs"
  then have d: "ddr_done (rs ! m) =
       (if dd_finite_periods mkt
        then \<lparr> dd_done_agents = agent_dict (dd_n_agents mkt) (\<lambda>i. dd_n_periods mkt \<le> int m),
               dd_done_all = (dd_n_periods mkt \<le> int m) \<rparr>
        else \<lparr> dd_done_agents = [], dd_done_all = False \<rparr>)"
    using dd_run_done [of "fst (DiffDemandDiscrete_reset mkt)" mkt_actions rs m]
    by (simp add: dd_reset_counter)
  show "dd_done_all (ddr_done (rs ! m)) = (dd_finite_periods mkt \<and> dd_n_periods mkt \<le> int m)"
    by (simp add: d)
  show "dd_done_agents (ddr_done (rs ! m)) =
          (if dd_finite_periods mkt
           then agent_dict (dd_n_agents mkt) (\<lambda>i. dd_n_periods mkt \<le> int m) else [])"
    by (simp add: d)
next
  fix r
  assume "Durable_sgm_step denv daction = Inr r"
  then show "\<not> dr_done r"
    by (auto simp: Durable_sgm_step_def Let_def split: option.splits sum.splits)
qed

subsection \<open>The example episodes run to their horizon\<close>

definition cp_example_state1 :: Capital_planner_ma where
  "cp_example_state1 = cpr_env cp_example_result1"

lemma cp_example_state1_fields:
  "cp_n_hh cp_example_state1 = 3" "cp_n_capital cp_example_state1 = 2"
  "cp_max_s_ij cp_example_state1 = 3 / 4"
  "cp_horizon cp_example_state1 = 2" "cp_timestep cp_example_state1 = Some 1"
  "cp_obs cp_example_state1 = Some cp_example_obs1"
  "cp_eval_mode cp_example_state1" "cp_analysis_mode cp_example_state1"
  "cp_phi cp_example_state1 = 1 / 2"
  "cp_shock_idtc_values cp_example_state1 = [0.9, 1.1]"
  "cp_shock_agg_values cp_example_state1 = [0.8, 1.2]"
  by (simp_all add: cp_example_state1_def cp_example_result1_def cp_example_state0_fields)

lemma cp_example_obs1_hh0:
  "\<exists>k. map_of cp_example_obs1 0 = Some (k, [1, 0, 1], 0) \<and> length k = 6"
  by (simp add: cp_example_obs1_def map_of_agent_dict own_view_def cp_example_vars_def
      cp_vars_def Let_def cp_k_ij_new_def cp_example_state0_fields upt_3 upt_2)

lemma cp_example_actions_ok1: "cp_actions_ok cp_example_state1 cp_example_actions"
  using cp_example_actions_ok
  by (simp add: cp_actions_ok_def cp_example_state0_fields cp_example_state1_fields)

lemma cp_example_update_shock1:
  "cp_update_shock cp_example_state1 (Suc (Suc 0)) rnd ids agg = Inr ([1, 0, 1], 0)"
  by (simp add: cp_update_shock_def cp_example_state1_def cp_example_result1_def
      cp_example_state0_def cp_example_env_def py_getattr_def py_getitem_def numeral_2_eq_2)

lemma length_l_k_ij_new_cp_vars [simp]: "length (l_k_ij_new (cp_vars env k ids agg s0)) = cp_n_hh env"
  by (simp add: cp_vars_def Let_def cp_k_ij_new_def)

lemma cp_vars_ids [simp]:
  "l_shocks_idtc_id (cp_vars env k ids agg s0) = ids" "l_shock_agg_id (cp_vars env k ids agg s0) = agg"
  by (simp_all add: cp_vars_def Let_def)

lemma cp_example_step1:
  "\<exists>r. Capital_planner_ma_step cp_example_state1 rnd cp_example_actions = Inr r"
proof -
  from cp_example_obs1_hh0 obtain k where
    k: "map_of cp_example_obs1 0 = Some (k, [1, 0, 1], 0)" "length k = 6" by blast
  have vars: "Capital_planner_ma_step_vars cp_example_state1 cp_example_actions
                = Inr (cp_vars cp_example_state1 k [1, 0, 1] 0
                         (cp_unsquashed cp_example_state1 cp_example_actions))"
    unfolding cp_step_vars_eq_Inr
    by (simp add: cp_example_state1_fields k cp_unsquash_eq_Inr cp_example_actions_ok1
        less_3_cases)
  show ?thesis
    unfolding cp_step_eq_Inr
    by (simp add: cp_example_state1_fields vars cp_example_update_shock1 cp_obs_perfirm_eq_Inr)
qed

lemma cp_example_run:
  "\<exists>r. cp_run cp_example_state0 (\<lambda>n. cp_example_draws) [cp_example_actions, cp_example_actions]
          = Inr [cp_example_result1, r]"
  using cp_example_step1 [of cp_example_draws]
  by (auto simp: bindE_eq_Inr cp_example_step cp_example_state1_def)

lemma ts_step_total:
  assumes "ts_timestep env = Some t" "ts_obs_global env = Some g"
    and "ts_n_industries env \<le> length (g_k g)"
    and "ts_eval_mode env \<or> ts_analysis_mode env"
    and "ts_shocks_idtc_seeded env (t + 1) = Some sh" "ts_n_industries env \<le> length sh"
    and "ts_shocks_agg_seeded env (t + 1) = Some ag"
    and "ts_actions_ok env a" "\<not> ts_norm_ind env" "ts_alpha env = 1"
  shows "\<exists>r g'. Townsend_step env rnd a = Inr r \<and> ts_obs_global (tsr_env r) = Some g'
           \<and> length (g_k g') = ts_n_industries env"
proof -
  have sh: "ts_step_shocks env (t + 1) rnd = Inr (sh, ag)"
    using assms(4,5,7) by (simp add: ts_step_shocks_def py_getitem_def)
  have u: "\<exists>u. ts_u env (ts_rho env * g_theta g + ag) sh = Inr u \<and> length u = ts_n_industries env"
    using assms(6) by (simp add: ts_u_eq_Inr)
  have s: "\<exists>s. ts_s env a = Inr s"
    using assms(8) by (simp add: ts_s_eq_Inr)
  have y: "\<exists>y. ts_y env (g_k g) = Inr y"
    using assms(3,10) by (simp add: ts_y_eq_Inr py_float_pow_eq_Inr)
  from u s y obtain u s y where
    usy: "ts_u env (ts_rho env * g_theta g + ag) sh = Inr u" "ts_s env a = Inr s"
      "ts_y env (g_k g) = Inr y" by blast
  have p: "\<exists>prices. ts_prices env y u = Inr prices \<and> length prices = ts_n_industries env"
    using assms(9) by (simp add: ts_prices_def)
  have k: "\<exists>k_new. ts_k_new env (g_k g) s y = Inr k_new \<and> length k_new = ts_n_industries env"
    using assms(9) by (simp add: ts_k_new_eq_Inr)
  from p k obtain prices k_new where
    pk: "ts_prices env y u = Inr prices" "length prices = ts_n_industries env"
      "ts_k_new env (g_k g) s y = Inr k_new" "length k_new = ts_n_industries env" by blast
  have obs: "\<exists>obs. ts_obs_perindustry env k_new prices = Inr obs"
    using pk by (simp add: ts_obs_perindustry_eq_Inr)
  then obtain obs where obs: "ts_obs_perindustry env k_new prices = Inr obs" by blast
  show ?thesis
    unfolding Townsend_step_eq_Inr
    using assms(1,2) sh usy pk obs by fastforce
qed

lemma ts_step_env:
  "Townsend_step env rnd a = Inr r \<Longrightarrow>
     \<exists>t obs g. ts_timestep env = Some t \<and>
       tsr_env r = env\<lparr> ts_timestep := Some (t + 1), ts_obs := Some obs, ts_obs_global := Some g \<rparr>"
  unfolding Townsend_step_eq_Inr by fastforce

lemma ts_example_run:
  "\<exists>r1 r2. ts_run ts_example_state0 (\<lambda>n. ts_example_draws)
              [ts_example_actions 0, ts_example_actions 0] = Inr [r1, r2]"
proof -
  have ok: "ts_actions_ok env (ts_example_actions 0)" if "ts_n_industries env = 2" for env
    using that by (auto simp: ts_actions_ok_def ts_example_actions_def less_2_cases)
  have "\<exists>r g'. Townsend_step ts_example_state0 ts_example_draws (ts_example_actions 0) = Inr r
          \<and> ts_obs_global (tsr_env r) = Some g' \<and> length (g_k g') = ts_n_industries ts_example_state0"
    by (rule ts_step_total [where t = 0 and g = ts_example_global0
             and sh = "[- (1 / 2), 1 / 2]" and ag = "- (1 / 2)"])
       (simp_all add: ts_example_state0_fields ts_example_global0_def ok)
  then obtain r1 g1 where r1: "Townsend_step ts_example_state0 ts_example_draws (ts_example_actions 0) = Inr r1"
    and g1: "ts_obs_global (tsr_env r1) = Some g1" "length (g_k g1) = 2"
    by (auto simp: ts_example_state0_fields)
  from ts_step_env [OF r1] obtain obs g where
    env1: "tsr_env r1 = ts_example_state0\<lparr> ts_timestep := Some (0 + 1), ts_obs := Some obs,
                                 ts_obs_global := Some g \<rparr>"
    by (auto simp: ts_example_state0_fields)
  have f1: "ts_timestep (tsr_env r1) = Some 1" "ts_n_industries (tsr_env r1) = 2"
    "ts_eval_mode (tsr_env r1)" "\<not> ts_norm_ind (tsr_env r1)" "ts_alpha (tsr_env r1) = 1"
    "ts_shocks_idtc_seeded (tsr_env r1) = ts_shocks_idtc_seeded ts_example_state0"
    "ts_shocks_agg_seeded (tsr_env r1) = ts_shocks_agg_seeded ts_example_state0"
    unfolding env1 by (simp_all add: ts_example_state0_fields)
  have "\<exists>r g'. Townsend_step (tsr_env r1) ts_example_draws (ts_example_actions 0) = Inr r
          \<and> ts_obs_global (tsr_env r) = Some g' \<and> length (g_k g') = ts_n_industries (tsr_env r1)"
    by (rule ts_step_total [where t = 1 and g = g1 and sh = "[- (1 / 2), 1 / 2]" and ag = "1 / 2"])
       (simp_all add: f1 g1 ok ts_example_state0_fields)
  then obtain r2 where "Townsend_step (tsr_env r1) ts_example_draws (ts_example_actions 0) = Inr r2"
    by blast
  with r1 show ?thesis by (auto simp: bindE_eq_Inr)
qed

text \<open>
  The default market made episodic with \<^verbatim>\<open>n_periods = 1\<close>.
\<close>

definition dd_episodic_env :: DiffDemandDiscrete where
  "dd_episodic_env =
     DiffDemandDiscrete_init
       \<lparr> mc_n_agents = 2, mc_gridpoints = None, mc_finite_periods = Some True,
         mc_n_periods = Some 1, mc_parameters = None, mc_lower_price = None,
         mc_higher_price = None \<rparr>"

lemma dd_episodic_env_eq:
  "dd_episodic_env = DiffDemandDiscrete_default\<lparr>dd_finite_periods := True, dd_n_periods := 1\<rparr>"
  by (simp add: dd_episodic_env_def DiffDemandDiscrete_default_def DiffDemandDiscrete_init_def)

lemma dd_episodic_fields:
  "dd_finite_periods dd_episodic_env" "dd_n_periods dd_episodic_env = 1"
  "dd_n_agents dd_episodic_env = 2"
  by (simp_all add: dd_episodic_env_eq dd_default_fields)

lemma dd_episodic_run:
  "\<exists>rs. dd_run (fst (DiffDemandDiscrete_reset dd_episodic_env))
           [dd_example_actions, dd_example_actions] = Inr rs \<and> length rs = 2"
proof -
  have eq: "fst (DiffDemandDiscrete_reset dd_episodic_env)
      = DiffDemandDiscrete_default
          \<lparr>dd_finite_periods := True, dd_n_periods := 1, dd_num_steps := 0,
            dd_obs := dd_obs (fst (DiffDemandDiscrete_reset dd_episodic_env))\<rparr>"
    by (simp add: dd_episodic_env_eq DiffDemandDiscrete_reset_def Let_def)
  have "dd_wellformed (fst (DiffDemandDiscrete_reset dd_episodic_env)) (map snd dd_example_actions)"
    using dd_example_wf by (subst eq) (simp add: dd_wellformed_def)
  moreover
  have "dd_no_overflow (fst (DiffDemandDiscrete_reset dd_episodic_env)) (map snd dd_example_actions)"
    using dd_example_no_overflow
    by (subst eq) (simp add: dd_no_overflow_def spec_price_def)
  ultimately have "\<forall>a\<in>set [dd_example_actions, dd_example_actions].
      dd_wellformed (fst (DiffDemandDiscrete_reset dd_episodic_env)) (map snd a)
    \<and> dd_no_overflow (fst (DiffDemandDiscrete_reset dd_episodic_env)) (map snd a)"
    by simp
  from dd_run_total [OF this] show ?thesis
    by (simp add: numeral_2_eq_2)
qed

theorem done_flag_witness:
  "Capital_planner_ma_reset cp_example_env cp_example_reset_draws
     = Inr (cp_example_state0, cp_example_obs0)
   \<and> (\<exists>rs. cp_run cp_example_state0 (\<lambda>n. cp_example_draws) [cp_example_actions, cp_example_actions]
             = Inr rs
          \<and> length rs = 2 \<and> \<not> cpr_done (rs ! 0) \<and> cpr_done (rs ! 1))
   \<and> Townsend_reset ts_example_env ts_example_reset_draws = Inr (ts_example_state0, ts_example_obs0)
   \<and> (\<exists>rs. ts_run ts_example_state0 (\<lambda>n. ts_example_draws)
              [ts_example_actions 0, ts_example_actions 0] = Inr rs
          \<and> length rs = 2 \<and> \<not> tsr_done (rs ! 0) \<and> tsr_done (rs ! 1))
   \<and> (\<exists>rs. dd_run (fst (DiffDemandDiscrete_reset dd_episodic_env))
              [dd_example_actions, dd_example_actions] = Inr rs
          \<and> length rs = 2 \<and> \<not> dd_done_all (ddr_done (rs ! 0)) \<and> dd_done_all (ddr_done (rs ! 1))
          \<and> dd_done_agents (ddr_done (rs ! 1)) = [(0, True), (1, True)])
   \<and> (\<exists>r. Durable_sgm_step ds_example_state [0] = Inr r \<and> \<not> dr_done r)"
proof -
  note inst = done_flag [where env = cp_example_env and rrnd = cp_example_reset_draws
      and rnds = "\<lambda>n. cp_example_draws" and actions = "[cp_example_actions, cp_example_actions]"
      and tenv = ts_example_env and trrnd = ts_example_reset_draws
      and trnds = "\<lambda>n. ts_example_draws" and tactions = "[ts_example_actions 0, ts_example_actions 0]"
      and mkt = dd_episodic_env and mkt_actions = "[dd_example_actions, dd_example_actions]"
      and denv = ds_example_state and daction = "[0]"]
  note cpi = inst [THEN conjunct1, rule_format]
  note tsi = inst [THEN conjunct2, THEN conjunct1, rule_format]
  note ddi = inst [THEN conjunct2, THEN conjunct2, THEN conjunct1, rule_format]
  note dsi = inst [THEN conjunct2, THEN conjunct2, THEN conjunct2, rule_format]
  have cr: "Capital_planner_ma_reset cp_example_env cp_example_reset_draws
     = Inr (cp_example_state0, cp_example_obs0)"
    by (rule cp_example_reset)
  have tr: "Townsend_reset ts_example_env ts_example_reset_draws = Inr (ts_example_state0, ts_example_obs0)"
    by (rule ts_example_reset)
  from cp_example_run obtain r where
    run: "cp_run cp_example_state0 (\<lambda>n. cp_example_draws) [cp_example_actions, cp_example_actions]
          = Inr [cp_example_result1, r]" by blast
  have "\<not> cpr_done ([cp_example_result1, r] ! 0)" "cpr_done ([cp_example_result1, r] ! 1)"
    using cpi [of cp_example_state0 cp_example_obs0 "[cp_example_result1, r]" 0]
      cpi [of cp_example_state0 cp_example_obs0 "[cp_example_result1, r]" 1] cr run
    by (simp_all add: cp_example_env_def)
  with run have cp: "\<exists>rs. cp_run cp_example_state0 (\<lambda>n. cp_example_draws)
             [cp_example_actions, cp_example_actions] = Inr rs
          \<and> length rs = 2 \<and> \<not> cpr_done (rs ! 0) \<and> cpr_done (rs ! 1)"
    by (intro exI [of _ "[cp_example_result1, r]"]) simp
  from ts_example_run obtain r1 r2 where
    trun: "ts_run ts_example_state0 (\<lambda>n. ts_example_draws)
              [ts_example_actions 0, ts_example_actions 0] = Inr [r1, r2]" by blast
  have "\<not> tsr_done ([r1, r2] ! 0)" "tsr_done ([r1, r2] ! 1)"
    using tsi [of ts_example_state0 ts_example_obs0 "[r1, r2]" 0]
      tsi [of ts_example_state0 ts_example_obs0 "[r1, r2]" 1] tr trun
    by (simp_all add: ts_example_env_fields)
  with trun have ts: "\<exists>rs. ts_run ts_example_state0 (\<lambda>n. ts_example_draws)
              [ts_example_actions 0, ts_example_actions 0] = Inr rs
          \<and> length rs = 2 \<and> \<not> tsr_done (rs ! 0) \<and> tsr_done (rs ! 1)"
    by (intro exI [of _ "[r1, r2]"]) simp
  from dd_episodic_run obtain drs where
    drun: "dd_run (fst (DiffDemandDiscrete_reset dd_episodic_env))
           [dd_example_actions, dd_example_actions] = Inr drs" "length drs = 2"
    by blast
  have "\<not> dd_done_all (ddr_done (drs ! 0))" "dd_done_all (ddr_done (drs ! 1))"
    "dd_done_agents (ddr_done (drs ! 1)) = [(0, True), (1, True)]"
    using ddi [of drs 0] ddi [of drs 1] drun
    by (simp_all add: dd_episodic_fields agent_dict_def upt_2)
  with drun have dd: "\<exists>rs. dd_run (fst (DiffDemandDiscrete_reset dd_episodic_env))
              [dd_example_actions, dd_example_actions] = Inr rs
          \<and> length rs = 2 \<and> \<not> dd_done_all (ddr_done (rs ! 0)) \<and> dd_done_all (ddr_done (rs ! 1))
          \<and> dd_done_agents (ddr_done (rs ! 1)) = [(0, True), (1, True)]"
    by blast
  from ds_example_step obtain d where d: "Durable_sgm_step ds_example_state [0] = Inr d" by blast
  with dsi [OF d] have ds: "\<exists>r. Durable_sgm_step ds_example_state [0] = Inr r \<and> \<not> dr_done r"
    by blast
  from cr cp tr ts dd ds show ?thesis by blast
qed

text \<open>
  Against the claim as worded: with \<^verbatim>\<open>finite_periods\<close> and \<^verbatim>\<open>n_periods = 1\<close>, the
  first call of \<^verbatim>\<open>step\<close> completes as many steps as the episode is configured to
  last and returns false under \<^verbatim>\<open>"__all__"\<close>; the second call returns true.
\<close>

theorem done_flag_counterexample:
  "dd_finite_periods dd_episodic_env \<and> dd_n_periods dd_episodic_env = 1
   \<and> (\<exists>r1 r2. dd_run (fst (DiffDemandDiscrete_reset dd_episodic_env))
                 [dd_example_actions, dd_example_actions] = Inr [r1, r2]
         \<and> \<not> dd_done_all (ddr_done r1) \<and> dd_done_all (ddr_done r2))"
proof -
  from dd_episodic_run obtain rs where
    rs: "dd_run (fst (DiffDemandDiscrete_reset dd_episodic_env))
           [dd_example_actions, dd_example_actions] = Inr rs" "length rs = 2"
    by blast
  then obtain r1 r2 where r: "rs = [r1, r2]"
    by (cases rs; cases "tl rs") auto
  have "\<not> dd_done_all (ddr_done ([r1, r2] ! 0))" "dd_done_all (ddr_done ([r1, r2] ! 1))"
    using dd_run_done [OF rs(1) [unfolded r], of 0] dd_run_done [OF rs(1) [unfolded r], of 1]
    by (simp_all add: dd_reset_counter dd_episodic_fields)
  with rs(1) r show ?thesis
    by (auto simp: dd_episodic_fields)
qed

section \<open>Scheduled shocks\<close>

lemma build_schedule_Inr:
  assumes "build_schedule h v0 f = Inr d"
  shows "dom d = {0..h}"
proof -
  from assms obtain vs where vs: "py_list_comp (\<lambda>k. f (Suc k)) h = Inr vs"
    and d: "d = map_of ((0, v0) # zip [1..<Suc h] vs)"
    by (auto simp: build_schedule_def bindE_eq_Inr)
  from vs have len: "length [1..<Suc h] = length vs"
    by (simp add: py_list_comp_Inr_iff)
  have "dom d = fst ` set ((0, v0) # zip [1..<Suc h] vs)"
    unfolding d by (rule dom_map_of_conv_image_fst)
  also have "\<dots> = insert 0 (set (map fst (zip [1..<Suc h] vs)))"
    by simp
  also have "\<dots> = insert 0 (set [1..<Suc h])"
    using len by (simp only: map_fst_zip)
  also have "\<dots> = {0..h}"
    by auto
  finally show ?thesis .
qed

text \<open>
  The entry the schedule of the instance's mode holds for a timestep: evaluation mode
  comes first, as in \<^verbatim>\<open>step\<close>.
\<close>

definition cp_scheduled :: "Capital_planner_ma \<Rightarrow> nat \<Rightarrow> (nat list \<times> nat) option" where
  "cp_scheduled env t =
     (if cp_eval_mode env then
        (case (cp_shocks_eval_idtc env, cp_shocks_eval_agg env) of
           (Some idtc, Some agg) \<Rightarrow>
             (case (idtc t, agg t) of (Some ids, Some v) \<Rightarrow> Some (ids, v) | _ \<Rightarrow> None)
         | _ \<Rightarrow> None)
      else if cp_analysis_mode env then
        (case (cp_shocks_analysis_idtc env, cp_shocks_analysis_agg env) of
           (Some idtc, Some agg) \<Rightarrow>
             (case (idtc t, agg t) of (Some ids, Some v) \<Rightarrow> Some (ids, v) | _ \<Rightarrow> None)
         | _ \<Rightarrow> None)
      else None)"

lemma cp_init_schedules:
  assumes "Capital_planner_ma_init cfg = Inr env"
  shows "cc_eval_mode cfg \<Longrightarrow>
           \<exists>agg idtc. cp_shocks_eval_agg env = Some agg \<and> cp_shocks_eval_idtc env = Some idtc
             \<and> cp_build_eval_agg cfg = Inr agg \<and> cp_build_eval_idtc cfg = Inr idtc"
    and "cc_analysis_mode cfg \<Longrightarrow>
           \<exists>agg idtc. cp_shocks_analysis_agg env = Some agg \<and> cp_shocks_analysis_idtc env = Some idtc
             \<and> cp_build_analysis_agg cfg = Inr agg \<and> cp_build_analysis_idtc cfg = Inr idtc"
    and "cp_horizon env = cc_horizon cfg" "cp_eval_mode env = cc_eval_mode cfg"
    and "cp_analysis_mode env = cc_analysis_mode cfg"
  using assms unfolding Capital_planner_ma_init_def
  by (auto simp: bindE_eq_Inr split: if_splits)

lemma cp_update_shock_scheduled:
  assumes "cp_eval_mode env \<or> cp_analysis_mode env"
  shows "cp_update_shock env t rnd ids agg = Inr x \<longleftrightarrow> cp_scheduled env t = Some x"
  using assms
  by (cases x)
     (auto simp: cp_update_shock_def cp_scheduled_def bindE_eq_Inr py_getattr_eq_Inr
        py_getitem_eq_Inr split: option.splits)

lemma cp_update_shock_det:
  assumes "cp_eval_mode env \<or> cp_analysis_mode env"
  shows "cp_update_shock env t rnd = cp_update_shock env t rnd'"
  using assms by (intro ext) (auto simp: cp_update_shock_def)

lemma cp_reset_det:
  assumes "cp_eval_mode env \<or> cp_analysis_mode env"
  shows "Capital_planner_ma_reset env rnd = Capital_planner_ma_reset env rnd'"
proof -
  have "cp_reset_init env rnd = cp_reset_init env rnd'"
    using assms by (auto simp: cp_reset_init_def)
  then show ?thesis by (simp add: Capital_planner_ma_reset_def)
qed

lemma cp_step_det:
  assumes "cp_eval_mode env \<or> cp_analysis_mode env"
  shows "Capital_planner_ma_step env rnd a = Capital_planner_ma_step env rnd' a"
  unfolding Capital_planner_ma_step_def
  by (simp only: cp_update_shock_det [OF assms, where rnd = rnd and rnd' = rnd'])

lemma cp_step_env:
  assumes "Capital_planner_ma_step env rnd a = Inr r"
  shows "\<exists>t. cp_timestep env = Some t
            \<and> cpr_env r = env\<lparr>cp_timestep := Some (t + 1), cp_obs := Some (cpr_obs r)\<rparr>"
  using assms unfolding cp_step_eq_Inr by fastforce

lemma bindE_cong_Inr:
  "(\<And>v. m = Inr v \<Longrightarrow> f v = g v) \<Longrightarrow> bindE m f = bindE m g"
  by (cases m) simp_all

lemma cp_run_det:
  assumes "cp_eval_mode env \<or> cp_analysis_mode env"
  shows "cp_run env rnds actions = cp_run env rnds' actions"
  using assms
proof (induction actions arbitrary: env rnds rnds')
  case Nil
  show ?case by simp
next
  case (Cons a as)
  have "bindE (Capital_planner_ma_step env (rnds' 0) a) (\<lambda>r.
          bindE (cp_run (cpr_env r) (\<lambda>n. rnds (Suc n)) as) (\<lambda>rs. Inr (r # rs)))
        = bindE (Capital_planner_ma_step env (rnds' 0) a) (\<lambda>r.
          bindE (cp_run (cpr_env r) (\<lambda>n. rnds' (Suc n)) as) (\<lambda>rs. Inr (r # rs)))"
  proof (rule bindE_cong_Inr)
    fix r assume "Capital_planner_ma_step env (rnds' 0) a = Inr r"
    from cp_step_env [OF this] Cons.prems
    have "cp_eval_mode (cpr_env r) \<or> cp_analysis_mode (cpr_env r)" by auto
    from Cons.IH [OF this, where rnds = "\<lambda>n. rnds (Suc n)" and rnds' = "\<lambda>n. rnds' (Suc n)"]
    show "bindE (cp_run (cpr_env r) (\<lambda>n. rnds (Suc n)) as) (\<lambda>rs. Inr (r # rs))
        = bindE (cp_run (cpr_env r) (\<lambda>n. rnds' (Suc n)) as) (\<lambda>rs. Inr (r # rs))"
      by simp
  qed
  then show ?case
    by (simp add: cp_step_det [OF Cons.prems, where rnd = "rnds 0" and rnd' = "rnds' 0"])
qed

lemma cp_scheduled_static [simp]:
  "cp_scheduled (env\<lparr>cp_timestep := ts, cp_obs := ob\<rparr>) = cp_scheduled env"
  by (intro ext) (simp add: cp_scheduled_def)

lemma cp_step_scheduled:
  assumes "Capital_planner_ma_step env rnd a = Inr r" "cp_timestep env = Some t"
    and "cp_eval_mode env \<or> cp_analysis_mode env"
  shows "\<exists>ids v. cp_scheduled env (t + 1) = Some (ids, v)
           \<and> (\<forall>i<cp_n_hh env. \<exists>ks. map_of (cpr_obs r) i = Some (ks, own_view ids i, v))"
proof -
  from assms(1) [unfolded cp_step_eq_Inr] obtain t' L ids_new agg_new obs where
    t': "cp_timestep env = Some t'"
    and u': "cp_update_shock env (t' + 1) rnd (l_shocks_idtc_id L) (l_shock_agg_id L) = Inr (ids_new, agg_new)"
    and o: "cp_obs_perfirm env (l_k_ij_new L) ids_new agg_new = Inr obs"
    and r': "r = \<lparr> cpr_env = env\<lparr>cp_timestep := Some (t' + 1), cp_obs := Some obs\<rparr>,
              cpr_obs = obs,
              cpr_rew = agent_dict (cp_n_hh env) (\<lambda>i. np_mean (l_utility_i L)),
              cpr_done = (\<not> t' + 1 < cp_horizon env),
              cpr_info = cp_step_info env L \<rparr>"
    by blast
  from t' assms(2) have tt: "t' = t" by simp
  note u = u' [unfolded tt]
  from r' have r: "cpr_obs r = obs" by simp
  from u have "cp_scheduled env (t + 1) = Some (ids_new, agg_new)"
    by (simp add: cp_update_shock_scheduled [OF assms(3)])
  moreover from o have "\<forall>i<cp_n_hh env. \<exists>ks. map_of obs i = Some (ks, own_view ids_new i, agg_new)"
    by (simp add: cp_obs_perfirm_eq_Inr map_of_agent_dict)
  ultimately show ?thesis by (simp add: r)
qed

lemma cp_run_scheduled:
  "cp_run env rnds as = Inr rs \<Longrightarrow> cp_timestep env = Some t \<Longrightarrow>
   cp_eval_mode env \<or> cp_analysis_mode env \<Longrightarrow> m < length rs \<Longrightarrow>
     \<exists>ids v. cp_scheduled env (t + m + 1) = Some (ids, v)
       \<and> (\<forall>i<cp_n_hh env. \<exists>ks. map_of (cpr_obs (rs ! m)) i = Some (ks, own_view ids i, v))"
proof (induction as arbitrary: env rnds rs t m)
  case Nil
  then show ?case by simp
next
  case (Cons a as)
  from Cons.prems(1) obtain r rs' where
    r: "Capital_planner_ma_step env (rnds 0) a = Inr r"
    and rs': "cp_run (cpr_env r) (\<lambda>n. rnds (Suc n)) as = Inr rs'"
    and rs: "rs = r # rs'"
    by (auto simp: bindE_eq_Inr)
  from cp_step_env [OF r] Cons.prems(2)
  have e: "cpr_env r = env\<lparr>cp_timestep := Some (t + 1), cp_obs := Some (cpr_obs r)\<rparr>" by auto
  show ?case
  proof (cases m)
    case 0
    with cp_step_scheduled [OF r Cons.prems(2,3)] show ?thesis by (simp add: rs)
  next
    case (Suc m')
    with Cons.prems(4) have m': "m' < length rs'" by (simp add: rs)
    have t': "cp_timestep (cpr_env r) = Some (t + 1)" by (simp add: e)
    have md: "cp_eval_mode (cpr_env r) \<or> cp_analysis_mode (cpr_env r)"
      using Cons.prems(3) by (simp add: e)
    from Cons.IH [OF rs' t' md m'] show ?thesis
      by (simp add: rs Suc e)
  qed
qed

lemma cp_reset_scheduled:
  assumes "Capital_planner_ma_reset env rnd = Inr (env0, obs0)"
    and "cp_eval_mode env \<or> cp_analysis_mode env"
  shows "\<exists>ids v. cp_scheduled env 0 = Some (ids, v)
           \<and> (\<forall>i<cp_n_hh env. \<exists>ks. map_of obs0 i = Some (ks, own_view ids i, v))"
    and "env0 = env\<lparr>cp_timestep := Some 0, cp_obs := Some obs0\<rparr>"
proof -
  from assms(1) obtain k_init ids agg where
    i: "cp_reset_init env rnd = Inr (k_init, ids, agg)"
    and o: "cp_obs_perfirm env (cp_k_ij env k_init) ids agg = Inr obs0"
    and e: "env0 = env\<lparr>cp_timestep := Some 0, cp_obs := Some obs0\<rparr>"
    unfolding cp_reset_eq_Inr by auto
  from i assms(2) have "cp_scheduled env 0 = Some (ids, agg)"
    by (auto simp: cp_reset_init_def cp_scheduled_def bindE_eq_Inr py_getattr_eq_Inr
        py_getitem_eq_Inr split: if_splits)
  moreover from o have "\<forall>i<cp_n_hh env. \<exists>ks. map_of obs0 i = Some (ks, own_view ids i, agg)"
    by (simp add: cp_obs_perfirm_eq_Inr map_of_agent_dict)
  ultimately show "\<exists>ids v. cp_scheduled env 0 = Some (ids, v)
           \<and> (\<forall>i<cp_n_hh env. \<exists>ks. map_of obs0 i = Some (ks, own_view ids i, v))" by simp
  show "env0 = env\<lparr>cp_timestep := Some 0, cp_obs := Some obs0\<rparr>" by (rule e)
qed


subsection \<open>Townsend\<close>

lemma ts_build_agg_seeded_apply:
  "ts_build_agg_seeded gen cfg t =
     (if t \<le> tc_horizon cfg then Some (gen (ts_seed cfg) t (tc_var_theta cfg)) else None)"
  unfolding ts_build_agg_seeded_def agent_dict_def [symmetric]
  by (simp add: map_of_agent_dict less_Suc_eq_le)

lemma ts_build_idtc_seeded_apply:
  "ts_build_idtc_seeded gen cfg t =
     (if t \<le> tc_horizon cfg
      then Some (map (\<lambda>i. gen (ts_seed cfg) (tc_horizon cfg + 1 + t * tc_n_industries cfg + i)
                           (tc_var_epsilon cfg)) [0..<tc_n_industries cfg])
      else None)"
  unfolding ts_build_idtc_seeded_def agent_dict_def [symmetric]
  by (simp add: map_of_agent_dict less_Suc_eq_le)

lemma ts_seeded_init:
  "dom (ts_shocks_agg_seeded (Townsend_init_attrs gen cfg)) = {0..tc_horizon cfg}"
  "dom (ts_shocks_idtc_seeded (Townsend_init_attrs gen cfg)) = {0..tc_horizon cfg}"
  by (auto simp: Townsend_init_attrs_def ts_build_agg_seeded_apply ts_build_idtc_seeded_apply
      dom_def split: if_splits)

text \<open>
  The state without the rental shocks that \<^verbatim>\<open>obs_global\<close> stores: \<^verbatim>\<open>step\<close> never
  reads them back.
\<close>

definition ts_forget_rent :: "Townsend \<Rightarrow> Townsend" where
  "ts_forget_rent env =
     env\<lparr> ts_obs_global := map_option (\<lambda>g. g\<lparr> g_shock_rent := [] \<rparr>) (ts_obs_global env) \<rparr>"

lemma ts_step_shocks_det:
  assumes "ts_eval_mode env \<or> ts_analysis_mode env"
  shows "ts_step_shocks env t rnd = ts_step_shocks env t rnd'"
  using assms by (auto simp: ts_step_shocks_def)

lemma ts_step_shocks_seeded:
  assumes "ts_eval_mode env \<or> ts_analysis_mode env"
  shows "ts_step_shocks env t rnd = Inr (sh, ag) \<longleftrightarrow>
           ts_shocks_idtc_seeded env t = Some sh \<and> ts_shocks_agg_seeded env t = Some ag"
  using assms by (auto simp: ts_step_shocks_def bindE_eq_Inr py_getitem_eq_Inr)

lemma ts_forget_rent_eqD:
  assumes "ts_forget_rent env' = ts_forget_rent env"
  shows "env' = env\<lparr> ts_obs_global := ts_obs_global env' \<rparr>"
    and "map_option (\<lambda>g. g\<lparr> g_shock_rent := [] \<rparr>) (ts_obs_global env')
           = map_option (\<lambda>g. g\<lparr> g_shock_rent := [] \<rparr>) (ts_obs_global env)"
proof -
  from assms have "ts_obs_global_update (\<lambda>_. ts_obs_global env') (ts_forget_rent env')
      = ts_obs_global_update (\<lambda>_. ts_obs_global env') (ts_forget_rent env)" by simp
  then show "env' = env\<lparr> ts_obs_global := ts_obs_global env' \<rparr>"
    by (simp add: ts_forget_rent_def)
  from assms have "ts_obs_global (ts_forget_rent env') = ts_obs_global (ts_forget_rent env)"
    by simp
  then show "map_option (\<lambda>g. g\<lparr> g_shock_rent := [] \<rparr>) (ts_obs_global env')
           = map_option (\<lambda>g. g\<lparr> g_shock_rent := [] \<rparr>) (ts_obs_global env)"
    by (simp add: ts_forget_rent_def)
qed

lemma ts_obs_global_irrelevant:
  "ts_step_shocks (env\<lparr> ts_obs_global := x \<rparr>) = ts_step_shocks env"
  "ts_u (env\<lparr> ts_obs_global := x \<rparr>) = ts_u env"
  "ts_s (env\<lparr> ts_obs_global := x \<rparr>) = ts_s env"
  "ts_y (env\<lparr> ts_obs_global := x \<rparr>) = ts_y env"
  "ts_prices (env\<lparr> ts_obs_global := x \<rparr>) = ts_prices env"
  "ts_k_new (env\<lparr> ts_obs_global := x \<rparr>) = ts_k_new env"
  "ts_obs_perindustry (env\<lparr> ts_obs_global := x \<rparr>) = ts_obs_perindustry env"
  by (intro ext, simp add: ts_step_shocks_def ts_u_def ts_s_def ts_y_def ts_prices_def ts_k_new_def
      ts_obs_perindustry_def)+

lemma Townsend_step_InrD:
  assumes step: "Townsend_step env rnd a = Inr r"
  shows "\<exists>t g shock_idtc shock_agg u s y prices k_new obs.
    ts_timestep env = Some t \<and> ts_obs_global env = Some g
    \<and> ts_step_shocks env (t + 1) rnd = Inr (shock_idtc, shock_agg)
    \<and> ts_u env (ts_rho env * g_theta g + shock_agg) shock_idtc = Inr u
    \<and> ts_s env a = Inr s
    \<and> ts_y env (g_k g) = Inr y
    \<and> ts_prices env y u = Inr prices
    \<and> ts_k_new env (g_k g) s y = Inr k_new
    \<and> ts_obs_perindustry env k_new prices = Inr obs
    \<and> tsr_obs r = obs \<and> tsr_done r = (\<not> t + 1 < ts_horizon env)
    \<and> tsr_rew r = agent_dict (ts_n_industries env)
          (\<lambda>i. (ts_utility env prices s y (ts_shock_rent env rnd) (g_k g) k_new ! i
                  - ts_rew_mean env) / ts_rew_std env)
    \<and> tsr_env r = env\<lparr> ts_timestep := Some (t + 1), ts_obs := Some obs,
                       ts_obs_global := Some \<lparr> g_k = k_new, g_prices = prices,
                                      g_theta = ts_rho env * g_theta g + shock_agg,
                                      g_shock_agg = shock_agg, g_shock_idtc = shock_idtc,
                                      g_shock_rent = ts_shock_rent env rnd \<rparr> \<rparr>"
proof -
  from step [unfolded Townsend_step_eq_Inr]
  obtain t g shock_idtc shock_agg u s y prices k_new obs where
    t: "ts_timestep env = Some t" and g: "ts_obs_global env = Some g"
    and sh: "ts_step_shocks env (t + 1) rnd = Inr (shock_idtc, shock_agg)"
    and u: "ts_u env (ts_rho env * g_theta g + shock_agg) shock_idtc = Inr u"
    and s: "ts_s env a = Inr s"
    and y: "ts_y env (g_k g) = Inr y"
    and p: "ts_prices env y u = Inr prices"
    and k: "ts_k_new env (g_k g) s y = Inr k_new"
    and o: "ts_obs_perindustry env k_new prices = Inr obs"
    and r: "r = \<lparr> tsr_env = env\<lparr> ts_timestep := Some (t + 1),
                             ts_obs := Some obs,
                             ts_obs_global :=
                               Some \<lparr> g_k = k_new, g_prices = prices,
                                      g_theta = ts_rho env * g_theta g + shock_agg,
                                      g_shock_agg = shock_agg, g_shock_idtc = shock_idtc,
                                      g_shock_rent = ts_shock_rent env rnd \<rparr> \<rparr>,
              tsr_obs = obs,
              tsr_rew = agent_dict (ts_n_industries env)
                          (\<lambda>i. (ts_utility env prices s y (ts_shock_rent env rnd) (g_k g) k_new ! i
                                  - ts_rew_mean env) / ts_rew_std env),
              tsr_done = (\<not> t + 1 < ts_horizon env),
              tsr_info = ts_step_info env s
                           (ts_utility env prices s y (ts_shock_rent env rnd) (g_k g) k_new)
                           y (g_k g) k_new prices \<rparr>"
    by blast
  have r1: "tsr_obs r = obs" "tsr_done r = (\<not> t + 1 < ts_horizon env)"
    "tsr_rew r = agent_dict (ts_n_industries env)
          (\<lambda>i. (ts_utility env prices s y (ts_shock_rent env rnd) (g_k g) k_new ! i
                  - ts_rew_mean env) / ts_rew_std env)"
    "tsr_env r = env\<lparr> ts_timestep := Some (t + 1), ts_obs := Some obs,
                       ts_obs_global := Some \<lparr> g_k = k_new, g_prices = prices,
                                      g_theta = ts_rho env * g_theta g + shock_agg,
                                      g_shock_agg = shock_agg, g_shock_idtc = shock_idtc,
                                      g_shock_rent = ts_shock_rent env rnd \<rparr> \<rparr>"
    unfolding r by simp_all
  from t g sh u s y p k o r1 show ?thesis by blast
qed

lemma Townsend_step_InrI:
  assumes "ts_timestep env = Some t" "ts_obs_global env = Some g"
    and "ts_step_shocks env (t + 1) rnd = Inr (shock_idtc, shock_agg)"
    and "ts_u env (ts_rho env * g_theta g + shock_agg) shock_idtc = Inr u"
    and "ts_s env a = Inr s"
    and "ts_y env (g_k g) = Inr y"
    and "ts_prices env y u = Inr prices"
    and "ts_k_new env (g_k g) s y = Inr k_new"
    and "ts_obs_perindustry env k_new prices = Inr obs"
  shows "\<exists>r. Townsend_step env rnd a = Inr r \<and> tsr_obs r = obs
           \<and> tsr_done r = (\<not> t + 1 < ts_horizon env)
           \<and> tsr_env r = env\<lparr> ts_timestep := Some (t + 1), ts_obs := Some obs,
                       ts_obs_global := Some \<lparr> g_k = k_new, g_prices = prices,
                                      g_theta = ts_rho env * g_theta g + shock_agg,
                                      g_shock_agg = shock_agg, g_shock_idtc = shock_idtc,
                                      g_shock_rent = ts_shock_rent env rnd \<rparr> \<rparr>"
  unfolding Townsend_step_def
  using assms by (simp add: Let_def py_getattr_def)

lemma ts_step_sim:
  assumes mode: "ts_eval_mode env \<or> ts_analysis_mode env"
    and eq: "ts_forget_rent env' = ts_forget_rent env"
    and step: "Townsend_step env rnd a = Inr r"
  shows "\<exists>r'. Townsend_step env' rnd' a = Inr r' \<and> tsr_obs r' = tsr_obs r
           \<and> tsr_done r' = tsr_done r
           \<and> ts_forget_rent (tsr_env r') = ts_forget_rent (tsr_env r)"
proof -
  note e = ts_forget_rent_eqD [OF eq]
  from Townsend_step_InrD [OF step]
  obtain t g shock_idtc shock_agg u s y prices k_new obs where
    t: "ts_timestep env = Some t" and g: "ts_obs_global env = Some g"
    and sh: "ts_step_shocks env (t + 1) rnd = Inr (shock_idtc, shock_agg)"
    and u: "ts_u env (ts_rho env * g_theta g + shock_agg) shock_idtc = Inr u"
    and s: "ts_s env a = Inr s"
    and y: "ts_y env (g_k g) = Inr y"
    and p: "ts_prices env y u = Inr prices"
    and k: "ts_k_new env (g_k g) s y = Inr k_new"
    and o: "ts_obs_perindustry env k_new prices = Inr obs"
    and r: "tsr_obs r = obs" "tsr_done r = (\<not> t + 1 < ts_horizon env)"
      "tsr_env r = env\<lparr> ts_timestep := Some (t + 1), ts_obs := Some obs,
                       ts_obs_global := Some \<lparr> g_k = k_new, g_prices = prices,
                                      g_theta = ts_rho env * g_theta g + shock_agg,
                                      g_shock_agg = shock_agg, g_shock_idtc = shock_idtc,
                                      g_shock_rent = ts_shock_rent env rnd \<rparr> \<rparr>"
    by blast
  from e(2) g obtain g' where g': "ts_obs_global env' = Some g'"
    and gg: "g'\<lparr> g_shock_rent := [] \<rparr> = g\<lparr> g_shock_rent := [] \<rparr>"
    by (cases "ts_obs_global env'") auto
  have gk: "g_k g' = g_k g"
    using arg_cong [OF gg, of g_k] by simp
  have gt: "g_theta g' = g_theta g"
    using arg_cong [OF gg, of g_theta] by simp
  define x where "x = ts_obs_global env'"
  have env': "env' = env\<lparr> ts_obs_global := x \<rparr>"
    using e(1) by (simp add: x_def)
  have f: "ts_timestep env' = Some t" "ts_rho env' = ts_rho env"
    "ts_horizon env' = ts_horizon env"
    unfolding env' by (simp_all add: t)
  have sh': "ts_step_shocks env' (t + 1) rnd' = Inr (shock_idtc, shock_agg)"
    unfolding env' ts_obs_global_irrelevant
    using sh ts_step_shocks_det [OF mode, of "t + 1" rnd rnd'] by simp
  have u': "ts_u env' (ts_rho env' * g_theta g' + shock_agg) shock_idtc = Inr u"
    unfolding f gt unfolding env' ts_obs_global_irrelevant by (rule u)
  have s': "ts_s env' a = Inr s"
    unfolding env' ts_obs_global_irrelevant by (rule s)
  have y': "ts_y env' (g_k g') = Inr y"
    unfolding gk unfolding env' ts_obs_global_irrelevant by (rule y)
  have p': "ts_prices env' y u = Inr prices"
    unfolding env' ts_obs_global_irrelevant by (rule p)
  have k': "ts_k_new env' (g_k g') s y = Inr k_new"
    unfolding gk unfolding env' ts_obs_global_irrelevant by (rule k)
  have o': "ts_obs_perindustry env' k_new prices = Inr obs"
    unfolding env' ts_obs_global_irrelevant by (rule o)
  from Townsend_step_InrI [OF f(1) g' sh' u' s' y' p' k' o']
  obtain r' where r': "Townsend_step env' rnd' a = Inr r'" "tsr_obs r' = obs"
    "tsr_done r' = (\<not> t + 1 < ts_horizon env')"
    "tsr_env r' = env'\<lparr> ts_timestep := Some (t + 1), ts_obs := Some obs,
                       ts_obs_global := Some \<lparr> g_k = k_new, g_prices = prices,
                                      g_theta = ts_rho env' * g_theta g' + shock_agg,
                                      g_shock_agg = shock_agg, g_shock_idtc = shock_idtc,
                                      g_shock_rent = ts_shock_rent env' rnd' \<rparr> \<rparr>"
    by blast
  have "ts_forget_rent (tsr_env r') = ts_forget_rent (tsr_env r)"
    unfolding r'(4) r(3) f gt unfolding env' by (simp add: ts_forget_rent_def)
  with r' r f show ?thesis by simp
qed

lemma ts_run_sim:
  "ts_eval_mode env \<or> ts_analysis_mode env \<Longrightarrow> ts_forget_rent env' = ts_forget_rent env \<Longrightarrow>
   ts_run env rnds as = Inr rs \<Longrightarrow>
     \<exists>rs'. ts_run env' rnds' as = Inr rs' \<and> map tsr_obs rs' = map tsr_obs rs
        \<and> map tsr_done rs' = map tsr_done rs"
proof (induction as arbitrary: env env' rnds rnds' rs)
  case Nil
  then show ?case by simp
next
  case (Cons a as)
  from Cons.prems(3) obtain r rs0 where
    r: "Townsend_step env (rnds 0) a = Inr r"
    and rs0: "ts_run (tsr_env r) (\<lambda>n. rnds (Suc n)) as = Inr rs0"
    and rs: "rs = r # rs0"
    by (auto simp: bindE_eq_Inr)
  from ts_step_sim [OF Cons.prems(1,2) r, of "rnds' 0"] obtain r' where
    r': "Townsend_step env' (rnds' 0) a = Inr r'" "tsr_obs r' = tsr_obs r"
      "tsr_done r' = tsr_done r" "ts_forget_rent (tsr_env r') = ts_forget_rent (tsr_env r)"
    by blast
  from ts_step_env [OF r] Cons.prems(1)
  have md: "ts_eval_mode (tsr_env r) \<or> ts_analysis_mode (tsr_env r)" by auto
  from Cons.IH [OF md r'(4) rs0, of "\<lambda>n. rnds' (Suc n)"] obtain rs0' where
    "ts_run (tsr_env r') (\<lambda>n. rnds' (Suc n)) as = Inr rs0'"
    "map tsr_obs rs0' = map tsr_obs rs0" "map tsr_done rs0' = map tsr_done rs0"
    by blast
  with r' show ?case
    by (intro exI [of _ "r' # rs0'"]) (simp add: rs)
qed

lemma ts_step_rent_free:
  assumes "ts_eval_mode env \<or> ts_analysis_mode env" "\<not> ts_rental_shock env"
  shows "Townsend_step env rnd a = Townsend_step env rnd' a"
proof -
  have "ts_shock_rent env rnd = ts_shock_rent env rnd'"
    using assms(2) by (simp add: ts_shock_rent_def)
  then show ?thesis
    unfolding Townsend_step_def
    by (simp only: ts_step_shocks_det [OF assms(1), where rnd = rnd and rnd' = rnd'])
qed

lemma ts_run_seeded:
  "ts_run env rnds as = Inr rs \<Longrightarrow> ts_timestep env = Some t \<Longrightarrow>
   ts_eval_mode env \<or> ts_analysis_mode env \<Longrightarrow> m < length rs \<Longrightarrow>
     \<exists>g. ts_obs_global (tsr_env (rs ! m)) = Some g
       \<and> ts_shocks_idtc_seeded env (t + m + 1) = Some (g_shock_idtc g)
       \<and> ts_shocks_agg_seeded env (t + m + 1) = Some (g_shock_agg g)"
proof (induction as arbitrary: env rnds rs t m)
  case Nil
  then show ?case by simp
next
  case (Cons a as)
  from Cons.prems(1) obtain r rs' where
    r: "Townsend_step env (rnds 0) a = Inr r"
    and rs': "ts_run (tsr_env r) (\<lambda>n. rnds (Suc n)) as = Inr rs'"
    and rs: "rs = r # rs'"
    by (auto simp: bindE_eq_Inr)
  from ts_step_env [OF r] Cons.prems(2) obtain obs g where
    e: "tsr_env r = env\<lparr> ts_timestep := Some (t + 1), ts_obs := Some obs, ts_obs_global := Some g \<rparr>"
    by auto
  show ?case
  proof (cases m)
    case 0
    from Townsend_step_InrD [OF r] obtain t0 sh ag g0 where
      "ts_timestep env = Some t0"
      "ts_step_shocks env (t0 + 1) (rnds 0) = Inr (sh, ag)"
      "ts_obs_global (tsr_env r) = Some g0" "g_shock_idtc g0 = sh" "g_shock_agg g0 = ag"
      by fastforce
    with Cons.prems(2) show ?thesis
      by (auto simp: rs 0 ts_step_shocks_seeded [OF Cons.prems(3)])
  next
    case (Suc m')
    with Cons.prems(4) have m': "m' < length rs'" by (simp add: rs)
    have t': "ts_timestep (tsr_env r) = Some (t + 1)" by (simp add: e)
    have md: "ts_eval_mode (tsr_env r) \<or> ts_analysis_mode (tsr_env r)"
      using Cons.prems(3) by (simp add: e)
    from Cons.IH [OF rs' t' md m'] show ?thesis
      by (simp add: rs Suc e)
  qed
qed

lemma ts_reset_det:
  assumes "ts_eval_mode env \<or> ts_analysis_mode env"
  shows "Townsend_reset env rnd = Townsend_reset env rnd'"
proof -
  have "ts_reset_init env rnd = ts_reset_init env rnd'"
    using assms by (auto simp: ts_reset_init_def)
  then show ?thesis by (simp add: Townsend_reset_def)
qed

lemma ts_run_rent_free:
  assumes "ts_eval_mode env \<or> ts_analysis_mode env" "\<not> ts_rental_shock env"
  shows "ts_run env rnds actions = ts_run env rnds' actions"
  using assms
proof (induction actions arbitrary: env rnds rnds')
  case Nil
  show ?case by simp
next
  case (Cons a as)
  have "bindE (Townsend_step env (rnds' 0) a) (\<lambda>r.
          bindE (ts_run (tsr_env r) (\<lambda>n. rnds (Suc n)) as) (\<lambda>rs. Inr (r # rs)))
        = bindE (Townsend_step env (rnds' 0) a) (\<lambda>r.
          bindE (ts_run (tsr_env r) (\<lambda>n. rnds' (Suc n)) as) (\<lambda>rs. Inr (r # rs)))"
  proof (rule bindE_cong_Inr)
    fix r assume "Townsend_step env (rnds' 0) a = Inr r"
    from ts_step_env [OF this] Cons.prems
    have "ts_eval_mode (tsr_env r) \<or> ts_analysis_mode (tsr_env r)" "\<not> ts_rental_shock (tsr_env r)"
      by auto
    from Cons.IH [OF this, where rnds = "\<lambda>n. rnds (Suc n)" and rnds' = "\<lambda>n. rnds' (Suc n)"]
    show "bindE (ts_run (tsr_env r) (\<lambda>n. rnds (Suc n)) as) (\<lambda>rs. Inr (r # rs))
        = bindE (ts_run (tsr_env r) (\<lambda>n. rnds' (Suc n)) as) (\<lambda>rs. Inr (r # rs))"
      by simp
  qed
  then show ?case
    by (simp add: ts_step_rent_free [OF Cons.prems, where rnd = "rnds 0" and rnd' = "rnds' 0"])
qed

lemma cp_init_schedule_dom:
  assumes "Capital_planner_ma_init cfg = Inr env"
  shows "cc_eval_mode cfg \<Longrightarrow>
           \<exists>agg idtc. cp_shocks_eval_agg env = Some agg \<and> cp_shocks_eval_idtc env = Some idtc
             \<and> cp_build_eval_agg cfg = Inr agg \<and> cp_build_eval_idtc cfg = Inr idtc
             \<and> dom agg = {0..cc_horizon cfg} \<and> dom idtc = {0..cc_horizon cfg}"
    and "cc_analysis_mode cfg \<Longrightarrow>
           \<exists>agg idtc. cp_shocks_analysis_agg env = Some agg \<and> cp_shocks_analysis_idtc env = Some idtc
             \<and> cp_build_analysis_agg cfg = Inr agg \<and> cp_build_analysis_idtc cfg = Inr idtc
             \<and> dom agg = {0..cc_horizon cfg} \<and> dom idtc = {0..cc_horizon cfg}"
proof -
  assume "cc_eval_mode cfg"
  from cp_init_schedules(1) [OF assms this] obtain agg idtc where
    a: "cp_shocks_eval_agg env = Some agg" "cp_shocks_eval_idtc env = Some idtc"
      "cp_build_eval_agg cfg = Inr agg" "cp_build_eval_idtc cfg = Inr idtc" by blast
  have "dom agg = {0..cc_horizon cfg}" "dom idtc = {0..cc_horizon cfg}"
    using build_schedule_Inr [OF a(3) [unfolded cp_build_eval_agg_def]]
      build_schedule_Inr [OF a(4) [unfolded cp_build_eval_idtc_def]] by simp_all
  with a show "\<exists>agg idtc. cp_shocks_eval_agg env = Some agg \<and> cp_shocks_eval_idtc env = Some idtc
             \<and> cp_build_eval_agg cfg = Inr agg \<and> cp_build_eval_idtc cfg = Inr idtc
             \<and> dom agg = {0..cc_horizon cfg} \<and> dom idtc = {0..cc_horizon cfg}" by blast
next
  assume "cc_analysis_mode cfg"
  from cp_init_schedules(2) [OF assms this] obtain agg idtc where
    a: "cp_shocks_analysis_agg env = Some agg" "cp_shocks_analysis_idtc env = Some idtc"
      "cp_build_analysis_agg cfg = Inr agg" "cp_build_analysis_idtc cfg = Inr idtc" by blast
  have "dom agg = {0..cc_horizon cfg}" "dom idtc = {0..cc_horizon cfg}"
    using build_schedule_Inr [OF a(3) [unfolded cp_build_analysis_agg_def]]
      build_schedule_Inr [OF a(4) [unfolded cp_build_analysis_idtc_def]] by simp_all
  with a show "\<exists>agg idtc. cp_shocks_analysis_agg env = Some agg \<and> cp_shocks_analysis_idtc env = Some idtc
             \<and> cp_build_analysis_agg cfg = Inr agg \<and> cp_build_analysis_idtc cfg = Inr idtc
             \<and> dom agg = {0..cc_horizon cfg} \<and> dom idtc = {0..cc_horizon cfg}" by blast
qed


text \<open>
  The Townsend example with \<^verbatim>\<open>rental_shock\<close> switched on: evaluation and analysis
  mode stay on.
\<close>

definition ts_rent_config :: Townsend_config where
  "ts_rent_config = ts_example_config\<lparr> tc_rental_shock := True \<rparr>"

definition ts_rent_env :: Townsend where
  "ts_rent_env = (Townsend_init_attrs ts_example_gen ts_rent_config)\<lparr>ts_n_firms := Some 1\<rparr>"

definition ts_rent_state0 :: Townsend where
  "ts_rent_state0 =
     ts_rent_env\<lparr> ts_timestep := Some 0, ts_obs := Some ts_example_obs0,
                  ts_obs_global := Some ts_example_global0 \<rparr>"

definition ts_rent_draws :: "real \<Rightarrow> ts_step_draws" where
  "ts_rent_draws c = \<lparr> tsd_shock_idtc = (\<lambda>i. 0), tsd_shock_agg = 0, tsd_shock_rent = (\<lambda>i. c) \<rparr>"

lemma ts_rent_env_eq: "ts_rent_env = ts_example_env\<lparr> ts_rental_shock := True \<rparr>"
  by (simp add: ts_rent_env_def ts_example_env_def ts_rent_config_def Townsend_init_attrs_def
      ts_build_agg_seeded_def ts_build_idtc_seeded_def ts_seed_def)

lemma ts_rent_state0_eq: "ts_rent_state0 = ts_example_state0\<lparr> ts_rental_shock := True \<rparr>"
  by (simp add: ts_rent_state0_def ts_example_state0_def ts_rent_env_eq)

lemma ts_rent_reset:
  "Townsend_reset ts_rent_env rnd = Inr (ts_rent_state0, ts_example_obs0)"
  unfolding ts_rent_state0_def ts_rent_env_eq
  by (simp add: Townsend_reset_def ts_reset_init_def ts_example_env_fields ts_example_seeded
      py_getattr_def py_getitem_def ts_k_init_fixed_def ts_u_def ts_y_def ts_p_init_def
      ts_obs_perindustry_def own_first_def others_def py_index_def py_list_comp_def
      py_float_pow_def py_pow_one upt_2 agent_dict_def
      ts_example_obs0_def ts_example_global0_def)

lemma ts_rent_step:
  "map_sum id (\<lambda>r. (map_of (tsr_rew r) 0, map_option g_shock_rent (ts_obs_global (tsr_env r))))
     (Townsend_step ts_rent_state0 (ts_rent_draws c) (ts_example_actions 0))
   = Inr (Some (365301 / 10000 - c * (9 / 10)), Some [c, c])"
  unfolding ts_rent_state0_eq
  by (simp add: Townsend_step_def Let_def ts_example_state0_fields ts_example_global0_def
      py_getattr_def py_getitem_def ts_step_shocks_def ts_shock_rent_def ts_u_def ts_s_def
      ts_y_def ts_prices_def ts_k_new_def ts_utility_def ts_rent_draws_def
      ts_obs_perindustry_def own_first_def others_def py_index_def py_list_comp_def
      py_float_pow_def py_pow_one upt_2 agent_dict_def ts_example_actions_def power2_eq_square)


text \<open>Other draws than those of the examples.\<close>

definition cp_other_reset_draws :: cp_reset_draws where
  "cp_other_reset_draws = \<lparr> rd_k = (\<lambda>i. 1), rd_shocks_idtc = (\<lambda>i. 1), rd_shock_agg = 1 \<rparr>"

definition cp_other_draws :: cp_step_draws where
  "cp_other_draws = \<lparr> sd_shocks_idtc = (\<lambda>i. 1), sd_shock_agg = 1 \<rparr>"

lemma cp_example_scheduled: "cp_scheduled cp_example_env (Suc 0) = Some ([1, 0, 1], 0)"
  by (simp add: cp_scheduled_def cp_example_env_def)

lemma cp_example_env_modes:
  "cp_eval_mode cp_example_env" "cp_n_hh cp_example_env = 3"
  by (simp_all add: cp_example_env_def)



end
